(* ===== verification/Hydra_Prelude.thy ===== *)
theory Hydra_Prelude
  imports Main
begin

text \<open>
  Shared ground of the development: the theorem collections the component proofs rewrite with,
  the names of the types every component uses, the string operations of the Go standard library
  that the sources call (\<^verbatim>\<open>strings.TrimRight\<close>, \<^verbatim>\<open>strings.TrimPrefix\<close>,
  \<^verbatim>\<open>strings.TrimSuffix\<close>, \<^verbatim>\<open>strings.Cut\<close>, \<^verbatim>\<open>strings.Join\<close>, \<^verbatim>\<open>strconv.Itoa\<close>),
  and generic lemmas on lists, options and results.
  A Go string is a byte sequence; it is modelled by \<^typ>\<open>string\<close>, whose characters are bytes.
\<close>

named_theorems err_simps \<open>classification of errors by errors.Is and errors.As\<close>
named_theorems obj_simps \<open>projections and updates of API objects\<close>

text \<open>A Go \<^verbatim>\<open>(T, error)\<close> is a sum, with the error on the left.\<close>

fun is_ok :: "'e + 'a \<Rightarrow> bool" where
  "is_ok (Inl _) = False"
| "is_ok (Inr _) = True"

lemma is_ok_iff: "is_ok r \<longleftrightarrow> (\<exists>x. r = Inr x)"
  by (cases r) auto

section \<open>Strings of the standard library\<close>

definition hasPrefix :: "string \<Rightarrow> string \<Rightarrow> bool" where
  "hasPrefix s p \<longleftrightarrow> take (length p) s = p"

definition trimPrefix :: "string \<Rightarrow> string \<Rightarrow> string" where
  "trimPrefix s p = (if hasPrefix s p then drop (length p) s else s)"

definition trimSuffix :: "string \<Rightarrow> string \<Rightarrow> string" where
  "trimSuffix s p = rev (trimPrefix (rev s) (rev p))"

text \<open>\<^verbatim>\<open>strings.TrimRight(s, cutset)\<close>: the trailing characters in the cutset are dropped.\<close>

definition trimRight :: "string \<Rightarrow> string \<Rightarrow> string" where
  "trimRight s cutset = rev (dropWhile (\<lambda>c. c \<in> set cutset) (rev s))"

text \<open>\<^verbatim>\<open>strings.Cut\<close> at a one-character separator: before, after, found.\<close>

definition cutAt :: "char \<Rightarrow> string \<Rightarrow> string \<times> string \<times> bool" where
  "cutAt c s = (if c \<in> set s
     then (takeWhile (\<lambda>x. x \<noteq> c) s, tl (dropWhile (\<lambda>x. x \<noteq> c) s), True)
     else (s, [], False))"

fun joinStrings :: "string \<Rightarrow> string list \<Rightarrow> string" where
  "joinStrings sep [] = []"
| "joinStrings sep [x] = x"
| "joinStrings sep (x # xs) = x @ sep @ joinStrings sep xs"

definition digit_char :: "nat \<Rightarrow> char" where
  "digit_char d = char_of (48 + d)"

text \<open>\<^verbatim>\<open>strconv.Itoa\<close> of a number that is not negative.\<close>

fun itoa :: "nat \<Rightarrow> string" where
  "itoa n = (if n < 10 then [digit_char n] else itoa (n div 10) @ [digit_char (n mod 10)])"

declare itoa.simps [simp del]

text \<open>\<^verbatim>\<open>%q\<close> of a string that needs no escapes, as the names and addresses here are.\<close>

definition quoted :: "string \<Rightarrow> string" where
  "quoted s = CHR 34 # s @ [CHR 34]"

lemma hasPrefix_append [simp]: "hasPrefix (p @ s) p"
  by (simp add: hasPrefix_def)

lemma trimPrefix_append [simp]: "trimPrefix (p @ s) p = s"
  by (simp add: trimPrefix_def)

lemma hasPrefixD: "hasPrefix s p \<Longrightarrow> s = p @ drop (length p) s"
  by (metis append_take_drop_id hasPrefix_def)

lemma trimRight_length: "length (trimRight s cs) \<le> length s"
  unfolding trimRight_def by (metis length_dropWhile_le length_rev)

lemma trimRight_last: "trimRight s cs \<noteq> [] \<Longrightarrow> last (trimRight s cs) \<notin> set cs"
  unfolding trimRight_def
  by (metis hd_dropWhile last_rev rev_is_Nil_conv)

lemma trimRight_prefix: "\<exists>q. s = trimRight s cs @ q"
  unfolding trimRight_def
  by (metis rev_append rev_rev_ident takeWhile_dropWhile_id)

lemma itoa_nonempty [simp]: "itoa n \<noteq> []"
  by (subst itoa.simps) simp

lemma of_char_digit_char: "d < 10 \<Longrightarrow> of_char (digit_char d) = 48 + d"
  by (simp add: digit_char_def)

lemma digit_char_inj: "d < 10 \<Longrightarrow> e < 10 \<Longrightarrow> digit_char d = digit_char e \<Longrightarrow> d = e"
  by (metis add_left_imp_eq of_char_digit_char)

lemma itoa_inj: "itoa a = itoa b \<Longrightarrow> a = b"
proof (induction a arbitrary: b rule: less_induct)
  case (less a)
  consider "a < 10" "b < 10" | "a < 10 \<longleftrightarrow> \<not> b < 10" | "\<not> a < 10" "\<not> b < 10" by blast
  then show ?case
  proof cases
    case 1
    then have "digit_char a = digit_char b"
      using less.prems by (simp add: itoa.simps [of a] itoa.simps [of b])
    with 1 show ?thesis by (simp add: digit_char_inj)
  next
    case 2
    then have "length (itoa a) \<noteq> length (itoa b)"
      by (cases "a < 10") (simp_all add: itoa.simps [of a] itoa.simps [of b])
    with less.prems show ?thesis by simp
  next
    case 3
    then have "itoa (a div 10) @ [digit_char (a mod 10)] = itoa (b div 10) @ [digit_char (b mod 10)]"
      using less.prems by (simp add: itoa.simps [of a] itoa.simps [of b])
    then have "a div 10 = b div 10" "a mod 10 = b mod 10"
      using less.IH [of "a div 10" "b div 10"] digit_char_inj [of "a mod 10" "b mod 10"] 3 by auto
    then show ?thesis by (metis div_mult_mod_eq)
  qed
qed

section \<open>Lists\<close>

text \<open>The first occurrence of every element, in order: the reference for deduplicating loops.\<close>

definition first_occurrences :: "'a list \<Rightarrow> 'a list" where
  "first_occurrences xs = rev (remdups (rev xs))"

lemma set_first_occurrences [simp]: "set (first_occurrences xs) = set xs"
  by (simp add: first_occurrences_def)

lemma distinct_first_occurrences [simp]: "distinct (first_occurrences xs)"
  by (simp add: first_occurrences_def)

lemma first_occurrences_Nil [simp]: "first_occurrences [] = []"
  by (simp add: first_occurrences_def)

lemma filter_remdups_not: "remdups (xs @ [x]) = remdups (filter (\<lambda>y. y \<noteq> x) xs) @ [x]"
  by (induction xs) auto

lemma first_occurrences_Cons:
  "first_occurrences (x # xs) = x # first_occurrences (filter (\<lambda>y. y \<noteq> x) xs)"
  by (simp add: first_occurrences_def filter_remdups_not rev_filter)

lemma first_occurrences_filter:
  "first_occurrences (filter P xs) = filter P (first_occurrences xs)"
  by (simp add: first_occurrences_def rev_filter remdups_filter)

lemma takeWhile_append_stop:
  "(\<forall>x\<in>set xs. P x) \<Longrightarrow> \<not> P y \<Longrightarrow> takeWhile P (xs @ y # ys) = xs"
  by (induction xs) auto

lemma dropWhile_append_stop:
  "(\<forall>x\<in>set xs. P x) \<Longrightarrow> \<not> P y \<Longrightarrow> dropWhile P (xs @ y # ys) = y # ys"
  by (induction xs) auto

end
