(* ===== verification/Go_Errors.thy ===== *)
theory Go_Errors
  imports Hydra_Prelude
begin

text \<open>
  Go errors. Sentinel errors are the package variables made with \<^verbatim>\<open>errors.New\<close>;
  \<^verbatim>\<open>fmt.Errorf\<close> with a \<^verbatim>\<open>%w\<close> verb wraps one error and with none makes a new one.
  An error keeps an abridged text, the string operands and what it wraps: the classification
  \<^verbatim>\<open>errors.Is\<close> and \<^verbatim>\<open>errors.As\<close>, on which every branch of the sources depends,
  is exact, and the wording of a message is not.
\<close>

datatype sentinel =
    ErrNotFound | ErrInvalidID | ErrTerminal
  | ErrWaitingForOwner | ErrWaitingForCluster | ErrWaitingForClusterInfra
  | ErrWaitingForHydraCluster | ErrWaitingForBootstrap
  | ErrWaitingForHypervisor | ErrWaitingForHypervisorCredentials
  | ErrEndpointPending | ErrHypervisorPending | ErrHypervisorConflict
  | ErrPoolClosed | ErrNoOwner | ErrOwnerReleased
  | ErrProviderClosed | ErrDialAbandoned | ErrCloudInitInvalid
  | ContextCanceled | ContextDeadlineExceeded

text \<open>Error codes of the libvirt client and of the API server that the sources tell apart.\<close>

datatype lvcode =
    LvNoDomain | LvNoStorageVol | LvNoStoragePool | LvNoNetwork
  | LvStorageVolExist | LvNetworkExist | LvOperationInvalid | LvOther nat

datatype apicode = ApiNotFound | ApiConflict | ApiOther nat

datatype goerr =
    Sentinel sentinel
  | LvError lvcode
  | ApiError apicode
  | NewErr string "string list"
  | WrapErr string "string list" goerr

fun errorsIs :: "goerr \<Rightarrow> sentinel \<Rightarrow> bool" where
  "errorsIs (Sentinel s) t \<longleftrightarrow> s = t"
| "errorsIs (LvError c) t \<longleftrightarrow> False"
| "errorsIs (ApiError c) t \<longleftrightarrow> False"
| "errorsIs (NewErr m as) t \<longleftrightarrow> False"
| "errorsIs (WrapErr m as e) t \<longleftrightarrow> errorsIs e t"

text \<open>\<^verbatim>\<open>errors.As\<close> for the libvirt client's error type, and the code it carries.\<close>

fun lvCodeOf :: "goerr \<Rightarrow> lvcode option" where
  "lvCodeOf (LvError c) = Some c"
| "lvCodeOf (WrapErr m as e) = lvCodeOf e"
| "lvCodeOf e = None"

fun apiCodeOf :: "goerr \<Rightarrow> apicode option" where
  "apiCodeOf (ApiError c) = Some c"
| "apiCodeOf (WrapErr m as e) = apiCodeOf e"
| "apiCodeOf e = None"

text \<open>\<^verbatim>\<open>apierrors.IsNotFound\<close> and \<^verbatim>\<open>apierrors.IsConflict\<close> read the code.\<close>

definition apiIsNotFound :: "goerr \<Rightarrow> bool" where
  "apiIsNotFound e \<longleftrightarrow> apiCodeOf e = Some ApiNotFound"

definition apiIsConflict :: "goerr \<Rightarrow> bool" where
  "apiIsConflict e \<longleftrightarrow> apiCodeOf e = Some ApiConflict"

text \<open>\<^verbatim>\<open>client.IgnoreNotFound\<close>.\<close>

definition ignoreNotFound :: "goerr \<Rightarrow> goerr option" where
  "ignoreNotFound e = (if apiIsNotFound e then None else Some e)"

text \<open>The shape every sentinel-marked error of the sources has: \<^verbatim>\<open>fmt.Errorf("%w: ...", sentinel, ...)\<close>.\<close>

abbreviation marked :: "sentinel \<Rightarrow> string \<Rightarrow> string list \<Rightarrow> goerr" where
  "marked s text as \<equiv> WrapErr text as (Sentinel s)"

lemma apiIsNotFound_simps [simp]:
  "apiIsNotFound (ApiError c) \<longleftrightarrow> c = ApiNotFound"
  "apiIsNotFound (WrapErr m as e) \<longleftrightarrow> apiIsNotFound e"
  "\<not> apiIsNotFound (Sentinel s)"
  "\<not> apiIsNotFound (NewErr m as)"
  by (simp_all add: apiIsNotFound_def)

lemma apiIsConflict_simps [simp]:
  "apiIsConflict (ApiError c) \<longleftrightarrow> c = ApiConflict"
  "apiIsConflict (WrapErr m as e) \<longleftrightarrow> apiIsConflict e"
  "\<not> apiIsConflict (Sentinel s)"
  "\<not> apiIsConflict (NewErr m as)"
  by (simp_all add: apiIsConflict_def)

text \<open>An error chain ends in at most one sentinel, because each wrap keeps one operand.\<close>

lemma errorsIs_unique: "errorsIs e s \<Longrightarrow> errorsIs e t \<Longrightarrow> s = t"
  by (induction e) auto

end
