(* ===== verification/Provider_Api.thy ===== *)
theory Provider_Api
  imports Go_Errors "HOL-Library.Word"
begin

text \<open>
  The boundary between the controllers and the backends, \<^verbatim>\<open>internal/providers/provider.go\<close>,
  \<^verbatim>\<open>hypervisor.go\<close> and \<^verbatim>\<open>instrumented.go\<close>: the backend-neutral data, the
  \<^verbatim>\<open>MachineProvider\<close> interface as a record of operations on a backend state, the
  providerID printer and parser, and the classification of outcomes.
\<close>

section \<open>Data\<close>

datatype AddressType = Hostname | InternalIP | ExternalIP

record Address =
  addr_type :: AddressType
  addr_value :: string

record Image =
  img_name :: string
  img_url :: string
  img_checksum :: string

definition emptyImage :: Image where
  "emptyImage = \<lparr>img_name = [], img_url = [], img_checksum = []\<rparr>"

type_synonym Network = string

record ManagedNetwork =
  mn_name :: string
  mn_subnet :: string
  mn_dhcpStart :: string
  mn_dhcpEnd :: string

record InfrastructureSpec =
  is_storagePool :: string
  is_image :: Image
  is_managedNetwork :: "ManagedNetwork option"

text \<open>\<^verbatim>\<open>VCPUs\<close> is an \<^verbatim>\<open>int32\<close> and the sizes are \<^verbatim>\<open>int64\<close>.\<close>

record MachineSpec =
  ms_name :: string
  ms_vcpus :: "32 word"
  ms_memoryBytes :: "64 word"
  ms_diskBytes :: "64 word"
  ms_image :: Image
  ms_networks :: "Network list"
  ms_managedNetwork :: "ManagedNetwork option"
  ms_storagePool :: string
  ms_hostname :: string
  ms_bootstrapData :: "8 word list"

record MachineState =
  st_id :: string
  st_name :: string
  st_ready :: bool
  st_addresses :: "Address list"

record TLSCredentials =
  caCert :: "8 word list"
  clientCert :: "8 word list"
  clientKey :: "8 word list"

record Hypervisor =
  hv_address :: string
  hv_credentials :: TLSCredentials
  hv_credentialsVersion :: string

record Owner =
  own_kind :: string
  own_namespace :: string
  own_name :: string

definition nameOnlySpec :: "string \<Rightarrow> MachineSpec" where
  "nameOnlySpec n = \<lparr>ms_name = n, ms_vcpus = 0, ms_memoryBytes = 0, ms_diskBytes = 0,
     ms_image = emptyImage, ms_networks = [], ms_managedNetwork = None, ms_storagePool = [],
     ms_hostname = [], ms_bootstrapData = []\<rparr>"

lemma nameOnlySpec_name [simp]: "ms_name (nameOnlySpec n) = n"
  by (simp add: nameOnlySpec_def)

section \<open>The interface\<close>

text \<open>
  Each method takes the state of the backend and returns its result with the new state: the
  effect of a call that fails is kept. \<^verbatim>\<open>Delete\<close> and its kin return only an error.
\<close>

record 'b MachineProvider =
  prov_name :: string
  prov_storagePoolFor :: "string \<Rightarrow> string"
  prov_create :: "MachineSpec \<Rightarrow> 'b \<Rightarrow> (goerr + MachineState) \<times> 'b"
  prov_get :: "string \<Rightarrow> 'b \<Rightarrow> (goerr + MachineState) \<times> 'b"
  prov_findByName :: "string \<Rightarrow> 'b \<Rightarrow> (goerr + MachineState) \<times> 'b"
  prov_delete :: "string \<Rightarrow> 'b \<Rightarrow> goerr option \<times> 'b"
  prov_ensureInfrastructure :: "InfrastructureSpec \<Rightarrow> 'b \<Rightarrow> goerr option \<times> 'b"
  prov_deleteByName :: "string \<Rightarrow> string \<Rightarrow> 'b \<Rightarrow> goerr option \<times> 'b"

section \<open>providerID\<close>

definition providerIDPrefix :: string where
  "providerIDPrefix = ''hydra://''"

definition ProviderID :: "string \<Rightarrow> string \<Rightarrow> string" where
  "ProviderID backend ident = ''hydra://'' @ backend @ ''/'' @ ident"

text \<open>The scan for the separator: the byte index of the loop is the length of what was read.\<close>

fun parseRest :: "string \<Rightarrow> string \<Rightarrow> (string \<times> string) option" where
  "parseRest acc [] = None"
| "parseRest acc (c # cs) =
     (if c = CHR ''/'' then (if acc = [] \<or> cs = [] then None else Some (rev acc, cs))
      else parseRest (c # acc) cs)"

definition ParseProviderID :: "string \<Rightarrow> goerr + (string \<times> string)" where
  "ParseProviderID p =
     (if length p \<le> length providerIDPrefix \<or> take (length providerIDPrefix) p \<noteq> providerIDPrefix
      then Inl (NewErr ''is not a Hydra provider ID'' [p])
      else case parseRest [] (drop (length providerIDPrefix) p) of
             Some (backend, ident) \<Rightarrow> Inr (backend, ident)
           | None \<Rightarrow> Inl (NewErr ''is malformed, want hydra://<backend>/<id>'' [p]))"

section \<open>Outcomes\<close>

datatype outcome = OutcomeSuccess | OutcomeTerminal | OutcomeNotFound | OutcomeError

definition ClassifyOutcome :: "goerr option \<Rightarrow> outcome" where
  "ClassifyOutcome err = (case err of
     None \<Rightarrow> OutcomeSuccess
   | Some e \<Rightarrow> if errorsIs e ErrTerminal then OutcomeTerminal
       else if errorsIs e ErrNotFound then OutcomeNotFound
       else OutcomeError)"

section \<open>Properties\<close>

lemma parseRest_iff:
  "parseRest acc s = Some (b, i) \<longleftrightarrow>
   (\<exists>b'. b = rev acc @ b' \<and> s = b' @ CHR ''/'' # i \<and> CHR ''/'' \<notin> set b' \<and> b \<noteq> [] \<and> i \<noteq> [])"
proof (induction s arbitrary: acc)
  case Nil
  then show ?case by simp
next
  case (Cons c cs)
  show ?case
  proof (cases "c = CHR ''/''")
    case True
    then show ?thesis
      by (auto simp: Cons_eq_append_conv)
  next
    case False
    have "parseRest acc (c # cs) = Some (b, i) \<longleftrightarrow>
      (\<exists>b'. b = rev acc @ c # b' \<and> cs = b' @ CHR ''/'' # i \<and> CHR ''/'' \<notin> set b' \<and> b \<noteq> [] \<and> i \<noteq> [])"
      using False Cons.IH [of "c # acc"] by simp
    also have "\<dots> \<longleftrightarrow>
      (\<exists>b'. b = rev acc @ b' \<and> c # cs = b' @ CHR ''/'' # i \<and> CHR ''/'' \<notin> set b' \<and> b \<noteq> [] \<and> i \<noteq> [])"
      using False by (auto simp: Cons_eq_append_conv)
    finally show ?thesis .
  qed
qed

text \<open>
  C12: the parser accepts exactly the strings the printer makes from a non-empty backend name
  without a slash and a non-empty id, and returns those two parts.
\<close>

theorem ParseProviderID_exact:
  "ParseProviderID p = Inr (b, i) \<longleftrightarrow>
   p = ProviderID b i \<and> b \<noteq> [] \<and> CHR ''/'' \<notin> set b \<and> i \<noteq> []"
proof -
  let ?n = "length providerIDPrefix"
  have *: "take ?n p = providerIDPrefix \<longleftrightarrow> (\<exists>r. p = providerIDPrefix @ r)"
    by (metis append_eq_conv_conj append_take_drop_id)
  have "parseRest [] [] = None" by simp
  then have "ParseProviderID p = Inr (b, i) \<longleftrightarrow>
    (\<exists>r. p = providerIDPrefix @ r \<and> parseRest [] r = Some (b, i))"
    unfolding ParseProviderID_def * by (cases "length p \<le> ?n") (auto split: option.splits)
  then show ?thesis
    by (auto simp: parseRest_iff ProviderID_def providerIDPrefix_def)
qed

end
