(* ===== verification/Api_Types.thy ===== *)
theory Api_Types
  imports Provider_Api
begin

text \<open>
  The API objects of \<^verbatim>\<open>api/v1alpha1\<close> and what the controllers read of the Cluster API and
  core objects around them, and the code outside the repository the controllers call: the record
  \<open>lib\<close> holds the pure functions of \<^verbatim>\<open>apimachinery\<close>, \<^verbatim>\<open>controller-runtime\<close>,
  \<^verbatim>\<open>cluster-api\<close> and the X.509 checks, and the record \<open>kube\<close> the API client. Both are
  parameters of every definition that uses them. The locale \<open>apimachinery\<close> states what the
  controllers rely on; \<open>kube\<close> is never assumed to behave.

  Times are not modelled: a deletion timestamp is whether it is set, a condition has no
  transition time. A quantity is its text, \<^verbatim>\<open>4Gi\<close>.
\<close>

section \<open>Metadata and conditions\<close>

type_synonym NamespacedName = "string \<times> string"
type_synonym quantity = string
type_synonym bytes = "8 word list"

record OwnerReference =
  ref_apiVersion :: string
  ref_kind :: string
  ref_name :: string
  ref_uid :: string

record ObjectMeta =
  om_name :: string
  om_namespace :: string
  om_uid :: string
  om_generation :: int
  om_annotations :: "string \<rightharpoonup> string"
  om_labels :: "string \<rightharpoonup> string"
  om_ownerRefs :: "OwnerReference list"
  om_finalizers :: "string list"
  om_deleting :: bool

datatype condStatus = ConditionTrue | ConditionFalse | ConditionUnknown

text \<open>A condition message is a literal text, or the text of an error.\<close>

datatype msg = Text string | ErrText goerr | TextAnd string msg

record Condition =
  c_type :: string
  c_status :: condStatus
  c_reason :: string
  c_message :: msg
  c_observedGeneration :: int

text \<open>A map lookup in Go gives the empty string for an absent key.\<close>

definition lookupStr :: "(string \<rightharpoonup> string) \<Rightarrow> string \<Rightarrow> string" where
  "lookupStr m k = (case m k of None \<Rightarrow> [] | Some v \<Rightarrow> v)"

lemma lookupStr_upd [simp]: "lookupStr (m(k \<mapsto> v)) j = (if j = k then v else lookupStr m j)"
  by (simp add: lookupStr_def)

section \<open>The objects\<close>

record APIEndpoint =
  ep_host :: string
  ep_port :: "32 word"

record HydraMachine =
  hm_meta :: ObjectMeta
  hm_providerID :: "string option"
  hm_vcpus :: "32 word"
  hm_memory :: quantity
  hm_diskSize :: quantity
  hm_image :: "Image option"
  hm_networks :: "string list"
  hm_provisioned :: "bool option"
  hm_addresses :: "Address list"
  hm_conditions :: "Condition list"

record HydraManagedNetwork =
  hmn_name :: string
  hmn_subnet :: string
  hmn_dhcpStart :: string
  hmn_dhcpEnd :: string

record HydraHypervisor =
  hh_address :: string
  hh_credentialsSecret :: string

record HydraCluster =
  hc_meta :: ObjectMeta
  hc_endpoint :: APIEndpoint
  hc_storagePool :: string
  hc_baseImage :: "Image option"
  hc_networks :: "string list"
  hc_managedNetwork :: "HydraManagedNetwork option"
  hc_hypervisor :: "HydraHypervisor option"
  hc_provisioned :: "bool option"
  hc_conditions :: "Condition list"
  hc_statusHypervisor :: "string option"

record InfraRef =
  ir_kind :: string
  ir_apiGroup :: string
  ir_name :: string

text \<open>The Cluster API objects, with the fields the controllers read.\<close>

record Machine =
  mc_meta :: ObjectMeta
  mc_dataSecretName :: "string option"
  mc_infraRef :: InfraRef

record Cluster =
  cl_meta :: ObjectMeta
  cl_paused :: "bool option"
  cl_infraRef :: InfraRef
  cl_endpoint :: APIEndpoint
  cl_infrastructureProvisioned :: "bool option"

record Secret =
  sec_uid :: string
  sec_resourceVersion :: string
  sec_data :: "string \<rightharpoonup> bytes"

record NodeInfo =
  ni_architecture :: string
  ni_operatingSystem :: string

record HydraMachineTemplate =
  tm_meta :: ObjectMeta
  tm_vcpus :: "32 word"
  tm_memory :: quantity
  tm_diskSize :: quantity
  tm_capacity :: "(string \<times> quantity) list"
  tm_nodeInfo :: NodeInfo
  tm_conditions :: "Condition list"

section \<open>Names the sources fix\<close>

definition StandaloneAnnotation :: string where
  "StandaloneAnnotation = ''hydramachine.infrastructure.cluster.x-k8s.io/standalone''"

definition StoragePoolAnnotation :: string where
  "StoragePoolAnnotation = ''hydramachine.infrastructure.cluster.x-k8s.io/storage-pool''"

definition HypervisorAnnotation :: string where
  "HypervisorAnnotation = ''hydramachine.infrastructure.cluster.x-k8s.io/hypervisor''"

text \<open>Cluster API's own names: its paused annotation, cluster-name label and API group.\<close>

definition PausedAnnotation :: string where
  "PausedAnnotation = ''cluster.x-k8s.io/paused''"

definition ClusterNameLabel :: string where
  "ClusterNameLabel = ''cluster.x-k8s.io/cluster-name''"

definition capiGroup :: string where
  "capiGroup = ''cluster.x-k8s.io''"

definition hydraGroup :: string where
  "hydraGroup = ''infrastructure.cluster.x-k8s.io''"

definition ReadyCondition :: string where "ReadyCondition = ''Ready''"
definition PausedCondition :: string where "PausedCondition = ''Paused''"
definition ProvisioningFailedCondition :: string where
  "ProvisioningFailedCondition = ''ProvisioningFailed''"
definition InfrastructureFailedCondition :: string where
  "InfrastructureFailedCondition = ''InfrastructureFailed''"

lemma annotations_distinct [simp]:
  "StoragePoolAnnotation \<noteq> HypervisorAnnotation" "HypervisorAnnotation \<noteq> StoragePoolAnnotation"
  by (simp_all add: StoragePoolAnnotation_def HypervisorAnnotation_def)

lemma conditions_distinct [simp]:
  "ReadyCondition \<noteq> PausedCondition" "PausedCondition \<noteq> ReadyCondition"
  "ReadyCondition \<noteq> ProvisioningFailedCondition" "ProvisioningFailedCondition \<noteq> ReadyCondition"
  "ReadyCondition \<noteq> InfrastructureFailedCondition" "InfrastructureFailedCondition \<noteq> ReadyCondition"
  by (simp_all add: ReadyCondition_def PausedCondition_def ProvisioningFailedCondition_def
        InfrastructureFailedCondition_def)

section \<open>Code outside the repository\<close>

record lib =
  findStatusCondition :: "Condition list \<Rightarrow> string \<Rightarrow> Condition option"
  setStatusCondition :: "Condition list \<Rightarrow> Condition \<Rightarrow> Condition list"
  removeStatusCondition :: "Condition list \<Rightarrow> string \<Rightarrow> Condition list"
  containsFinalizer :: "string list \<Rightarrow> string \<Rightarrow> bool"
  addFinalizer :: "string list \<Rightarrow> string \<Rightarrow> string list"
  removeFinalizer :: "string list \<Rightarrow> string \<Rightarrow> string list"
  quantityValue :: "quantity \<Rightarrow> 64 word"
  quantityCmp :: "quantity \<Rightarrow> quantity \<Rightarrow> int"
  newQuantity :: "64 word \<Rightarrow> quantity"
  endpointIsValid :: "APIEndpoint \<Rightarrow> bool"
  x509KeyPairOK :: "bytes \<Rightarrow> bytes \<Rightarrow> bool"
  appendCertsFromPEM :: "bytes \<Rightarrow> bool"

text \<open>
  The API client. A read may fail; a patch sends the difference between a base and an object, with
  an optimistic lock or not, and returns the object as the server has it afterwards. A write that
  fails may still have happened, so the state is returned either way.
\<close>

record 'k kube =
  getHydraMachine :: "NamespacedName \<Rightarrow> 'k \<Rightarrow> goerr + HydraMachine"
  getMachine :: "NamespacedName \<Rightarrow> 'k \<Rightarrow> goerr + Machine"
  getCluster :: "NamespacedName \<Rightarrow> 'k \<Rightarrow> goerr + Cluster"
  getHydraCluster :: "NamespacedName \<Rightarrow> 'k \<Rightarrow> goerr + HydraCluster"
  getTemplate :: "NamespacedName \<Rightarrow> 'k \<Rightarrow> goerr + HydraMachineTemplate"
  getSecret :: "NamespacedName \<Rightarrow> 'k \<Rightarrow> goerr + Secret"
  listHydraMachines :: "string \<Rightarrow> string \<Rightarrow> string \<Rightarrow> 'k \<Rightarrow> goerr + HydraMachine list"
  listTemplates :: "string \<Rightarrow> 'k \<Rightarrow> goerr + HydraMachineTemplate list"
  patchHydraMachine :: "bool \<Rightarrow> HydraMachine \<Rightarrow> HydraMachine \<Rightarrow> 'k \<Rightarrow> (goerr + HydraMachine) \<times> 'k"
  patchHydraMachineStatus :: "HydraMachine \<Rightarrow> HydraMachine \<Rightarrow> 'k \<Rightarrow> (goerr + HydraMachine) \<times> 'k"
  patchHydraCluster :: "bool \<Rightarrow> HydraCluster \<Rightarrow> HydraCluster \<Rightarrow> 'k \<Rightarrow> (goerr + HydraCluster) \<times> 'k"
  patchHydraClusterStatus :: "bool \<Rightarrow> HydraCluster \<Rightarrow> HydraCluster \<Rightarrow> 'k \<Rightarrow> (goerr + HydraCluster) \<times> 'k"
  patchTemplateStatus :: "HydraMachineTemplate \<Rightarrow> HydraMachineTemplate \<Rightarrow> 'k \<Rightarrow> (goerr + HydraMachineTemplate) \<times> 'k"

text \<open>What the controllers rely on of the pure functions: documented behaviour of each.\<close>

locale apimachinery =
  fixes L :: lib
  assumes find_set_same: "findStatusCondition L (setStatusCondition L cs c) (c_type c) = Some c"
    and find_set_other: "t \<noteq> c_type c \<Longrightarrow>
      findStatusCondition L (setStatusCondition L cs c) t = findStatusCondition L cs t"
    and find_remove_same: "findStatusCondition L (removeStatusCondition L cs t) t = None"
    and find_remove_other: "t \<noteq> u \<Longrightarrow>
      findStatusCondition L (removeStatusCondition L cs u) t = findStatusCondition L cs t"
    and contains_add: "containsFinalizer L (addFinalizer L fs f) f"
    and contains_remove: "\<not> containsFinalizer L (removeFinalizer L fs f) f"
    and quantityCmp_refl: "quantityCmp L q q = 0"
    and endpoint_valid: "endpointIsValid L e \<longleftrightarrow> ep_host e \<noteq> [] \<and> ep_port e \<noteq> 0"
begin

lemma find_set: "findStatusCondition L (setStatusCondition L cs c) t =
    (if t = c_type c then Some c else findStatusCondition L cs t)"
  using find_set_same find_set_other by (cases "t = c_type c") auto

lemma find_remove: "findStatusCondition L (removeStatusCondition L cs u) t =
    (if t = u then None else findStatusCondition L cs t)"
  using find_remove_same find_remove_other by (cases "t = u") auto

end

text \<open>
  An instance, for the witnesses: conditions are a list keyed by type, a set replaces in place or
  appends; finalizers are a list without duplicates.
\<close>

fun refFind :: "Condition list \<Rightarrow> string \<Rightarrow> Condition option" where
  "refFind [] t = None"
| "refFind (c # cs) t = (if c_type c = t then Some c else refFind cs t)"

fun refSet :: "Condition list \<Rightarrow> Condition \<Rightarrow> Condition list" where
  "refSet [] c = [c]"
| "refSet (d # cs) c = (if c_type d = c_type c then c # cs else d # refSet cs c)"

definition refRemove :: "Condition list \<Rightarrow> string \<Rightarrow> Condition list" where
  "refRemove cs t = filter (\<lambda>c. c_type c \<noteq> t) cs"

definition refLib :: lib where
  "refLib = \<lparr>findStatusCondition = refFind, setStatusCondition = refSet,
     removeStatusCondition = refRemove,
     containsFinalizer = (\<lambda>fs f. f \<in> set fs),
     addFinalizer = (\<lambda>fs f. if f \<in> set fs then fs else fs @ [f]),
     removeFinalizer = (\<lambda>fs f. filter (\<lambda>g. g \<noteq> f) fs),
     quantityValue = (\<lambda>q. of_nat (length q)),
     quantityCmp = (\<lambda>p q. if p = q then 0 else 1),
     newQuantity = (\<lambda>n. itoa (unat n)),
     endpointIsValid = (\<lambda>e. ep_host e \<noteq> [] \<and> ep_port e \<noteq> 0),
     x509KeyPairOK = (\<lambda>c k. c = k),
     appendCertsFromPEM = (\<lambda>c. c \<noteq> [])\<rparr>"

lemma refFind_set_same: "refFind (refSet cs c) (c_type c) = Some c"
  by (induction cs) auto

lemma refFind_set_other: "t \<noteq> c_type c \<Longrightarrow> refFind (refSet cs c) t = refFind cs t"
  by (induction cs) auto

lemma refFind_remove: "refFind (refRemove cs u) t = (if t = u then None else refFind cs t)"
  by (induction cs) (auto simp: refRemove_def)

interpretation refl: apimachinery refLib
  by unfold_locales
    (auto simp: refLib_def refFind_set_same refFind_set_other refFind_remove)

section \<open>What every controller keeps\<close>

datatype metric = MachineWait string | MachineFailure string outcome

text \<open>The state a reconcile runs in: the API server, the backends, and the counters bumped so far.\<close>

record ('k, 'b) env =
  env_kube :: 'k
  env_backend :: 'b
  env_metrics :: "metric list"

text \<open>\<^verbatim>\<open>ctrl.Result\<close>: the seconds of \<^verbatim>\<open>RequeueAfter\<close>, zero for none.\<close>

type_synonym Result = nat

definition objectKey :: "ObjectMeta \<Rightarrow> NamespacedName" where
  "objectKey m = (om_namespace m, om_name m)"

end
