(* ===== verification/Cluster_Api.thy ===== *)
theory Cluster_Api
  imports Api_Types
begin

text \<open>
  \<^verbatim>\<open>internal/controller/clusterapi.go\<close>: how a HydraMachine is linked to the Cluster API
  objects around it, when it is paused, what must hold before a machine is created, and where its
  bootstrap data comes from.
\<close>

section \<open>Linkage\<close>

definition machineKind :: string where "machineKind = ''Machine''"
definition hydraMachineKind :: string where "hydraMachineKind = ''HydraMachine''"
definition hydraClusterKind :: string where "hydraClusterKind = ''HydraCluster''"
definition clusterKind :: string where "clusterKind = ''Cluster''"
definition bootstrapDataSecretKey :: string where "bootstrapDataSecretKey = ''value''"

record linkage =
  standalone :: bool
  ownerName :: string
  clusterName :: string
  lk_machine :: "Machine option"
  lk_cluster :: "Cluster option"
  hydraClusterName :: string
  lk_hydraCluster :: "HydraCluster option"

definition emptyLinkage :: linkage where
  "emptyLinkage = \<lparr>standalone = False, ownerName = [], clusterName = [], lk_machine = None,
     lk_cluster = None, hydraClusterName = [], lk_hydraCluster = None\<rparr>"

fun ownerRefOfKind :: "OwnerReference list \<Rightarrow> string \<Rightarrow> OwnerReference option" where
  "ownerRefOfKind [] kind = None"
| "ownerRefOfKind (ref # refs) kind =
     (if ref_kind ref \<noteq> kind then ownerRefOfKind refs kind
      else case cutAt CHR ''/'' (ref_apiVersion ref) of (grp, _, found) \<Rightarrow>
        if found \<and> grp = capiGroup then Some ref else ownerRefOfKind refs kind)"

definition ownerMachineRef :: "HydraMachine \<Rightarrow> OwnerReference option" where
  "ownerMachineRef m = ownerRefOfKind (om_ownerRefs (hm_meta m)) machineKind"

definition hasStandaloneAnnotation :: "HydraMachine \<Rightarrow> bool" where
  "hasStandaloneAnnotation m \<longleftrightarrow> om_annotations (hm_meta m) StandaloneAnnotation \<noteq> None"

definition isHydraClusterRef :: "InfraRef \<Rightarrow> bool" where
  "isHydraClusterRef r \<longleftrightarrow>
     \<not> (ir_kind r \<noteq> hydraClusterKind \<or> ir_apiGroup r \<noteq> hydraGroup \<or> ir_name r = [])"

text \<open>The last part of the walk, from the Cluster's name on.\<close>

definition resolveCluster ::
  "'k kube \<Rightarrow> string \<Rightarrow> linkage \<Rightarrow> 'k \<Rightarrow> goerr + linkage" where
  "resolveCluster c ns link k =
     (case getCluster c (ns, clusterName link) k of
        Inl e \<Rightarrow> if apiIsNotFound e then Inr link
                 else Inl (WrapErr ''reading Cluster'' [clusterName link] e)
      | Inr cluster \<Rightarrow>
          let link = link\<lparr>lk_cluster := Some cluster\<rparr>; infraRef = cl_infraRef cluster in
          if \<not> isHydraClusterRef infraRef then Inr link
          else let link = link\<lparr>hydraClusterName := ir_name infraRef\<rparr> in
            (case getHydraCluster c (ns, ir_name infraRef) k of
               Inl e \<Rightarrow> if apiIsNotFound e then Inr link
                        else Inl (WrapErr ''reading HydraCluster'' [ir_name infraRef] e)
             | Inr hc \<Rightarrow> Inr (link\<lparr>lk_hydraCluster := Some hc\<rparr>)))"

definition resolveLinkage :: "'k kube \<Rightarrow> HydraMachine \<Rightarrow> 'k \<Rightarrow> goerr + linkage" where
  "resolveLinkage c m k =
     (case ownerMachineRef m of
        None \<Rightarrow> Inr (emptyLinkage\<lparr>standalone := hasStandaloneAnnotation m\<rparr>)
      | Some ref \<Rightarrow>
          (case getMachine c (om_namespace (hm_meta m), ref_name ref) k of
             Inl e \<Rightarrow> if apiIsNotFound e then Inr (emptyLinkage\<lparr>ownerName := ref_name ref\<rparr>)
                      else Inl (WrapErr ''reading owner Machine'' [ref_name ref] e)
           | Inr owner \<Rightarrow>
               if ref_uid ref \<noteq> [] \<and> om_uid (mc_meta owner) \<noteq> ref_uid ref
               then Inr (emptyLinkage\<lparr>ownerName := ref_name ref\<rparr>)
               else
                 let link = emptyLinkage\<lparr>ownerName := ref_name ref, lk_machine := Some owner\<rparr>;
                     n1 = lookupStr (om_labels (mc_meta owner)) ClusterNameLabel;
                     n = (if n1 = [] then lookupStr (om_labels (hm_meta m)) ClusterNameLabel else n1)
                 in if n = [] then Inr link
                    else resolveCluster c (om_namespace (hm_meta m)) (link\<lparr>clusterName := n\<rparr>) k))"

text \<open>\<^verbatim>\<open>ownerClusterOf\<close>, shared by the cluster and template reconcilers.\<close>

definition ownerClusterOf :: "'k kube \<Rightarrow> ObjectMeta \<Rightarrow> 'k \<Rightarrow> goerr + Cluster option" where
  "ownerClusterOf c meta k =
     (case ownerRefOfKind (om_ownerRefs meta) clusterKind of
        None \<Rightarrow> Inr None
      | Some ref \<Rightarrow>
          (case getCluster c (om_namespace meta, ref_name ref) k of
             Inl e \<Rightarrow> if apiIsNotFound e then Inr None
                      else Inl (WrapErr ''reading owner Cluster'' [ref_name ref] e)
           | Inr cluster \<Rightarrow>
               if ref_uid ref \<noteq> [] \<and> om_uid (cl_meta cluster) \<noteq> ref_uid ref then Inr None
               else Inr (Some cluster)))"

section \<open>Pausing\<close>

definition pausedReason :: "(string \<rightharpoonup> string) \<Rightarrow> Cluster option \<Rightarrow> string" where
  "pausedReason annotations cluster =
     (if annotations PausedAnnotation \<noteq> None then ''the '' @ PausedAnnotation @ '' annotation''
      else case cluster of
        None \<Rightarrow> []
      | Some cl \<Rightarrow>
          if cl_paused cl = Some True
          then ''spec.paused on Cluster '' @ quoted (om_name (cl_meta cl))
          else if om_annotations (cl_meta cl) PausedAnnotation \<noteq> None
          then ''the '' @ PausedAnnotation @ '' annotation on Cluster '' @ quoted (om_name (cl_meta cl))
          else [])"

text \<open>
  \<^verbatim>\<open>setPausedCondition\<close> for any object: its conditions and generation, and the status patch of
  its kind, which gets the new conditions. It returns the error, whether a write was sent, and the
  conditions the object has afterwards.
\<close>

definition pausedCondition :: "string \<Rightarrow> string \<Rightarrow> int \<Rightarrow> Condition" where
  "pausedCondition condType reason gen =
     (if reason = []
      then \<lparr>c_type = condType, c_status = ConditionFalse, c_reason = ''NotPaused'',
            c_message = Text ''reconciliation is active'', c_observedGeneration = gen\<rparr>
      else \<lparr>c_type = condType, c_status = ConditionTrue, c_reason = ''Paused'',
            c_message = Text (''reconciliation is suspended by '' @ reason), c_observedGeneration = gen\<rparr>)"

definition setPausedCondition ::
  "lib \<Rightarrow> (Condition list \<Rightarrow> 's \<Rightarrow> goerr option \<times> 'o \<times> 's) \<Rightarrow> 'o \<Rightarrow> Condition list \<Rightarrow> int
    \<Rightarrow> string \<Rightarrow> string \<Rightarrow> 's \<Rightarrow> goerr option \<times> 'o \<times> 's" where
  "setPausedCondition L statusPatch obj conds gen condType reason s =
     (let existing = findStatusCondition L conds condType; cond = pausedCondition condType reason gen
      in if reason = [] \<and> existing = None then (None, obj, s)
         else if (case existing of None \<Rightarrow> False
                  | Some e \<Rightarrow> c_status e = c_status cond \<and> c_message e = c_message cond)
         then (None, obj, s)
         else (case statusPatch (setStatusCondition L conds cond) s of
                 (Some e, obj', s') \<Rightarrow> (Some (WrapErr ''recording paused state'' [] e), obj', s')
               | (None, obj', s') \<Rightarrow> (None, obj', s')))"

section \<open>The create gate\<close>

definition clusterReadyForCreate :: "lib \<Rightarrow> linkage \<Rightarrow> goerr option" where
  "clusterReadyForCreate L link =
     (if lk_machine link = None \<and> \<not> standalone link then
        if ownerName link \<noteq> []
        then Some (marked ErrWaitingForOwner ''owner Machine is not visible yet'' [ownerName link])
        else Some (marked ErrWaitingForOwner ''no owner Machine yet, and not marked standalone'' [])
      else if clusterName link = [] then None
      else (case lk_cluster link of
          None \<Rightarrow> Some (marked ErrWaitingForCluster ''Cluster is not visible yet'' [clusterName link])
        | Some cluster \<Rightarrow>
            if hydraClusterName link \<noteq> [] \<and> lk_hydraCluster link = None
            then Some (marked ErrWaitingForHydraCluster ''HydraCluster is not visible yet'' [hydraClusterName link])
            else
              let infra = (case lk_hydraCluster link of
                    None \<Rightarrow> None
                  | Some hc \<Rightarrow> (case findStatusCondition L (hc_conditions hc) ReadyCondition of
                        None \<Rightarrow> Some (marked ErrWaitingForClusterInfra ''HydraCluster has not been reconciled yet'' [hydraClusterName link])
                      | Some ready \<Rightarrow>
                          if c_observedGeneration ready \<noteq> om_generation (hc_meta hc)
                          then Some (marked ErrWaitingForClusterInfra ''HydraCluster readiness is stale'' [hydraClusterName link])
                          else if c_status ready \<noteq> ConditionTrue
                          then Some (marked ErrWaitingForClusterInfra ''HydraCluster is not ready'' [hydraClusterName link])
                          else None))
              in (case infra of
                    Some e \<Rightarrow> Some e
                  | None \<Rightarrow>
                      if cl_infrastructureProvisioned cluster \<noteq> Some True
                      then Some (marked ErrWaitingForClusterInfra ''Cluster has not reported its infrastructure provisioned'' [clusterName link])
                      else None)))"

section \<open>Bootstrap data\<close>

text \<open>
  The Secret is read through the uncached \<^verbatim>\<open>APIReader\<close>. It is not checked for nil here:
  a reconciler without one panics, which controller-runtime turns into an error.
\<close>

definition readSecret :: "'k kube option \<Rightarrow> NamespacedName \<Rightarrow> 'k \<Rightarrow> goerr + Secret" where
  "readSecret reader key k = (case reader of
     None \<Rightarrow> Inl (NewErr ''nil APIReader dereferenced'' []) | Some c \<Rightarrow> getSecret c key k)"

definition bootstrapDataFor :: "'k kube option \<Rightarrow> linkage \<Rightarrow> 'k \<Rightarrow> goerr + bytes" where
  "bootstrapDataFor reader link k =
     (case lk_machine link of
        None \<Rightarrow> if ownerName link \<noteq> []
          then Inl (marked ErrWaitingForOwner ''owner Machine is not visible yet'' [ownerName link])
          else Inr []
      | Some owner \<Rightarrow>
          (case mc_dataSecretName owner of
             None \<Rightarrow> Inl (marked ErrWaitingForBootstrap ''Machine has no bootstrap data secret yet'' [om_name (mc_meta owner)])
           | Some name \<Rightarrow>
               if name = []
               then Inl (marked ErrWaitingForBootstrap ''Machine has no bootstrap data secret yet'' [om_name (mc_meta owner)])
               else (case readSecret reader (om_namespace (mc_meta owner), name) k of
                   Inl e \<Rightarrow> if apiIsNotFound e
                     then Inl (marked ErrWaitingForBootstrap ''bootstrap data secret does not exist yet'' [name])
                     else Inl (WrapErr ''reading bootstrap data secret'' [name] e)
                 | Inr secret \<Rightarrow>
                     (case sec_data secret bootstrapDataSecretKey of
                        None \<Rightarrow> Inl (marked ErrTerminal ''bootstrap data secret has no value key'' [name])
                      | Some v \<Rightarrow> if v = []
                          then Inl (marked ErrTerminal ''bootstrap data secret has an empty value key'' [name])
                          else Inr v))))"

section \<open>Watches\<close>

definition machineToHydraMachine :: "Machine \<Rightarrow> NamespacedName list" where
  "machineToHydraMachine m = (let ref = mc_infraRef m in
     if ir_kind ref \<noteq> hydraMachineKind \<or> ir_apiGroup ref \<noteq> hydraGroup \<or> ir_name ref = [] then []
     else [(om_namespace (mc_meta m), ir_name ref)])"

definition clusterToHydraMachines :: "'k kube \<Rightarrow> Cluster \<Rightarrow> 'k \<Rightarrow> NamespacedName list" where
  "clusterToHydraMachines c cl k =
     (case listHydraMachines c (om_namespace (cl_meta cl)) ClusterNameLabel (om_name (cl_meta cl)) k of
        Inl e \<Rightarrow> []
      | Inr ms \<Rightarrow> map (\<lambda>m. objectKey (hm_meta m)) ms)"

section \<open>Properties\<close>

text \<open>
  What a linkage says of itself: an object pointer is never set without the name it stands for,
  names are only known through the object before them, and a standalone linkage has nothing else.
\<close>

definition linkage_wf :: "linkage \<Rightarrow> bool" where
  "linkage_wf link \<longleftrightarrow>
     (standalone link \<longrightarrow> ownerName link = [] \<and> lk_machine link = None)
   \<and> (clusterName link \<noteq> [] \<longrightarrow> lk_machine link \<noteq> None)
   \<and> (lk_cluster link \<noteq> None \<longrightarrow> clusterName link \<noteq> [])
   \<and> (hydraClusterName link \<noteq> [] \<longrightarrow>
        (\<exists>cl. lk_cluster link = Some cl \<and> isHydraClusterRef (cl_infraRef cl)
              \<and> hydraClusterName link = ir_name (cl_infraRef cl)))
   \<and> (\<forall>cl. lk_cluster link = Some cl \<and> isHydraClusterRef (cl_infraRef cl)
          \<longrightarrow> hydraClusterName link \<noteq> [])
   \<and> (lk_hydraCluster link \<noteq> None \<longrightarrow> hydraClusterName link \<noteq> [])"

lemma resolveCluster_wf:
  assumes "resolveCluster c ns link k = Inr link'" "lk_machine link \<noteq> None" "clusterName link \<noteq> []"
    "\<not> standalone link" "lk_cluster link = None" "hydraClusterName link = []" "lk_hydraCluster link = None"
  shows "linkage_wf link'"
  using assms
  by (auto simp: resolveCluster_def linkage_wf_def isHydraClusterRef_def Let_def
      split: sum.splits if_splits)

text \<open>The ways the walk can end: without an owner, without its Machine, without a cluster, or in a Cluster.\<close>

lemma resolveLinkage_cases:
  assumes "resolveLinkage c m k = Inr link"
  obtains (unowned) "ownerMachineRef m = None" "link = emptyLinkage\<lparr>standalone := hasStandaloneAnnotation m\<rparr>"
  | (invisible) ref where "ownerMachineRef m = Some ref" "link = emptyLinkage\<lparr>ownerName := ref_name ref\<rparr>"
  | (unclustered) ref owner where "ownerMachineRef m = Some ref"
      "link = emptyLinkage\<lparr>ownerName := ref_name ref, lk_machine := Some owner\<rparr>"
  | (clustered) ref owner n where "ownerMachineRef m = Some ref" "n \<noteq> []"
      "resolveCluster c (om_namespace (hm_meta m))
         (emptyLinkage\<lparr>ownerName := ref_name ref, lk_machine := Some owner, clusterName := n\<rparr>) k = Inr link"
proof (cases "ownerMachineRef m")
  case None
  with assms have "link = emptyLinkage\<lparr>standalone := hasStandaloneAnnotation m\<rparr>"
    by (simp add: resolveLinkage_def)
  with None show thesis by (rule unowned)
next
  case (Some ref)
  show thesis
  proof (cases "getMachine c (om_namespace (hm_meta m), ref_name ref) k")
    case (Inl e)
    with assms Some have "link = emptyLinkage\<lparr>ownerName := ref_name ref\<rparr>"
      by (simp add: resolveLinkage_def split: if_splits)
    with Some show thesis by (rule invisible)
  next
    case (Inr owner)
    let ?n1 = "lookupStr (om_labels (mc_meta owner)) ClusterNameLabel"
    let ?n = "if ?n1 = [] then lookupStr (om_labels (hm_meta m)) ClusterNameLabel else ?n1"
    let ?link = "emptyLinkage\<lparr>ownerName := ref_name ref, lk_machine := Some owner\<rparr>"
    have start: "(if ref_uid ref \<noteq> [] \<and> om_uid (mc_meta owner) \<noteq> ref_uid ref
        then Inr (emptyLinkage\<lparr>ownerName := ref_name ref\<rparr>)
        else if ?n = [] then Inr ?link
        else resolveCluster c (om_namespace (hm_meta m)) (?link\<lparr>clusterName := ?n\<rparr>) k) = Inr link"
      using assms by (simp only: resolveLinkage_def Some Inr option.case sum.case Let_def)
    show thesis
    proof (cases "ref_uid ref \<noteq> [] \<and> om_uid (mc_meta owner) \<noteq> ref_uid ref")
      case True
      with start have "link = emptyLinkage\<lparr>ownerName := ref_name ref\<rparr>" by simp
      with Some show thesis by (rule invisible)
    next
      case other: False
      show thesis
      proof (cases "?n = []")
        case True
        with start other have "link = ?link" by (simp only: if_False if_True simp_thms sum.inject)
        with Some show thesis by (rule unclustered)
      next
        case False
        with start other have "resolveCluster c (om_namespace (hm_meta m)) (?link\<lparr>clusterName := ?n\<rparr>) k = Inr link"
          by (simp only: if_False)
        with Some False show thesis by (rule clustered)
      qed
    qed
  qed
qed

lemma resolveLinkage_wf:
  assumes "resolveLinkage c m k = Inr link"
  shows "linkage_wf link"
  using assms
proof (cases rule: resolveLinkage_cases)
  case clustered
  show ?thesis
    by (rule resolveCluster_wf [OF clustered(3)]) (simp_all add: clustered emptyLinkage_def)
qed (simp_all add: linkage_wf_def emptyLinkage_def)

lemma resolveCluster_frame:
  assumes "resolveCluster c ns link k = Inr link'"
  shows "standalone link' = standalone link" "ownerName link' = ownerName link"
    "lk_machine link' = lk_machine link" "clusterName link' = clusterName link"
  using assms
  by (auto simp: resolveCluster_def Let_def split: sum.splits if_splits)

text \<open>A linkage is standalone only when nothing owns the machine and it says so itself.\<close>

lemma resolveLinkage_standalone:
  assumes "resolveLinkage c m k = Inr link" "standalone link"
  shows "ownerMachineRef m = None \<and> hasStandaloneAnnotation m"
  using assms(1)
proof (cases rule: resolveLinkage_cases)
  case clustered
  from resolveCluster_frame(1) [OF clustered(3)] assms(2) show ?thesis
    by (simp add: emptyLinkage_def)
qed (use assms(2) in \<open>simp_all add: emptyLinkage_def\<close>)

text \<open>
  What must hold of a HydraCluster before machines may be created from it: its readiness is a
  verdict on the generation it has now, and that verdict is yes.
\<close>

definition readyNow :: "lib \<Rightarrow> HydraCluster \<Rightarrow> bool" where
  "readyNow L hc \<longleftrightarrow> (\<exists>r. findStatusCondition L (hc_conditions hc) ReadyCondition = Some r
     \<and> c_observedGeneration r = om_generation (hc_meta hc) \<and> c_status r = ConditionTrue)"

text \<open>
  C9: the create gate opens exactly when the machine has a visible owner or is declared
  standalone, and, if it belongs to a cluster, that Cluster is visible and reports its
  infrastructure provisioned, and the HydraCluster it names, if any, is visible and ready at its
  current generation.
\<close>

theorem clusterReadyForCreate_exact:
  "clusterReadyForCreate L link = None \<longleftrightarrow>
     ((\<exists>m. lk_machine link = Some m) \<or> standalone link) \<and>
     (clusterName link = [] \<or>
       (\<exists>cl. lk_cluster link = Some cl \<and> cl_infrastructureProvisioned cl = Some True
          \<and> (lk_hydraCluster link = None \<and> hydraClusterName link = []
             \<or> (\<exists>hc. lk_hydraCluster link = Some hc \<and> readyNow L hc))))"
  by (cases "lk_cluster link"; cases "lk_hydraCluster link")
    (auto simp: clusterReadyForCreate_def readyNow_def Let_def split: option.splits)

text \<open>The create gate only ever waits; it never reports a failure.\<close>

definition waitSentinels :: "sentinel set" where
  "waitSentinels = {ErrWaitingForOwner, ErrWaitingForCluster, ErrWaitingForClusterInfra,
     ErrWaitingForHydraCluster, ErrWaitingForBootstrap, ErrWaitingForHypervisor,
     ErrWaitingForHypervisorCredentials}"

lemma clusterReadyForCreate_waits:
  "clusterReadyForCreate L link = Some e \<Longrightarrow> \<exists>s\<in>waitSentinels. errorsIs e s"
  by (auto simp: clusterReadyForCreate_def waitSentinels_def Let_def split: option.splits if_splits)

text \<open>
  C10: a machine that passes the create gate gets empty bootstrap data only when nothing owns it
  and it carries the standalone annotation; in every other case the data is the non-empty value
  of its owner's Secret.
\<close>

theorem bootstrap_empty_only_standalone:
  assumes "resolveLinkage c m k = Inr link"
    and "clusterReadyForCreate L link = None"
    and "bootstrapDataFor reader link k = Inr d"
  shows "(d = [] \<longleftrightarrow> standalone link) \<and> (standalone link \<longrightarrow> ownerMachineRef m = None \<and> hasStandaloneAnnotation m)"
proof -
  have wf: "linkage_wf link" using assms(1) by (rule resolveLinkage_wf)
  have "standalone link \<Longrightarrow> d = []"
    using wf assms(3) by (auto simp: linkage_wf_def bootstrapDataFor_def)
  moreover have "d = [] \<Longrightarrow> standalone link"
    using assms(2,3)
    by (auto simp: bootstrapDataFor_def clusterReadyForCreate_def split: option.splits sum.splits if_splits)
  ultimately show ?thesis
    using resolveLinkage_standalone [OF assms(1)] by blast
qed

lemma pausedReason_empty:
  "pausedReason as cl = [] \<longleftrightarrow> as PausedAnnotation = None \<and>
     (\<forall>c. cl = Some c \<longrightarrow> cl_paused c \<noteq> Some True \<and> om_annotations (cl_meta c) PausedAnnotation = None)"
  by (auto simp: pausedReason_def split: option.splits)

lemma pausedCondition_type [simp]: "c_type (pausedCondition t r g) = t"
  by (simp add: pausedCondition_def)

text \<open>Either nothing is written, or the one patch is, with the pause condition set.\<close>

lemma setPausedCondition_result:
  assumes "setPausedCondition L sp obj conds gen t reason s = (e, obj', s')"
  shows "(e = None \<and> obj' = obj \<and> s' = s) \<or>
     (\<exists>e0. sp (setStatusCondition L conds (pausedCondition t reason gen)) s = (e0, obj', s')
        \<and> (e = None \<longleftrightarrow> e0 = None))"
proof -
  obtain e0 o1 s1 where sp: "sp (setStatusCondition L conds (pausedCondition t reason gen)) s = (e0, o1, s1)"
    by (metis prod_cases3)
  show ?thesis
    using assms unfolding setPausedCondition_def Let_def sp
    by (auto simp only: prod.case prod.inject option.case split: if_splits option.splits)
qed

end
