(* ===== verification/Go_Net.thy ===== *)
theory Go_Net
  imports Hydra_Prelude "HOL-Library.Word"
begin

text \<open>
  The parts of \<^verbatim>\<open>net\<close>, \<^verbatim>\<open>net/netip\<close> and \<^verbatim>\<open>strconv\<close> the sources use:
  \<^verbatim>\<open>ParseIP\<close>, \<^verbatim>\<open>ParseCIDR\<close>, \<^verbatim>\<open>IPNet.Contains\<close>, \<^verbatim>\<open>IP.String\<close> of an IPv4
  address, \<^verbatim>\<open>SplitHostPort\<close>, \<^verbatim>\<open>JoinHostPort\<close> and \<^verbatim>\<open>Atoi\<close>.
  An address is four bytes or sixteen; \<^verbatim>\<open>To4\<close> and \<^verbatim>\<open>Equal\<close> treat an IPv4-mapped
  sixteen-byte address as the four-byte one, so the model keeps such an address as \<open>V4\<close>.
\<close>

unbundle bit_operations_syntax

section \<open>Numbers\<close>

definition digitValue :: "char \<Rightarrow> nat option" where
  "digitValue c = (let n = (of_char c :: nat) in if 48 \<le> n \<and> n \<le> 57 then Some (n - 48) else None)"

fun digitsValue :: "nat \<Rightarrow> string \<Rightarrow> nat option" where
  "digitsValue acc [] = Some acc"
| "digitsValue acc (c # cs) = (case digitValue c of
     None \<Rightarrow> None | Some d \<Rightarrow> digitsValue (10 * acc + d) cs)"

text \<open>\<^verbatim>\<open>strconv.Atoi\<close>: an optional sign, digits, and the range of a 64-bit int.\<close>

definition atoi :: "string \<Rightarrow> int option" where
  "atoi s = (let (neg, ds) = (case s of
        [] \<Rightarrow> (False, [])
      | c # cs \<Rightarrow> if c = CHR ''-'' then (True, cs) else if c = CHR ''+'' then (False, cs) else (False, s))
     in if ds = [] then None
        else case digitsValue 0 ds of
          None \<Rightarrow> None
        | Some n \<Rightarrow> let v = (if neg then - int n else int n)
            in if - (2 ^ 63) \<le> v \<and> v < 2 ^ 63 then Some v else None)"

section \<open>Addresses\<close>

datatype ip = V4 "32 word" | V6 "128 word"

definition mk_v4 :: "nat list \<Rightarrow> 32 word" where
  "mk_v4 fs = foldl (\<lambda>acc f. 256 * acc + of_nat f) 0 fs"

text \<open>
  The loop of \<^verbatim>\<open>parseIPv4Fields\<close>: the fields read so far, the value and the number of
  digits of the current one. A dot with no digit before it is a dot at the start or after a dot.
\<close>

fun parseIPv4Fields :: "nat list \<Rightarrow> nat \<Rightarrow> nat \<Rightarrow> string \<Rightarrow> nat list option" where
  "parseIPv4Fields fs val digLen [] = (if length fs < 3 then None else Some (fs @ [val]))"
| "parseIPv4Fields fs val digLen (c # cs) = (case digitValue c of
     Some d \<Rightarrow>
       if digLen = 1 \<and> val = 0 then None
       else if 10 * val + d > 255 then None
       else parseIPv4Fields fs (10 * val + d) (digLen + 1) cs
   | None \<Rightarrow>
       if c = CHR ''.'' then
         if digLen = 0 \<or> cs = [] then None
         else if length fs = 3 then None
         else parseIPv4Fields (fs @ [val]) 0 0 cs
       else None)"

definition parseIPv4 :: "string \<Rightarrow> ip option" where
  "parseIPv4 s = map_option (\<lambda>fs. V4 (mk_v4 fs)) (parseIPv4Fields [] 0 0 s)"

definition hexDigitValue :: "char \<Rightarrow> nat option" where
  "hexDigitValue c = (let n = (of_char c :: nat) in
     if 48 \<le> n \<and> n \<le> 57 then Some (n - 48)
     else if 97 \<le> n \<and> n \<le> 102 then Some (n - 87)
     else if 65 \<le> n \<and> n \<le> 70 then Some (n - 55)
     else None)"

text \<open>One group: at most four hexadecimal digits, with the rest of the string.\<close>

fun hexGroup :: "nat \<Rightarrow> nat \<Rightarrow> string \<Rightarrow> (nat \<times> nat \<times> string) option" where
  "hexGroup off acc [] = Some (off, acc, [])"
| "hexGroup off acc (c # cs) = (case hexDigitValue c of
     None \<Rightarrow> Some (off, acc, c # cs)
   | Some d \<Rightarrow> if off > 3 then None else hexGroup (off + 1) (16 * acc + d) cs)"

text \<open>
  The loop of \<^verbatim>\<open>parseIPv6\<close>: the 16-bit groups read so far and where the ellipsis was, with
  the rest of the string when it stops. Eight groups fill the sixteen bytes.
\<close>

fun parseIPv6Loop ::
  "nat \<Rightarrow> nat list \<Rightarrow> nat option \<Rightarrow> string \<Rightarrow> (nat list \<times> nat option \<times> string) option" where
  "parseIPv6Loop 0 gs el s = Some (gs, el, s)"
| "parseIPv6Loop (Suc n) gs el s = (case hexGroup 0 0 s of
     None \<Rightarrow> None
   | Some (off, acc, rest) \<Rightarrow>
       if off = 0 then None
       else if rest \<noteq> [] \<and> hd rest = CHR ''.'' then
         if el = None \<and> length gs \<noteq> 6 then None
         else if length gs > 6 then None
         else (case parseIPv4Fields [] 0 0 s of
             None \<Rightarrow> None
           | Some [a, b, c, d] \<Rightarrow> Some (gs @ [256 * a + b, 256 * c + d], el, [])
           | Some _ \<Rightarrow> None)
       else (case rest of
           [] \<Rightarrow> Some (gs @ [acc], el, [])
         | c # rest1 \<Rightarrow>
             if c \<noteq> CHR '':'' \<or> rest1 = [] then None
             else if hd rest1 = CHR '':'' then
               if el \<noteq> None then None
               else if tl rest1 = [] then Some (gs @ [acc], Some (length gs + 1), [])
               else parseIPv6Loop n (gs @ [acc]) (Some (length gs + 1)) (tl rest1)
             else parseIPv6Loop n (gs @ [acc]) el rest1))"

definition finishIPv6 :: "nat list \<times> nat option \<times> string \<Rightarrow> nat list option" where
  "finishIPv6 r = (case r of (gs, el, s) \<Rightarrow>
     if s \<noteq> [] then None
     else case el of
         None \<Rightarrow> if length gs < 8 then None else Some gs
       | Some k \<Rightarrow> if length gs < 8
           then Some (take k gs @ replicate (8 - length gs) 0 @ drop k gs) else None)"

definition mk_v6 :: "nat list \<Rightarrow> ip" where
  "mk_v6 gs = (if take 6 gs = [0, 0, 0, 0, 0, 65535]
     then V4 (65536 * of_nat (gs ! 6) + of_nat (gs ! 7))
     else V6 (foldl (\<lambda>acc g. 65536 * acc + of_nat g) 0 gs))"

text \<open>A zone is refused by \<^verbatim>\<open>ParseIP\<close> and \<^verbatim>\<open>ParseCIDR\<close>; its percent sign is no hexadecimal digit.\<close>

definition parseIPv6 :: "string \<Rightarrow> ip option" where
  "parseIPv6 s =
     (if CHR ''%'' \<in> set s then None
      else if take 2 s = ''::''
      then if drop 2 s = [] then Some (V6 0)
           else map_option mk_v6 (Option.bind (parseIPv6Loop 8 [] (Some 0) (drop 2 s)) finishIPv6)
      else map_option mk_v6 (Option.bind (parseIPv6Loop 8 [] None s) finishIPv6))"

text \<open>\<^verbatim>\<open>ParseAddr\<close> decides by the first dot, colon or percent sign. The flag tells an IPv4 text.\<close>

definition parseAddr :: "string \<Rightarrow> (ip \<times> bool) option" where
  "parseAddr s = (case dropWhile (\<lambda>c. c \<noteq> CHR ''.'' \<and> c \<noteq> CHR '':'' \<and> c \<noteq> CHR ''%'') s of
     [] \<Rightarrow> None
   | c # _ \<Rightarrow> if c = CHR ''.'' then map_option (\<lambda>a. (a, True)) (parseIPv4 s)
       else if c = CHR '':'' then map_option (\<lambda>a. (a, False)) (parseIPv6 s)
       else None)"

definition ParseIP :: "string \<Rightarrow> ip option" where
  "ParseIP s = map_option fst (parseAddr s)"

fun To4 :: "ip \<Rightarrow> (32 word) option" where
  "To4 (V4 w) = Some w"
| "To4 (V6 _) = None"

definition v4String :: "32 word \<Rightarrow> string" where
  "v4String w = joinStrings ''.'' (map itoa
     [unat w div 16777216, unat w div 65536 mod 256, unat w div 256 mod 256, unat w mod 256])"

section \<open>Networks\<close>

text \<open>
  \<^verbatim>\<open>IPNet\<close>: the masked address, the number of leading ones of the mask and whether the mask
  is four bytes long.
\<close>

record IPNet =
  net_ip :: ip
  net_ones :: nat
  net_is4 :: bool

definition mask4 :: "nat \<Rightarrow> 32 word" where
  "mask4 n = NOT (mask (32 - n))"

definition mask6 :: "nat \<Rightarrow> 128 word" where
  "mask6 n = NOT (mask (128 - n))"

fun v6_of :: "ip \<Rightarrow> 128 word" where
  "v6_of (V4 w) = ucast w OR push_bit 32 0xffff"
| "v6_of (V6 w) = w"

definition norm_v6 :: "128 word \<Rightarrow> ip" where
  "norm_v6 w = (if drop_bit 32 w = 0xffff then V4 (ucast w) else V6 w)"

definition ParseCIDR :: "string \<Rightarrow> (ip \<times> IPNet) option" where
  "ParseCIDR s = (case cutAt CHR ''/'' s of (addr, m, found) \<Rightarrow>
     if \<not> found then None
     else case parseAddr addr of
         None \<Rightarrow> None
       | Some (a, is4) \<Rightarrow> (case (if m = [] then None else digitsValue 0 m) of
             None \<Rightarrow> None
           | Some n \<Rightarrow>
               if n > (if is4 then 32 else 128) then None
               else if is4 then (case To4 a of
                   None \<Rightarrow> None
                 | Some w \<Rightarrow> Some (a, \<lparr>net_ip = V4 (w AND mask4 n), net_ones = n, net_is4 = True\<rparr>))
               else Some (a, \<lparr>net_ip = norm_v6 (v6_of a AND mask6 n), net_ones = n, net_is4 = False\<rparr>)))"

text \<open>
  \<^verbatim>\<open>IPNet.Contains\<close>: a four-byte mask, or the last four bytes of a sixteen-byte one, is used
  for an IPv4 network number; the lengths of number and address must agree.
\<close>

definition contains :: "IPNet \<Rightarrow> ip \<Rightarrow> bool" where
  "contains n a = (case (net_ip n, a) of
     (V4 base, V4 w) \<Rightarrow> (let m = mask4 (if net_is4 n then net_ones n else net_ones n - 96)
                         in base AND m = w AND m)
   | (V6 base, V6 w) \<Rightarrow> \<not> net_is4 n \<and> base AND mask6 (net_ones n) = w AND mask6 (net_ones n)
   | _ \<Rightarrow> False)"

section \<open>Host and port\<close>

definition JoinHostPort :: "string \<Rightarrow> string \<Rightarrow> string" where
  "JoinHostPort host port =
     (if CHR '':'' \<in> set host then ''['' @ host @ '']:'' @ port else host @ '':'' @ port)"

text \<open>
  \<^verbatim>\<open>SplitHostPort\<close>: the port follows the last colon; a bracketed host ends at the first
  closing bracket, which the last colon follows. Brackets anywhere else are refused.
\<close>

definition SplitHostPort :: "string \<Rightarrow> (string \<times> string) option" where
  "SplitHostPort s =
     (if CHR '':'' \<notin> set s then None
      else if hd s = CHR ''['' then
        let host = takeWhile (\<lambda>c. c \<noteq> CHR '']'') (tl s);
            rest = drop (length host) (tl s)
        in (case rest of
              _ # c # port \<Rightarrow>
                if c = CHR '':'' \<and> CHR '':'' \<notin> set port \<and> CHR ''['' \<notin> set (tl s) \<and> CHR '']'' \<notin> set port
                then Some (host, port) else None
            | _ \<Rightarrow> None)
      else
        let port = rev (takeWhile (\<lambda>c. c \<noteq> CHR '':'') (rev s));
            host = take (length s - length port - 1) s
        in if CHR '':'' \<in> set host \<or> CHR ''['' \<in> set s \<or> CHR '']'' \<in> set s then None
           else Some (host, port))"

end
