(* ===== verification/Hypervisor_Ref.thy ===== *)
theory Hypervisor_Ref
  imports Cluster_Api Go_Net
begin

text \<open>
  \<^verbatim>\<open>internal/controller/hypervisor.go\<close>: the canonical form of a hypervisor address, the
  credentials a HydraCluster names, and when the hypervisor is confirmed.
\<close>

definition defaultHypervisorPort :: string where "defaultHypervisorPort = ''16514''"
definition hypervisorCACertKey :: string where "hypervisorCACertKey = ''cacert.pem''"
definition hypervisorClientCertKey :: string where "hypervisorClientCertKey = ''clientcert.pem''"
definition hypervisorClientKeyKey :: string where "hypervisorClientKeyKey = ''clientkey.pem''"

definition canonicalHypervisor :: "string \<Rightarrow> goerr + string" where
  "canonicalHypervisor address =
     (let (host, port) = (case SplitHostPort address of
            Some hp \<Rightarrow> hp
          | None \<Rightarrow> (trimSuffix (trimPrefix address ''['') '']'', defaultHypervisorPort))
      in case atoi port of
           None \<Rightarrow> Inl (marked ErrTerminal ''hypervisor address is not host or host:port'' [address])
         | Some n \<Rightarrow>
             if n < 1 \<or> n > 65535 \<or> host = []
             then Inl (marked ErrTerminal ''hypervisor address is not host or host:port'' [address])
             else Inr (JoinHostPort host port))"

definition bytesAt :: "(string \<rightharpoonup> bytes) \<Rightarrow> string \<Rightarrow> bytes" where
  "bytesAt m k = (case m k of None \<Rightarrow> [] | Some v \<Rightarrow> v)"

definition checkCredentials :: "lib \<Rightarrow> TLSCredentials \<Rightarrow> goerr option" where
  "checkCredentials L creds =
     (if caCert creds = [] then Some (NewErr ''key is missing or empty'' [hypervisorCACertKey])
      else if clientCert creds = [] then Some (NewErr ''key is missing or empty'' [hypervisorClientCertKey])
      else if clientKey creds = [] then Some (NewErr ''key is missing or empty'' [hypervisorClientKeyKey])
      else if \<not> x509KeyPairOK L (clientCert creds) (clientKey creds)
      then Some (NewErr ''are not a matching certificate and key'' [hypervisorClientCertKey, hypervisorClientKeyKey])
      else if \<not> appendCertsFromPEM L (caCert creds)
      then Some (NewErr ''holds no PEM certificate'' [hypervisorCACertKey])
      else None)"

definition hypervisorOf ::
  "lib \<Rightarrow> 'k kube option \<Rightarrow> HydraCluster option \<Rightarrow> 'k \<Rightarrow> goerr + Hypervisor option" where
  "hypervisorOf L reader hydraCluster k =
     (case Option.bind hydraCluster (\<lambda>hc. map_option (\<lambda>h. (hc, h)) (hc_hypervisor hc)) of
        None \<Rightarrow> Inr None
      | Some (hc, h) \<Rightarrow>
          (case canonicalHypervisor (hh_address h) of
             Inl e \<Rightarrow> Inl e
           | Inr address \<Rightarrow>
               (case reader of
                  None \<Rightarrow> Inl (marked ErrTerminal ''no reader is configured for hypervisor credentials'' [])
                | Some c \<Rightarrow>
                    (case getSecret c (om_namespace (hc_meta hc), hh_credentialsSecret h) k of
                       Inl e \<Rightarrow>
                         if apiIsNotFound e
                         then Inl (marked ErrTerminal ''hypervisor credentials Secret does not exist'' [hh_credentialsSecret h])
                         else Inl (WrapErr ''reading hypervisor credentials Secret'' [hh_credentialsSecret h] e)
                     | Inr secret \<Rightarrow>
                         let creds = \<lparr>caCert = bytesAt (sec_data secret) hypervisorCACertKey,
                               clientCert = bytesAt (sec_data secret) hypervisorClientCertKey,
                               clientKey = bytesAt (sec_data secret) hypervisorClientKeyKey\<rparr>
                         in (case checkCredentials L creds of
                               Some e \<Rightarrow> Inl (marked ErrTerminal ''hypervisor credentials Secret'' [hh_credentialsSecret h])
                             | None \<Rightarrow> Inr (Some \<lparr>hv_address = address, hv_credentials = creds,
                                 hv_credentialsVersion = sec_uid secret @ ''/'' @ sec_resourceVersion secret\<rparr>))))))"

definition confirmedHypervisor :: "HydraCluster option \<Rightarrow> bool" where
  "confirmedHypervisor hydraCluster = (case hydraCluster of
     None \<Rightarrow> False
   | Some hc \<Rightarrow> (case (hc_hypervisor hc, hc_statusHypervisor hc) of
         (Some h, Some a) \<Rightarrow> a = hh_address h
       | _ \<Rightarrow> False))"

section \<open>Properties\<close>

definition bracketFree :: "string \<Rightarrow> bool" where
  "bracketFree h \<longleftrightarrow> CHR ''['' \<notin> set h \<and> CHR '']'' \<notin> set h"

definition validPort :: "string \<Rightarrow> bool" where
  "validPort p \<longleftrightarrow> (\<exists>n. atoi p = Some n \<and> 1 \<le> n \<and> n \<le> 65535)"

lemma digitsValue_chars: "digitsValue acc s = Some n \<Longrightarrow> c \<in> set s \<Longrightarrow> digitValue c \<noteq> None"
  by (induction s arbitrary: acc) (auto split: option.splits)

lemma atoi_chars: "atoi p = Some n \<Longrightarrow> c \<in> set p \<Longrightarrow> digitValue c \<noteq> None \<or> c = CHR ''-'' \<or> c = CHR ''+''"
  by (auto simp: atoi_def Let_def split: list.splits option.splits if_splits dest!: digitsValue_chars)

lemma atoi_plain:
  assumes "atoi p = Some n"
  shows "CHR '':'' \<notin> set p" "CHR ''['' \<notin> set p" "CHR '']'' \<notin> set p"
  using atoi_chars [OF assms, of "CHR '':''"] atoi_chars [OF assms, of "CHR ''[''"]
    atoi_chars [OF assms, of "CHR '']''"]
  by (auto simp: digitValue_def)

lemma SplitHostPort_Join:
  assumes "h \<noteq> []" "bracketFree h" "CHR '':'' \<notin> set p" "CHR ''['' \<notin> set p" "CHR '']'' \<notin> set p"
  shows "SplitHostPort (JoinHostPort h p) = Some (h, p)"
proof (cases "CHR '':'' \<in> set h")
  case True
  have "takeWhile (\<lambda>c. c \<noteq> CHR '']'') (h @ CHR '']'' # CHR '':'' # p) = h"
    by (rule takeWhile_append_stop) (use assms(2) in \<open>auto simp: bracketFree_def\<close>)
  then show ?thesis
    using True assms by (simp add: SplitHostPort_def JoinHostPort_def Let_def bracketFree_def)
next
  case False
  have 1: "takeWhile (\<lambda>c. c \<noteq> CHR '':'') (rev p @ CHR '':'' # rev h) = rev p"
    by (rule takeWhile_append_stop) (use assms(3) in auto)
  have "hd (h @ x) \<noteq> CHR ''[''" for x
    using assms(1,2) by (cases h) (auto simp: bracketFree_def)
  with 1 False assms show ?thesis
    by (simp add: SplitHostPort_def JoinHostPort_def Let_def bracketFree_def)
qed

lemma validPort_default [simp]: "validPort defaultHypervisorPort"
proof -
  have "atoi defaultHypervisorPort = Some 16514"
    by (simp add: atoi_def defaultHypervisorPort_def digitValue_def)
  then show ?thesis by (simp add: validPort_def)
qed

lemma canonical_joined:
  assumes "h \<noteq> []" "bracketFree h" "validPort p"
  shows "canonicalHypervisor (JoinHostPort h p) = Inr (JoinHostPort h p)"
proof -
  obtain n where "atoi p = Some n" "1 \<le> n" "n \<le> 65535"
    using assms(3) by (auto simp: validPort_def)
  with SplitHostPort_Join [OF assms(1,2) atoi_plain] assms(1) show ?thesis
    by (simp add: canonicalHypervisor_def)
qed

lemma trimPrefix_no_bracket: "CHR ''['' \<notin> set h \<Longrightarrow> trimPrefix h ''['' = h"
  by (cases h) (auto simp: trimPrefix_def hasPrefix_def)

lemma trimSuffix_no_bracket: "CHR '']'' \<notin> set h \<Longrightarrow> trimSuffix h '']'' = h"
  by (cases "rev h") (auto simp: trimSuffix_def trimPrefix_def hasPrefix_def rev_swap)

lemma trimSuffix_bracket: "trimSuffix (h @ '']'') '']'' = h"
  by (simp add: trimSuffix_def trimPrefix_def hasPrefix_def)

text \<open>A host with no port, an IPv6 one in brackets, as the API asks for it.\<close>

definition portlessAddress :: "string \<Rightarrow> string" where
  "portlessAddress h = (if CHR '':'' \<in> set h then ''['' @ h @ '']'' else h)"

lemma SplitHostPort_portless:
  assumes "h \<noteq> []" "bracketFree h"
  shows "SplitHostPort (portlessAddress h) = None"
proof (cases "CHR '':'' \<in> set h")
  case True
  have "takeWhile (\<lambda>c. c \<noteq> CHR '']'') (h @ CHR '']'' # []) = h"
    by (rule takeWhile_append_stop) (use assms(2) in \<open>auto simp: bracketFree_def\<close>)
  with True show ?thesis
    by (simp add: portlessAddress_def SplitHostPort_def Let_def)
qed (simp add: portlessAddress_def SplitHostPort_def)

text \<open>
  a hypervisor written without a port and the same one written with libvirt's TLS port have
  one canonical form, host:port, and that form is a fixed point for every port from 1 to 65535:
  what a machine records is compared as it is.
\<close>

theorem canonicalHypervisor_canonical:
  assumes "h \<noteq> []" "bracketFree h" "validPort p"
  shows "canonicalHypervisor (portlessAddress h) = Inr (JoinHostPort h defaultHypervisorPort)
       \<and> canonicalHypervisor (JoinHostPort h p) = Inr (JoinHostPort h p)"
proof -
  obtain n where n: "atoi defaultHypervisorPort = Some n" "1 \<le> n" "n \<le> 65535"
    using validPort_default by (auto simp: validPort_def)
  have t: "trimSuffix (trimPrefix (portlessAddress h) ''['') '']'' = h"
    using assms(2) by (simp add: portlessAddress_def bracketFree_def trimPrefix_no_bracket
        trimSuffix_no_bracket trimSuffix_bracket [simplified])
      (simp add: trimPrefix_def hasPrefix_def trimSuffix_bracket [simplified])
  have "canonicalHypervisor (portlessAddress h) = Inr (JoinHostPort h defaultHypervisorPort)"
    using SplitHostPort_portless [OF assms(1,2)] t n assms(1)
    by (simp add: canonicalHypervisor_def)
  with canonical_joined [OF assms] show ?thesis by simp
qed

text \<open>The two writings of an IPv6 hypervisor.\<close>

theorem canonicalHypervisor_canonical_witness:
  "canonicalHypervisor (portlessAddress ''fd00::7'') = Inr (JoinHostPort ''fd00::7'' defaultHypervisorPort)
   \<and> canonicalHypervisor (JoinHostPort ''fd00::7'' ''16514'') = Inr (JoinHostPort ''fd00::7'' ''16514'')"
  using canonicalHypervisor_canonical [of "''fd00::7''" "''16514''"] validPort_default
  by (simp add: bracketFree_def defaultHypervisorPort_def)

text \<open>
  The port is not normalised. Two spellings of one port, with and without a leading zero, both
  match the API's pattern and have different canonical forms.
\<close>

theorem canonicalHypervisor_leading_zero:
  "canonicalHypervisor ''h:08080'' = Inr ''h:08080'' \<and> canonicalHypervisor ''h:8080'' = Inr ''h:8080''
   \<and> atoi ''08080'' = atoi ''8080''"
  by code_simp

lemma canonicalHypervisor_nonempty: "canonicalHypervisor a = Inr h \<Longrightarrow> h \<noteq> []"
  by (auto simp: canonicalHypervisor_def JoinHostPort_def Let_def split: option.splits if_splits prod.splits)

lemma hypervisorOf_address:
  "hypervisorOf L rd hc k = Inr (Some hv) \<Longrightarrow>
   \<exists>c h. hc = Some c \<and> hc_hypervisor c = Some h \<and> canonicalHypervisor (hh_address h) = Inr (hv_address hv)"
  by (auto simp: hypervisorOf_def Let_def split: option.splits sum.splits if_splits bind_splits)

lemma hypervisorOf_None:
  "hypervisorOf L rd hc k = Inr None \<longleftrightarrow> Option.bind hc hc_hypervisor = None"
  by (auto simp: hypervisorOf_def Let_def split: option.splits sum.splits if_splits bind_splits)

lemma confirmedHypervisorD:
  "confirmedHypervisor (Some hc) \<Longrightarrow> \<exists>h. hc_hypervisor hc = Some h \<and> hc_statusHypervisor hc = Some (hh_address h)"
  by (auto simp: confirmedHypervisor_def split: option.splits)

end
