(* ===== verification/Sha256.thy ===== *)
theory Sha256
  imports Hydra_Prelude "HOL-Library.Word"
begin

text \<open>
  \<^verbatim>\<open>crypto/sha256\<close> and \<^verbatim>\<open>encoding/hex\<close> of the Go standard library, which
  \<^verbatim>\<open>backendName\<close> and \<^verbatim>\<open>hostnameFor\<close> use for their digests: SHA-256 of FIPS 180-4 on
  bytes, and lower-case hexadecimal. What the controllers rely on is proved at the end: a digest
  has 32 bytes, its hexadecimal form 64 lower-case hexadecimal characters.
\<close>

unbundle bit_operations_syntax

type_synonym byte = "8 word"

definition bytes_of :: "string \<Rightarrow> byte list" where
  "bytes_of s = map of_char s"

definition sha_K :: "32 word list" where
  "sha_K = [
    1116352408, 1899447441, 3049323471, 3921009573, 961987163, 1508970993, 2453635748, 2870763221,
    3624381080, 310598401, 607225278, 1426881987, 1925078388, 2162078206, 2614888103, 3248222580,
    3835390401, 4022224774, 264347078, 604807628, 770255983, 1249150122, 1555081692, 1996064986,
    2554220882, 2821834349, 2952996808, 3210313671, 3336571891, 3584528711, 113926993, 338241895,
    666307205, 773529912, 1294757372, 1396182291, 1695183700, 1986661051, 2177026350, 2456956037,
    2730485921, 2820302411, 3259730800, 3345764771, 3516065817, 3600352804, 4094571909, 275423344,
    430227734, 506948616, 659060556, 883997877, 958139571, 1322822218, 1537002063, 1747873779,
    1955562222, 2024104815, 2227730452, 2361852424, 2428436474, 2756734187, 3204031479, 3329325298]"

definition sha_init :: "32 word list" where
  "sha_init = [
    1779033703, 3144134277, 1013904242, 2773480762, 1359893119, 2600822924, 528734635, 1541459225]"

text \<open>
  Where the two tables come from: the first 32 bits of the fractional parts of the cube roots of
  the first 64 primes, and of the square roots of the first eight.
\<close>

definition rootFraction :: "nat \<Rightarrow> nat \<Rightarrow> 32 word \<Rightarrow> bool" where
  "rootFraction e p w \<longleftrightarrow>
    (let a = length (takeWhile (\<lambda>a. a ^ e \<le> p) [1, 2, 3, 4, 5, 6]); r = a * 2 ^ 32 + unat w
     in r ^ e \<le> p * 2 ^ (32 * e) \<and> p * 2 ^ (32 * e) < (r + 1) ^ e)"

lemma sha_K_cube_roots: "list_all2 (rootFraction 3) [
    2, 3, 5, 7, 11, 13, 17, 19, 23, 29, 31, 37, 41, 43, 47, 53, 59, 61, 67, 71, 73, 79,
    83, 89, 97, 101, 103, 107, 109, 113, 127, 131, 137, 139, 149, 151, 157, 163, 167, 173, 179, 181, 191, 193,
    197, 199, 211, 223, 227, 229, 233, 239, 241, 251, 257, 263, 269, 271, 277, 281, 283, 293, 307, 311] sha_K"
  by (simp add: sha_K_def rootFraction_def Let_def)

lemma sha_init_square_roots: "list_all2 (rootFraction 2) [2, 3, 5, 7, 11, 13, 17, 19] sha_init"
  by (simp add: sha_init_def rootFraction_def Let_def)

definition small_sigma0 :: "32 word \<Rightarrow> 32 word" where
  "small_sigma0 x = word_rotr 7 x XOR word_rotr 18 x XOR drop_bit 3 x"

definition small_sigma1 :: "32 word \<Rightarrow> 32 word" where
  "small_sigma1 x = word_rotr 17 x XOR word_rotr 19 x XOR drop_bit 10 x"

definition big_sigma0 :: "32 word \<Rightarrow> 32 word" where
  "big_sigma0 x = word_rotr 2 x XOR word_rotr 13 x XOR word_rotr 22 x"

definition big_sigma1 :: "32 word \<Rightarrow> 32 word" where
  "big_sigma1 x = word_rotr 6 x XOR word_rotr 11 x XOR word_rotr 25 x"

definition be32 :: "byte list \<Rightarrow> 32 word" where
  "be32 bs = foldl (\<lambda>acc b. push_bit 8 acc OR ucast b) 0 bs"

definition bytes32 :: "32 word \<Rightarrow> byte list" where
  "bytes32 w = [ucast (drop_bit 24 w), ucast (drop_bit 16 w), ucast (drop_bit 8 w), ucast w]"

definition bytes64 :: "64 word \<Rightarrow> byte list" where
  "bytes64 w = map (\<lambda>i. ucast (drop_bit (56 - 8 * i) w)) [0..<8]"

definition sha_pad :: "byte list \<Rightarrow> byte list" where
  "sha_pad m = m @ [0x80] @ replicate ((119 - length m mod 64) mod 64) 0
     @ bytes64 (of_nat (8 * length m))"

fun chunks :: "nat \<Rightarrow> 'a list \<Rightarrow> 'a list list" where
  "chunks n xs = (if n = 0 \<or> xs = [] then [] else take n xs # chunks n (drop n xs))"

declare chunks.simps [simp del]

text \<open>The message schedule, one word per step: the step number is the length so far.\<close>

fun sha_extend :: "nat \<Rightarrow> 32 word list \<Rightarrow> 32 word list" where
  "sha_extend 0 ws = ws"
| "sha_extend (Suc n) ws = (let t = length ws in
     sha_extend n (ws @ [small_sigma1 (ws ! (t - 2)) + ws ! (t - 7) + small_sigma0 (ws ! (t - 15)) + ws ! (t - 16)]))"

fun sha_round :: "32 word list \<Rightarrow> 32 word \<times> 32 word \<Rightarrow> 32 word list" where
  "sha_round [a, b, c, d, e, f, g, h] (k, w) =
    (let t1 = h + big_sigma1 e + ((e AND f) XOR (NOT e AND g)) + k + w;
         t2 = big_sigma0 a + ((a AND b) XOR (a AND c) XOR (b AND c))
     in [t1 + t2, a, b, c, d + t1, e, f, g])"
| "sha_round st _ = st"

definition sha_block :: "32 word list \<Rightarrow> byte list \<Rightarrow> 32 word list" where
  "sha_block st blk = map2 (+) st
     (foldl sha_round st (zip sha_K (sha_extend 48 (map be32 (chunks 4 blk)))))"

definition sha256 :: "byte list \<Rightarrow> byte list" where
  "sha256 m = concat (map bytes32 (foldl sha_block sha_init (chunks 64 (sha_pad m))))"

definition hexDigits :: string where
  "hexDigits = ''0123456789abcdef''"

definition hexByte :: "byte \<Rightarrow> string" where
  "hexByte b = [hexDigits ! (unat b div 16), hexDigits ! (unat b mod 16)]"

definition hexEncode :: "byte list \<Rightarrow> string" where
  "hexEncode bs = concat (map hexByte bs)"

section \<open>Shape of a digest\<close>

lemma length_sha_round: "length st = 8 \<Longrightarrow> length (sha_round st kw) = 8"
  by (induction st kw rule: sha_round.induct) (auto simp: Let_def)

lemma length_sha_rounds: "length st = 8 \<Longrightarrow> length (foldl sha_round st kws) = 8"
  by (induction kws arbitrary: st) (auto simp: length_sha_round)

lemma length_sha_block: "length st = 8 \<Longrightarrow> length (sha_block st blk) = 8"
  by (simp add: sha_block_def length_sha_rounds)

lemma length_sha_blocks: "length st = 8 \<Longrightarrow> length (foldl sha_block st bs) = 8"
  by (induction bs arbitrary: st) (auto simp: length_sha_block)

lemma length_concat_const: "(\<forall>x. length (f x) = k) \<Longrightarrow> length (concat (map f xs)) = k * length xs"
  by (induction xs) auto

lemma length_sha256 [simp]: "length (sha256 m) = 32"
proof -
  have "length (foldl sha_block sha_init (chunks 64 (sha_pad m))) = 8"
    by (rule length_sha_blocks) (simp add: sha_init_def)
  then show ?thesis
    by (simp add: sha256_def length_concat_const [where k = 4] bytes32_def)
qed

lemma length_hexEncode [simp]: "length (hexEncode bs) = 2 * length bs"
  by (simp add: hexEncode_def length_concat_const [where k = 2] hexByte_def)

lemma unat_byte_bounds: "unat (b :: byte) div 16 < 16" "unat (b :: byte) mod 16 < 16"
  using unsigned_less [of b, where 'a = nat] by auto

lemma length_hexDigits [simp]: "length hexDigits = 16"
  by (simp add: hexDigits_def)

lemma set_hexEncode: "set (hexEncode bs) \<subseteq> set hexDigits"
proof -
  have "set (hexByte b) \<subseteq> set hexDigits" for b
    using unat_byte_bounds [of b] by (simp add: hexByte_def)
  then show ?thesis by (auto simp: hexEncode_def)
qed

text \<open>\<^verbatim>\<open>hex.DecodeString\<close>: both cases of the digits are read, an odd length is refused.\<close>

definition hexValue :: "char \<Rightarrow> nat option" where
  "hexValue c = (let n = (of_char c :: nat) in
     if 48 \<le> n \<and> n \<le> 57 then Some (n - 48)
     else if 97 \<le> n \<and> n \<le> 102 then Some (n - 87)
     else if 65 \<le> n \<and> n \<le> 70 then Some (n - 55)
     else None)"

fun hexDecode :: "string \<Rightarrow> byte list option" where
  "hexDecode [] = Some []"
| "hexDecode [c] = None"
| "hexDecode (c # d # cs) = (case (hexValue c, hexValue d, hexDecode cs) of
     (Some x, Some y, Some bs) \<Rightarrow> Some (of_nat (16 * x + y) # bs) | _ \<Rightarrow> None)"

lemma hexValue_digit: "n < 16 \<Longrightarrow> hexValue (hexDigits ! n) = Some n"
proof -
  assume "n < 16"
  then have "n \<in> set [0..<16]" by simp
  moreover have "\<forall>n \<in> set [0..<16]. hexValue (hexDigits ! n) = Some n"
    by code_simp
  ultimately show ?thesis by blast
qed

lemma hexDecode_hexEncode [simp]: "hexDecode (hexEncode bs) = Some bs"
proof (induction bs)
  case (Cons b bs)
  have "(of_nat (16 * (unat b div 16) + unat b mod 16) :: byte) = b"
    by (simp only: mult_div_mod_eq) simp
  with Cons show ?case
    by (simp add: hexEncode_def hexByte_def hexValue_digit unat_byte_bounds)
qed (simp add: hexEncode_def)

end
