(* ===== verification/Machine_Controller.thy ===== *)
theory Machine_Controller
  imports Hypervisor_Ref Sha256
begin

text \<open>
  \<^verbatim>\<open>internal/controller/hydramachine_controller.go\<close>: the reconciler that turns a HydraMachine
  into a machine on a backend and back. The whole of \<^verbatim>\<open>Reconcile\<close> is here, composed of the
  functions the source composes it of. The object a Go function changes through its pointer is
  returned; a write that fails leaves the local object changed, as in the source.
\<close>

section \<open>The reconciler\<close>

definition MachineFinalizer :: string where
  "MachineFinalizer = ''hydramachine.infrastructure.cluster.x-k8s.io/finalizer''"

definition maxReadableNamePrefix :: nat where "maxReadableNamePrefix = 40"
definition maxHostnameLength :: nat where "maxHostnameLength = 63"
definition maxStatusAddresses :: nat where "maxStatusAddresses = 32"
definition requeueWhileProvisioning :: Result where "requeueWhileProvisioning = 15"
definition requeueWhileHealthy :: Result where "requeueWhileHealthy = 300"

record ('k, 'b) HydraMachineReconciler =
  mr_lib :: lib
  mr_client :: "'k kube"
  mr_apiReader :: "'k kube option"
  mr_provider :: "'b MachineProvider option"
  mr_providerFor :: "(Owner \<Rightarrow> Hypervisor option \<Rightarrow> 'b \<Rightarrow> (goerr + 'b MachineProvider) \<times> 'b) option"
  mr_releaseProvider :: "(Owner \<Rightarrow> 'b \<Rightarrow> 'b) option"

abbreviation annotation :: "HydraMachine \<Rightarrow> string \<Rightarrow> string" where
  "annotation m a \<equiv> lookupStr (om_annotations (hm_meta m)) a"

abbreviation deleting :: "HydraMachine \<Rightarrow> bool" where
  "deleting m \<equiv> om_deleting (hm_meta m)"

definition providerIDOf :: "HydraMachine \<Rightarrow> string" where
  "providerIDOf m = (case hm_providerID m of None \<Rightarrow> [] | Some p \<Rightarrow> p)"

section \<open>Names\<close>

definition identityDigest :: "HydraMachine \<Rightarrow> string" where
  "identityDigest m = hexEncode (sha256 (bytes_of
     (om_namespace (hm_meta m) @ ''/'' @ om_name (hm_meta m) @ ''/'' @ om_uid (hm_meta m))))"

definition backendName :: "HydraMachine \<Rightarrow> string" where
  "backendName m =
     (let digest = take 20 (identityDigest m);
          readable = om_namespace (hm_meta m) @ ''-'' @ om_name (hm_meta m);
          readable = (if length readable > maxReadableNamePrefix
                      then take maxReadableNamePrefix readable else readable)
      in readable @ ''-'' @ digest)"

definition hostnameFor :: "HydraMachine \<Rightarrow> string" where
  "hostnameFor m =
     (if length (om_name (hm_meta m)) \<le> maxHostnameLength then om_name (hm_meta m)
      else let digest = take 8 (identityDigest m);
               prefix = trimRight (take (maxHostnameLength - length digest - 1) (om_name (hm_meta m))) ''-.''
           in if prefix = [] then digest else prefix @ ''-'' @ digest)"

section \<open>The spec\<close>

definition hydraClusterOf :: "linkage option \<Rightarrow> HydraCluster option" where
  "hydraClusterOf link = Option.bind link lk_hydraCluster"

definition managedNetworkOf :: "HydraCluster option \<Rightarrow> ManagedNetwork option" where
  "managedNetworkOf hydraCluster =
     map_option (\<lambda>n. \<lparr>mn_name = hmn_name n, mn_subnet = hmn_subnet n,
       mn_dhcpStart = hmn_dhcpStart n, mn_dhcpEnd = hmn_dhcpEnd n\<rparr>)
       (Option.bind hydraCluster hc_managedNetwork)"

definition resolveImage :: "HydraMachine \<Rightarrow> linkage \<Rightarrow> Image" where
  "resolveImage m link = (case hm_image m of
     Some img \<Rightarrow> img
   | None \<Rightarrow> (case Option.bind (lk_hydraCluster link) hc_baseImage of
       Some img \<Rightarrow> img | None \<Rightarrow> emptyImage))"

definition resolveNetworks :: "HydraMachine \<Rightarrow> linkage \<Rightarrow> Network list" where
  "resolveNetworks m link =
     (if hm_networks m \<noteq> [] then hm_networks m
      else case lk_hydraCluster link of Some hc \<Rightarrow> hc_networks hc | None \<Rightarrow> [])"

definition resolveStoragePool :: "linkage \<Rightarrow> string" where
  "resolveStoragePool link = (case lk_hydraCluster link of Some hc \<Rightarrow> hc_storagePool hc | None \<Rightarrow> [])"

definition specFor :: "lib \<Rightarrow> HydraMachine \<Rightarrow> linkage \<Rightarrow> bytes \<Rightarrow> goerr + MachineSpec" where
  "specFor L m link bootstrapData =
     (let networks = resolveNetworks m link in
      if networks = []
      then Inl (marked ErrTerminal ''no networks on the HydraMachine and none defaulted by its HydraCluster'' [])
      else Inr \<lparr>ms_name = backendName m, ms_vcpus = hm_vcpus m,
             ms_memoryBytes = quantityValue L (hm_memory m),
             ms_diskBytes = quantityValue L (hm_diskSize m),
             ms_image = resolveImage m link, ms_networks = networks,
             ms_managedNetwork = managedNetworkOf (lk_hydraCluster link),
             ms_storagePool = resolveStoragePool link,
             ms_hostname = hostnameFor m, ms_bootstrapData = bootstrapData\<rparr>)"

definition storagePoolOf :: "HydraMachine \<Rightarrow> linkage \<Rightarrow> string" where
  "storagePoolOf m link =
     (let pool = annotation m StoragePoolAnnotation
      in if pool \<noteq> [] then pool else resolveStoragePool link)"

section \<open>Addresses\<close>

fun toMachineAddressesLoop :: "Address list \<Rightarrow> Address list \<Rightarrow> Address list" where
  "toMachineAddressesLoop out [] = out"
| "toMachineAddressesLoop out (a # as) =
     (if a \<in> set out then toMachineAddressesLoop out as
      else let out' = out @ [a] in
        if length out' = maxStatusAddresses then out' else toMachineAddressesLoop out' as)"

definition toMachineAddresses :: "Address list \<Rightarrow> Address list" where
  "toMachineAddresses addrs = (if addrs = [] then [] else toMachineAddressesLoop [] addrs)"

definition hasIPAddress :: "Address list \<Rightarrow> bool" where
  "hasIPAddress addrs \<longleftrightarrow> list_ex (\<lambda>a. addr_type a = InternalIP \<or> addr_type a = ExternalIP) addrs"

section \<open>Connections\<close>

definition machineOwner :: "NamespacedName \<Rightarrow> Owner" where
  "machineOwner key = \<lparr>own_kind = hydraMachineKind, own_namespace = fst key, own_name = snd key\<rparr>"

definition release :: "('k, 'b) HydraMachineReconciler \<Rightarrow> Owner \<Rightarrow> ('k, 'b) env \<Rightarrow> ('k, 'b) env" where
  "release r owner s = (case mr_releaseProvider r of
     None \<Rightarrow> s | Some f \<Rightarrow> s\<lparr>env_backend := f owner (env_backend s)\<rparr>)"

definition hypervisorFor ::
  "('k, 'b) HydraMachineReconciler \<Rightarrow> linkage \<Rightarrow> string \<Rightarrow> 'k \<Rightarrow> goerr + Hypervisor option" where
  "hypervisorFor r link placement k =
     (if placement = [] then Inr None
      else case Option.bind (lk_hydraCluster link) (\<lambda>hc. map_option (\<lambda>h. (hc, h)) (hc_hypervisor hc)) of
        None \<Rightarrow> Inl (marked ErrWaitingForHypervisorCredentials
                  ''its HydraCluster cannot be read or names no hypervisor'' [placement])
      | Some (hc, h) \<Rightarrow>
          if canonicalHypervisor (hh_address h) \<noteq> Inr placement
          then Inl (marked ErrWaitingForHypervisorCredentials ''its HydraCluster names another''
                 [placement, om_name (hc_meta hc), hh_address h])
          else (case hypervisorOf (mr_lib r) (mr_apiReader r) (lk_hydraCluster link) k of
              Inl e \<Rightarrow> if errorsIs e ErrTerminal
                then Inl (marked ErrWaitingForHypervisorCredentials ''credentials'' [])
                else Inl e
            | Inr hv \<Rightarrow> Inr hv))"

definition provider ::
  "('k, 'b) HydraMachineReconciler \<Rightarrow> HydraMachine \<Rightarrow> linkage \<Rightarrow> string \<Rightarrow> ('k, 'b) env
    \<Rightarrow> (goerr + 'b MachineProvider) \<times> ('k, 'b) env" where
  "provider r m link placement s =
     (case mr_provider r of
        Some p \<Rightarrow> (Inr p, s)
      | None \<Rightarrow> (case mr_providerFor r of
          None \<Rightarrow> (Inl (marked ErrTerminal ''no infrastructure backend is configured'' []), s)
        | Some providerFor \<Rightarrow>
            (case hypervisorFor r link placement (env_kube s) of
               Inl e \<Rightarrow> (Inl e, s)
             | Inr hypervisor \<Rightarrow>
                 let owner = machineOwner (objectKey (hm_meta m));
                     s1 = (if hypervisor = None then release r owner s else s)
                 in (case providerFor owner hypervisor (env_backend s1) of
                       (Inl e, b) \<Rightarrow> (Inl (WrapErr ''connecting to the infrastructure backend'' [] e),
                                     s1\<lparr>env_backend := b\<rparr>)
                     | (Inr p, b) \<Rightarrow> (Inr p, s1\<lparr>env_backend := b\<rparr>)))))"

definition clusterByLabel ::
  "'k kube \<Rightarrow> HydraMachine \<Rightarrow> 'k \<Rightarrow> goerr option \<times> Cluster option \<times> HydraCluster option" where
  "clusterByLabel c m k =
     (let name = lookupStr (om_labels (hm_meta m)) ClusterNameLabel in
      if name = [] then (None, None, None)
      else case getCluster c (om_namespace (hm_meta m), name) k of
          Inl e \<Rightarrow> (ignoreNotFound e, None, None)
        | Inr cluster \<Rightarrow>
            if \<not> isHydraClusterRef (cl_infraRef cluster) then (None, Some cluster, None)
            else (case getHydraCluster c (om_namespace (hm_meta m), ir_name (cl_infraRef cluster)) k of
                Inl e \<Rightarrow> (ignoreNotFound e, Some cluster, None)
              | Inr hc \<Rightarrow> (None, Some cluster, Some hc)))"

definition withClusterByLabelForDeletion ::
  "'k kube \<Rightarrow> HydraMachine \<Rightarrow> linkage \<Rightarrow> 'k \<Rightarrow> goerr + linkage" where
  "withClusterByLabelForDeletion c m link k =
     (if \<not> deleting m \<or> (lk_cluster link \<noteq> None \<and> lk_hydraCluster link \<noteq> None) then Inr link
      else case clusterByLabel c m k of
          (Some e, _, _) \<Rightarrow> Inl e
        | (None, cluster, hc) \<Rightarrow>
            let found = (if lk_cluster link = None then link\<lparr>lk_cluster := cluster\<rparr> else link)
            in Inr (if lk_hydraCluster found = None then found\<lparr>lk_hydraCluster := hc\<rparr> else found))"

definition mayBeMadeOnFlags :: "HydraMachine \<Rightarrow> bool" where
  "mayBeMadeOnFlags m \<longleftrightarrow> providerIDOf m \<noteq> [] \<or> annotation m StoragePoolAnnotation \<noteq> []"

definition placementFor :: "HydraMachine \<Rightarrow> linkage \<Rightarrow> goerr + string" where
  "placementFor m link =
     (let recorded = annotation m HypervisorAnnotation in
      if recorded \<noteq> [] then Inr recorded
      else if mayBeMadeOnFlags m then Inr []
      else case Option.bind (lk_hydraCluster link) hc_hypervisor of
          None \<Rightarrow> Inr []
        | Some h \<Rightarrow>
            if \<not> confirmedHypervisor (lk_hydraCluster link)
            then if deleting m then Inr [] else Inl (Sentinel ErrWaitingForHypervisor)
            else canonicalHypervisor (hh_address h))"

section \<open>Status\<close>

definition patchStatus ::
  "('k, 'b) HydraMachineReconciler \<Rightarrow> string \<Rightarrow> HydraMachine \<Rightarrow> HydraMachine \<Rightarrow> ('k, 'b) env
    \<Rightarrow> goerr option \<times> HydraMachine \<times> ('k, 'b) env" where
  "patchStatus r what base m s =
     (case patchHydraMachineStatus (mr_client r) base m (env_kube s) of
        (Inl e, k) \<Rightarrow> (Some (WrapErr what [] e), m, s\<lparr>env_kube := k\<rparr>)
      | (Inr m', k) \<Rightarrow> (None, m', s\<lparr>env_kube := k\<rparr>))"

definition patchObject ::
  "('k, 'b) HydraMachineReconciler \<Rightarrow> bool \<Rightarrow> string \<Rightarrow> string list \<Rightarrow> HydraMachine \<Rightarrow> HydraMachine
    \<Rightarrow> ('k, 'b) env \<Rightarrow> goerr option \<times> HydraMachine \<times> ('k, 'b) env" where
  "patchObject r lock what as base m s =
     (case patchHydraMachine (mr_client r) lock base m (env_kube s) of
        (Inl e, k) \<Rightarrow> (Some (WrapErr what as e), m, s\<lparr>env_kube := k\<rparr>)
      | (Inr m', k) \<Rightarrow> (None, m', s\<lparr>env_kube := k\<rparr>))"

definition readyCondition :: "condStatus \<Rightarrow> string \<Rightarrow> msg \<Rightarrow> HydraMachine \<Rightarrow> Condition" where
  "readyCondition st reason message m = \<lparr>c_type = ReadyCondition, c_status = st, c_reason = reason,
     c_message = message, c_observedGeneration = om_generation (hm_meta m)\<rparr>"

definition updateStatus ::
  "('k, 'b) HydraMachineReconciler \<Rightarrow> HydraMachine \<Rightarrow> MachineState \<Rightarrow> ('k, 'b) env
    \<Rightarrow> goerr option \<times> HydraMachine \<times> ('k, 'b) env" where
  "updateStatus r m state s =
     (let prov = (if st_ready state then Some True
                  else if hm_provisioned m = None then Some False else hm_provisioned m);
          cond = (if st_ready state
                  then readyCondition ConditionTrue ''Provisioned'' (Text ''backing machine is running'') m
                  else readyCondition ConditionFalse ''Provisioning''
                         (Text ''waiting for the backing machine to become ready'') m);
          conds = removeStatusCondition (mr_lib r) (setStatusCondition (mr_lib r) (hm_conditions m) cond)
                    ProvisioningFailedCondition
      in patchStatus r ''updating status'' m
           (m\<lparr>hm_provisioned := prov, hm_addresses := toMachineAddresses (st_addresses state),
              hm_conditions := conds\<rparr>) s)"

definition setPaused ::
  "('k, 'b) HydraMachineReconciler \<Rightarrow> HydraMachine \<Rightarrow> string \<Rightarrow> ('k, 'b) env
    \<Rightarrow> goerr option \<times> HydraMachine \<times> ('k, 'b) env" where
  "setPaused r m reason s =
     setPausedCondition (mr_lib r)
       (\<lambda>conds s. let m' = m\<lparr>hm_conditions := conds\<rparr> in
          case patchHydraMachineStatus (mr_client r) m m' (env_kube s) of
            (Inl e, k) \<Rightarrow> (Some e, m', s\<lparr>env_kube := k\<rparr>)
          | (Inr m'', k) \<Rightarrow> (None, m'', s\<lparr>env_kube := k\<rparr>))
       m (hm_conditions m) (om_generation (hm_meta m)) PausedCondition reason s"

definition waitReasonFor :: "goerr option \<Rightarrow> string" where
  "waitReasonFor err = (case err of None \<Rightarrow> [] | Some e \<Rightarrow>
     if errorsIs e ErrWaitingForOwner then ''WaitingForOwnerMachine''
     else if errorsIs e ErrWaitingForCluster then ''WaitingForCluster''
     else if errorsIs e ErrWaitingForClusterInfra then ''WaitingForClusterInfrastructure''
     else if errorsIs e ErrWaitingForHydraCluster then ''WaitingForHydraCluster''
     else if errorsIs e ErrWaitingForBootstrap then ''WaitingForBootstrapData''
     else if errorsIs e ErrWaitingForHypervisor then ''WaitingForHypervisor''
     else if errorsIs e ErrWaitingForHypervisorCredentials then ''WaitingForHypervisorCredentials''
     else [])"

definition recordWaiting ::
  "('k, 'b) HydraMachineReconciler \<Rightarrow> HydraMachine \<Rightarrow> string \<Rightarrow> goerr \<Rightarrow> ('k, 'b) env
    \<Rightarrow> goerr option \<times> HydraMachine \<times> ('k, 'b) env" where
  "recordWaiting r m reason cause s =
     (let conds = removeStatusCondition (mr_lib r)
            (setStatusCondition (mr_lib r) (hm_conditions m)
               (readyCondition ConditionFalse reason (ErrText cause) m))
            ProvisioningFailedCondition
      in case patchStatus r ''recording waiting state'' m (m\<lparr>hm_conditions := conds\<rparr>) s of
           (Some e, m', s') \<Rightarrow> (Some e, m', s')
         | (None, m', s') \<Rightarrow> (None, m', s'\<lparr>env_metrics := env_metrics s' @ [MachineWait reason]\<rparr>))"

definition recordError ::
  "('k, 'b) HydraMachineReconciler \<Rightarrow> HydraMachine \<Rightarrow> string \<Rightarrow> goerr \<Rightarrow> ('k, 'b) env
    \<Rightarrow> goerr option \<times> HydraMachine \<times> ('k, 'b) env" where
  "recordError r m phase cause s =
     (let terminal = errorsIs cause ErrTerminal;
          reason = (if terminal then phase @ ''Failed'' else phase @ ''FailedRetrying'');
          conds1 = setStatusCondition (mr_lib r) (hm_conditions m)
                     (readyCondition ConditionFalse reason (ErrText cause) m);
          conds = (if terminal then setStatusCondition (mr_lib r) conds1
                     \<lparr>c_type = ProvisioningFailedCondition, c_status = ConditionTrue,
                      c_reason = reason, c_message = ErrText cause,
                      c_observedGeneration = om_generation (hm_meta m)\<rparr>
                   else conds1)
      in case patchStatus r ''recording failure'' m (m\<lparr>hm_conditions := conds\<rparr>) s of
           (Some e, m', s') \<Rightarrow> (Some e, m', s')
         | (None, m', s') \<Rightarrow>
             (None, m', s'\<lparr>env_metrics := env_metrics s' @ [MachineFailure phase (ClassifyOutcome (Some cause))]\<rparr>))"

section \<open>Creating\<close>

definition recordPlacement ::
  "('k, 'b) HydraMachineReconciler \<Rightarrow> HydraMachine \<Rightarrow> string \<Rightarrow> string \<Rightarrow> ('k, 'b) env
    \<Rightarrow> (goerr + string) \<times> HydraMachine \<times> ('k, 'b) env" where
  "recordPlacement r m pool hypervisor s =
     (let recordedPool = annotation m StoragePoolAnnotation;
          writePool = (recordedPool = [] \<and> pool \<noteq> []);
          writeHypervisor = (hypervisor \<noteq> [] \<and> annotation m HypervisorAnnotation = []);
          pool = (if recordedPool \<noteq> [] then recordedPool else pool)
      in if \<not> writePool \<and> \<not> writeHypervisor then (Inr pool, m, s)
         else
           let as = om_annotations (hm_meta m);
               as1 = (if writePool then as(StoragePoolAnnotation \<mapsto> pool) else as);
               as2 = (if writeHypervisor then as1(HypervisorAnnotation \<mapsto> hypervisor) else as1);
               m1 = m\<lparr>hm_meta := (hm_meta m)\<lparr>om_annotations := as2\<rparr>\<rparr>
           in (case patchObject r True ''recording storage pool and hypervisor'' [pool, hypervisor] m m1 s of
                 (Some e, m2, s') \<Rightarrow> (Inl e, m2, s')
               | (None, m2, s') \<Rightarrow> (Inr pool, m2, s')))"

definition machineIDFor :: "string \<Rightarrow> string \<Rightarrow> goerr + string" where
  "machineIDFor provName providerID =
     (case ParseProviderID providerID of
        Inl e \<Rightarrow> Inl (marked ErrTerminal ''stored providerID is malformed'' [providerID])
      | Inr (backend, ident) \<Rightarrow>
          if backend \<noteq> provName
          then Inl (marked ErrTerminal ''providerID belongs to another backend'' [providerID, backend, provName])
          else Inr ident)"

definition verifyOwnership :: "HydraMachine \<Rightarrow> MachineState \<Rightarrow> goerr option" where
  "verifyOwnership m state =
     (if st_name state \<noteq> backendName m
      then Some (marked ErrTerminal ''providerID resolves to a machine not owned by this HydraMachine''
                   [st_name state, backendName m])
      else None)"

text \<open>The branch of \<^verbatim>\<open>ensureMachine\<close> for a machine whose providerID is recorded.\<close>

definition observeMachine ::
  "'b MachineProvider \<Rightarrow> HydraMachine \<Rightarrow> 'b \<Rightarrow> (goerr + MachineState) \<times> 'b" where
  "observeMachine prov m b =
     (case machineIDFor (prov_name prov) (providerIDOf m) of
        Inl e \<Rightarrow> (Inl e, b)
      | Inr ident \<Rightarrow>
          (case prov_get prov ident b of
             (Inl e, b1) \<Rightarrow>
               (if errorsIs e ErrInvalidID
                then Inl (marked ErrTerminal ''recorded providerID is not usable by the backend''
                       [providerIDOf m, prov_name prov])
                else if errorsIs e ErrNotFound
                then Inl (marked ErrTerminal ''backing machine no longer exists; the HydraMachine must be replaced'' [ident])
                else Inl (WrapErr ''querying machine'' [ident] e), b1)
           | (Inr state, b1) \<Rightarrow>
               (case verifyOwnership m state of
                  Some e \<Rightarrow> (Inl e, b1)
                | None \<Rightarrow> (Inr state, b1))))"

text \<open>The end of \<^verbatim>\<open>ensureMachine\<close>: Create, then the patch that records its id.\<close>

definition createAndRecord ::
  "('k, 'b) HydraMachineReconciler \<Rightarrow> 'b MachineProvider \<Rightarrow> HydraMachine \<Rightarrow> MachineSpec \<Rightarrow> string
    \<Rightarrow> ('k, 'b) env \<Rightarrow> (goerr + MachineState) \<times> HydraMachine \<times> ('k, 'b) env" where
  "createAndRecord r prov m spec note s =
     (case prov_create prov spec (env_backend s) of
        (Inl e, b) \<Rightarrow> (Inl (WrapErr ''creating machine'' [note] e), m, s\<lparr>env_backend := b\<rparr>)
      | (Inr state, b) \<Rightarrow>
          let pid = ProviderID (prov_name prov) (st_id state) in
          (case patchObject r False ''recording providerID'' [pid] m (m\<lparr>hm_providerID := Some pid\<rparr>)
                  (s\<lparr>env_backend := b\<rparr>) of
             (Some e, m', s') \<Rightarrow> (Inl e, m', s')
           | (None, m', s') \<Rightarrow> (Inr state, m', s')))"

text \<open>The gates of a real create, in order: the cluster, the bootstrap data, the spec.\<close>

definition createSpec ::
  "('k, 'b) HydraMachineReconciler \<Rightarrow> HydraMachine \<Rightarrow> linkage \<Rightarrow> 'k \<Rightarrow> goerr + MachineSpec" where
  "createSpec r m link k =
     (case clusterReadyForCreate (mr_lib r) link of
        Some e \<Rightarrow> Inl e
      | None \<Rightarrow> (case bootstrapDataFor (mr_apiReader r) link k of
          Inl e \<Rightarrow> Inl e
        | Inr bootstrapData \<Rightarrow> specFor (mr_lib r) m link bootstrapData))"

definition recordedNote :: "string \<Rightarrow> string \<Rightarrow> string" where
  "recordedNote pool resolved = (if pool \<noteq> resolved
     then '' (building in storage pool '' @ quoted pool @ '' recorded in annotation ''
          @ StoragePoolAnnotation @ ''; the cluster now resolves '' @ quoted resolved @ '')''
     else [])"

definition ensureMachine ::
  "('k, 'b) HydraMachineReconciler \<Rightarrow> 'b MachineProvider \<Rightarrow> HydraMachine \<Rightarrow> linkage \<Rightarrow> string
    \<Rightarrow> ('k, 'b) env \<Rightarrow> (goerr + MachineState) \<times> HydraMachine \<times> ('k, 'b) env" where
  "ensureMachine r prov m link placement s =
     (if providerIDOf m \<noteq> [] then
        (case observeMachine prov m (env_backend s) of (res, b) \<Rightarrow> (res, m, s\<lparr>env_backend := b\<rparr>))
      else (case prov_findByName prov (backendName m) (env_backend s) of
          (Inr _, b) \<Rightarrow>
            let s1 = s\<lparr>env_backend := b\<rparr> in
            (case recordPlacement r m [] placement s1 of
               (Inl e, m1, s2) \<Rightarrow> (Inl e, m1, s2)
             | (Inr _, m1, s2) \<Rightarrow> createAndRecord r prov m1 (nameOnlySpec (backendName m)) [] s2)
        | (Inl findErr, b) \<Rightarrow>
            let s1 = s\<lparr>env_backend := b\<rparr> in
            if errorsIs findErr ErrNotFound then
              (case createSpec r m link (env_kube s1) of
                 Inl e \<Rightarrow> (Inl e, m, s1)
               | Inr spec \<Rightarrow>
                   let resolved = prov_storagePoolFor prov (ms_storagePool spec) in
                   (case recordPlacement r m resolved placement s1 of
                      (Inl e, m1, s2) \<Rightarrow> (Inl e, m1, s2)
                    | (Inr pool, m1, s2) \<Rightarrow>
                        createAndRecord r prov m1
                          (if pool \<noteq> [] then spec\<lparr>ms_storagePool := pool\<rparr> else spec)
                          (recordedNote pool resolved) s2))
            else (Inl (WrapErr ''searching for an existing machine'' [] findErr), m, s1)))"

section \<open>Reconciling\<close>

text \<open>\<^verbatim>\<open>recordError\<close> and \<^verbatim>\<open>recordWaiting\<close> as the callers use them: a failure to record replaces the error.\<close>

definition failWith ::
  "('k, 'b) HydraMachineReconciler \<Rightarrow> HydraMachine \<Rightarrow> string \<Rightarrow> goerr \<Rightarrow> goerr \<Rightarrow> ('k, 'b) env
    \<Rightarrow> (Result \<times> goerr option) \<times> ('k, 'b) env" where
  "failWith r m phase cause returned s =
     (case recordError r m phase cause s of
        (Some statusErr, _, s') \<Rightarrow> ((0, Some statusErr), s')
      | (None, _, s') \<Rightarrow> ((0, Some returned), s'))"

definition waitWith ::
  "('k, 'b) HydraMachineReconciler \<Rightarrow> HydraMachine \<Rightarrow> string \<Rightarrow> goerr \<Rightarrow> ('k, 'b) env
    \<Rightarrow> (Result \<times> goerr option) \<times> ('k, 'b) env" where
  "waitWith r m reason cause s =
     (case recordWaiting r m reason cause s of
        (Some statusErr, _, s') \<Rightarrow> ((0, Some statusErr), s')
      | (None, _, s') \<Rightarrow> ((requeueWhileProvisioning, None), s'))"

definition reconcileReady ::
  "('k, 'b) HydraMachineReconciler \<Rightarrow> 'b MachineProvider \<Rightarrow> HydraMachine \<Rightarrow> linkage \<Rightarrow> string
    \<Rightarrow> ('k, 'b) env \<Rightarrow> (Result \<times> goerr option) \<times> ('k, 'b) env" where
  "reconcileReady r prov m link placement s =
     (case ensureMachine r prov m link placement s of
        (Inl e, m1, s1) \<Rightarrow>
          (let reason = waitReasonFor (Some e) in
           if reason \<noteq> [] then waitWith r m1 reason e s1
           else failWith r m1 ''Provisioning'' e e s1)
      | (Inr state, m1, s1) \<Rightarrow>
          (case updateStatus r m1 state s1 of
             (Some e, m2, s2) \<Rightarrow> ((0, Some e), s2)
           | (None, m2, s2) \<Rightarrow>
               ((if \<not> st_ready state \<or> \<not> hasIPAddress (st_addresses state)
                 then requeueWhileProvisioning else requeueWhileHealthy, None), s2)))"

definition reconcileNormal ::
  "('k, 'b) HydraMachineReconciler \<Rightarrow> 'b MachineProvider \<Rightarrow> HydraMachine \<Rightarrow> linkage \<Rightarrow> string
    \<Rightarrow> ('k, 'b) env \<Rightarrow> (Result \<times> goerr option) \<times> ('k, 'b) env" where
  "reconcileNormal r prov m link placement s =
     (if containsFinalizer (mr_lib r) (om_finalizers (hm_meta m)) MachineFinalizer
      then reconcileReady r prov m link placement s
      else
        let m1 = m\<lparr>hm_meta := (hm_meta m)\<lparr>om_finalizers :=
               addFinalizer (mr_lib r) (om_finalizers (hm_meta m)) MachineFinalizer\<rparr>\<rparr>
        in (case patchObject r False ''adding finalizer'' [] m m1 s of
              (Some e, _, s1) \<Rightarrow> ((0, Some e), s1)
            | (None, m2, s1) \<Rightarrow> reconcileReady r prov m2 link placement s1))"

definition findUnrecorded ::
  "'b MachineProvider \<Rightarrow> HydraMachine \<Rightarrow> 'b \<Rightarrow> (goerr + string) \<times> 'b" where
  "findUnrecorded prov m b =
     (case prov_findByName prov (backendName m) b of
        (Inl e, b1) \<Rightarrow>
          (if errorsIs e ErrNotFound then Inr []
           else Inl (WrapErr ''searching for an unrecorded machine'' [] e), b1)
      | (Inr state, b1) \<Rightarrow> (Inr (st_id state), b1))"

definition deletionTargetFor ::
  "'b MachineProvider \<Rightarrow> HydraMachine \<Rightarrow> 'b \<Rightarrow> (goerr + string) \<times> 'b" where
  "deletionTargetFor prov m b =
     (if providerIDOf m = [] then findUnrecorded prov m b
      else case machineIDFor (prov_name prov) (providerIDOf m) of
          Inl e \<Rightarrow> findUnrecorded prov m b
        | Inr ident \<Rightarrow>
            (case prov_get prov ident b of
               (Inr state, b1) \<Rightarrow>
                 (case verifyOwnership m state of
                    Some e \<Rightarrow> (Inl e, b1)
                  | None \<Rightarrow> (Inr ident, b1))
             | (Inl e, b1) \<Rightarrow>
                 if errorsIs e ErrNotFound \<or> errorsIs e ErrInvalidID then findUnrecorded prov m b1
                 else (Inl (WrapErr ''confirming ownership before deletion'' [] e), b1)))"

text \<open>The end of \<^verbatim>\<open>reconcileDelete\<close>: the sweep by name, then the finalizer, then the connection.\<close>

definition finishDelete ::
  "('k, 'b) HydraMachineReconciler \<Rightarrow> 'b MachineProvider \<Rightarrow> HydraMachine \<Rightarrow> linkage \<Rightarrow> ('k, 'b) env
    \<Rightarrow> (Result \<times> goerr option) \<times> ('k, 'b) env" where
  "finishDelete r prov m link s =
     (case prov_deleteByName prov (backendName m) (storagePoolOf m link) (env_backend s) of
        (Some e, b) \<Rightarrow> failWith r m ''Deleting'' e
           (WrapErr ''removing residual resources'' [backendName m] e) (s\<lparr>env_backend := b\<rparr>)
      | (None, b) \<Rightarrow>
          let s1 = s\<lparr>env_backend := b\<rparr>;
              m1 = m\<lparr>hm_meta := (hm_meta m)\<lparr>om_finalizers :=
                removeFinalizer (mr_lib r) (om_finalizers (hm_meta m)) MachineFinalizer\<rparr>\<rparr>
          in (case patchObject r False ''removing finalizer'' [] m m1 s1 of
                (Some e, _, s2) \<Rightarrow> ((0, Some e), s2)
              | (None, m2, s2) \<Rightarrow> ((0, None), release r (machineOwner (objectKey (hm_meta m2))) s2)))"

definition reconcileDelete ::
  "('k, 'b) HydraMachineReconciler \<Rightarrow> 'b MachineProvider \<Rightarrow> HydraMachine \<Rightarrow> linkage \<Rightarrow> ('k, 'b) env
    \<Rightarrow> (Result \<times> goerr option) \<times> ('k, 'b) env" where
  "reconcileDelete r prov m link s =
     (if \<not> containsFinalizer (mr_lib r) (om_finalizers (hm_meta m)) MachineFinalizer then ((0, None), s)
      else case deletionTargetFor prov m (env_backend s) of
          (Inl e, b) \<Rightarrow> failWith r m ''Deleting'' e e (s\<lparr>env_backend := b\<rparr>)
        | (Inr ident, b) \<Rightarrow>
            if ident = [] then finishDelete r prov m link (s\<lparr>env_backend := b\<rparr>)
            else (case prov_delete prov ident b of
                (Some e, b1) \<Rightarrow> failWith r m ''Deleting'' e
                   (WrapErr ''deleting machine'' [ident] e) (s\<lparr>env_backend := b1\<rparr>)
              | (None, b1) \<Rightarrow> finishDelete r prov m link (s\<lparr>env_backend := b1\<rparr>)))"

text \<open>The part of \<^verbatim>\<open>Reconcile\<close> after the pause check.\<close>

definition reconcileActive ::
  "('k, 'b) HydraMachineReconciler \<Rightarrow> HydraMachine \<Rightarrow> linkage \<Rightarrow> ('k, 'b) env
    \<Rightarrow> (Result \<times> goerr option) \<times> ('k, 'b) env" where
  "reconcileActive r m link s =
     (case (case placementFor m link of
              Inl e \<Rightarrow> (Inl e, s)
            | Inr placement \<Rightarrow> (case provider r m link placement s of
                (Inl e, s1) \<Rightarrow> (Inl e, s1)
              | (Inr prov, s1) \<Rightarrow> (Inr (placement, prov), s1))) of
        (Inl e, s1) \<Rightarrow>
          (let reason = waitReasonFor (Some e) in
           if reason \<noteq> [] then waitWith r m reason e s1
           else failWith r m (if deleting m then ''Deleting'' else ''Provisioning'') e e s1)
      | (Inr (placement, prov), s1) \<Rightarrow>
          if deleting m then reconcileDelete r prov m link s1
          else reconcileNormal r prov m link placement s1)"

definition Reconcile ::
  "('k, 'b) HydraMachineReconciler \<Rightarrow> NamespacedName \<Rightarrow> ('k, 'b) env
    \<Rightarrow> (Result \<times> goerr option) \<times> ('k, 'b) env" where
  "Reconcile r req s =
     (case getHydraMachine (mr_client r) req (env_kube s) of
        Inl e \<Rightarrow> ((0, ignoreNotFound e), if apiIsNotFound e then release r (machineOwner req) s else s)
      | Inr m \<Rightarrow>
          (case resolveLinkage (mr_client r) m (env_kube s) of
             Inl e \<Rightarrow> failWith r m ''Provisioning'' e e s
           | Inr link0 \<Rightarrow>
               (case withClusterByLabelForDeletion (mr_client r) m link0 (env_kube s) of
                  Inl e \<Rightarrow> failWith r m ''Deleting'' e e s
                | Inr link \<Rightarrow>
                    let reason = pausedReason (om_annotations (hm_meta m)) (lk_cluster link) in
                    if reason \<noteq> [] then
                      (case setPaused r m reason s of (e, _, s1) \<Rightarrow> ((0, e), s1))
                    else (case setPaused r m [] s of
                        (Some e, _, s1) \<Rightarrow> ((0, Some e), s1)
                      | (None, m1, s1) \<Rightarrow> reconcileActive r m1 link s1))))"

end
