(* ===== verification/Libvirt_Uuid.thy ===== *)
theory Libvirt_Uuid
  imports Provider_Api Sha256
begin

text \<open>
  The machine ids of the libvirt backend, from \<^verbatim>\<open>internal/providers/libvirt/xml.go\<close>: a domain's
  sixteen-byte UUID, printed with hyphens and read back. The reader also takes other spellings of a
  UUID; \<open>canonID\<close> is the spelling a backend reports, which the contract of the backends needs.
\<close>

section \<open>Definitions\<close>

type_synonym UUID = "byte list"

definition formatUUID :: "UUID \<Rightarrow> string" where
  "formatUUID u = (let h = hexEncode u in
     take 8 h @ ''-'' @ take 4 (drop 8 h) @ ''-'' @ take 4 (drop 12 h) @ ''-'' @ take 4 (drop 16 h)
     @ ''-'' @ take 12 (drop 20 h))"

definition parseUUID :: "string \<Rightarrow> goerr + UUID" where
  "parseUUID s = (let stripped = filter (\<lambda>c. c \<noteq> CHR ''-'') s in
     if length stripped \<noteq> 32 then Inl (NewErr ''machine id is not a UUID'' [s])
     else case hexDecode stripped of
         None \<Rightarrow> Inl (NewErr ''machine id is not a UUID'' [s])
       | Some raw \<Rightarrow> Inr raw)"

definition canonID :: "string \<Rightarrow> string" where
  "canonID i = (case parseUUID i of Inr u \<Rightarrow> formatUUID u | Inl _ \<Rightarrow> i)"

section \<open>Facts\<close>

definition lowerChar :: "char \<Rightarrow> char" where
  "lowerChar c = (let n = (of_char c :: nat) in if 65 \<le> n \<and> n \<le> 90 then char_of (n + 32) else c)"

lemma lowerChar_nat:
  "(of_char (lowerChar c) :: nat) = (if 65 \<le> (of_char c :: nat) \<and> (of_char c :: nat) \<le> 90 then of_char c + 32 else of_char c)"
  by (simp add: lowerChar_def Let_def)

lemma hexDigits_nat: "k < 16 \<Longrightarrow> (of_char (hexDigits ! k) :: nat) = (if k < 10 then 48 + k else 87 + k)"
proof -
  assume "k < 16"
  then have "k \<in> set [0..<16]" by simp
  moreover have "\<forall>k \<in> set [0..<16]. (of_char (hexDigits ! k) :: nat) = (if k < 10 then 48 + k else 87 + k)" by code_simp
  ultimately show ?thesis by blast
qed

lemma hexValue_exact: "hexValue c = Some n \<longleftrightarrow> n < 16 \<and> lowerChar c = hexDigits ! n"
proof -
  have "lowerChar c = hexDigits ! n \<longleftrightarrow> (of_char (lowerChar c) :: nat) = of_char (hexDigits ! n)" by simp
  then show ?thesis
    by (cases "n < 16") (auto simp: hexValue_def Let_def lowerChar_nat hexDigits_nat split: if_splits)
qed

lemma hexDecode_exact: "hexDecode s = Some bs \<longleftrightarrow> map lowerChar s = hexEncode bs"
proof (induction s arbitrary: bs rule: hexDecode.induct)
  case 1
  show ?case by (cases bs) (auto simp: hexEncode_def hexByte_def)
next
  case (2 c)
  show ?case by (cases bs) (auto simp: hexEncode_def hexByte_def)
next
  case (3 c d cs)
  show ?case
  proof (cases bs)
    case Nil
    then show ?thesis by (auto simp: hexEncode_def split: option.splits)
  next
    case (Cons b bs')
    have b: "of_nat (16 * x + y) = b \<longleftrightarrow> x = unat b div 16 \<and> y = unat b mod 16" if "x < 16" "y < 16" for x y
    proof
      assume "of_nat (16 * x + y) = b"
      then have "unat b = (16 * x + y) mod 2 ^ LENGTH(8)" using unat_of_nat [of "16 * x + y", where 'a = 8] by blast
      then have "unat b = 16 * x + y" using that by simp
      with that show "x = unat b div 16 \<and> y = unat b mod 16" by simp
    next
      assume "x = unat b div 16 \<and> y = unat b mod 16"
      then show "of_nat (16 * x + y) = b" by (simp only: mult_div_mod_eq) simp
    qed
    have "hexDecode (c # d # cs) = Some bs \<longleftrightarrow> (\<exists>x y. hexValue c = Some x \<and> hexValue d = Some y \<and> of_nat (16 * x + y) = b \<and> hexDecode cs = Some bs')"
      unfolding Cons by (auto split: option.splits)
    also have "\<dots> \<longleftrightarrow> hexValue c = Some (unat b div 16) \<and> hexValue d = Some (unat b mod 16) \<and> hexDecode cs = Some bs'"
      using b hexValue_exact unat_byte_bounds by (metis (no_types, lifting))
    also have "\<dots> \<longleftrightarrow> map lowerChar (c # d # cs) = hexEncode bs"
      using 3 unat_byte_bounds [of b] unfolding hexValue_exact Cons by (auto simp: hexEncode_def hexByte_def)
    finally show ?thesis .
  qed
qed

lemma hyphen_not_hex: "CHR ''-'' \<notin> set (hexEncode bs)"
  using set_hexEncode [of bs] by (auto simp: hexDigits_def)

lemma formatUUID_strip: "length u = 16 \<Longrightarrow> filter (\<lambda>c. c \<noteq> CHR ''-'') (formatUUID u) = hexEncode u"
proof -
  assume u: "length u = 16"
  let ?h = "hexEncode u"
  have "filter (\<lambda>c. c \<noteq> CHR ''-'') (take k (drop j ?h)) = take k (drop j ?h)" for k j
    using hyphen_not_hex [of u] by (intro filter_True) (auto dest: in_set_takeD in_set_dropD)
  note f = this [of _ 0, simplified] this
  have "filter (\<lambda>c. c \<noteq> CHR ''-'') (formatUUID u)
      = take 8 ?h @ take 4 (drop 8 ?h) @ take 4 (drop 12 ?h) @ take 4 (drop 16 ?h) @ take 12 (drop 20 ?h)"
    by (simp add: formatUUID_def Let_def f)
  also have "take 12 (drop 20 ?h) = drop 20 ?h" using u by simp
  also have "take 4 (drop 16 ?h) @ drop 20 ?h = drop 16 ?h" using append_take_drop_id [of 4 "drop 16 ?h"] by simp
  also have "take 4 (drop 12 ?h) @ drop 16 ?h = drop 12 ?h" using append_take_drop_id [of 4 "drop 12 ?h"] by simp
  also have "take 4 (drop 8 ?h) @ drop 12 ?h = drop 8 ?h" using append_take_drop_id [of 4 "drop 8 ?h"] by simp
  finally show ?thesis by simp
qed

lemma parseUUID_exact:
  "parseUUID s = Inr u \<longleftrightarrow> length u = 16 \<and> map lowerChar (filter (\<lambda>c. c \<noteq> CHR ''-'') s) = hexEncode u"
proof -
  have "length (filter (\<lambda>c. c \<noteq> CHR ''-'') s) = 32 \<longleftrightarrow> length u = 16" if "map lowerChar (filter (\<lambda>c. c \<noteq> CHR ''-'') s) = hexEncode u"
    using arg_cong [OF that, of length] by simp
  then show ?thesis unfolding parseUUID_def Let_def
    using hexDecode_exact [of "filter (\<lambda>c. c \<noteq> CHR ''-'') s" u] by (auto split: option.splits)
qed

lemma lowerChar_hex: "map lowerChar (hexEncode u) = hexEncode u"
proof -
  have "hexDecode (hexEncode u) = Some u" by simp
  then show ?thesis unfolding hexDecode_exact .
qed

lemma parseUUID_formatUUID [simp]: "length u = 16 \<Longrightarrow> parseUUID (formatUUID u) = Inr u"
  by (simp add: parseUUID_exact formatUUID_strip lowerChar_hex)

lemma parseUUID_length: "parseUUID s = Inr u \<Longrightarrow> length u = 16"
  by (simp add: parseUUID_exact)

lemma canonID_idem [simp]: "canonID (canonID i) = canonID i"
  by (auto simp: canonID_def dest: parseUUID_length split: sum.splits)

lemma canonID_formatUUID [simp]: "length u = 16 \<Longrightarrow> canonID (formatUUID u) = formatUUID u"
  by (simp add: canonID_def)

lemma formatUUID_inj: "length u = 16 \<Longrightarrow> length v = 16 \<Longrightarrow> formatUUID u = formatUUID v \<Longrightarrow> u = v"
  by (metis parseUUID_formatUUID sum.inject(2))

lemma formatUUID_nonempty [simp]: "formatUUID u \<noteq> []"
  by (simp add: formatUUID_def Let_def)

text \<open>A character that is no hexadecimal digit makes it no UUID.\<close>

lemma parseUUID_none:
  assumes "c \<in> set s" "c \<noteq> CHR ''-''" "hexValue c = None"
  shows "\<exists>e. parseUUID s = Inl e"
proof (cases "parseUUID s")
  case (Inr u)
  have "lowerChar c \<in> set (map lowerChar (filter (\<lambda>c. c \<noteq> CHR ''-'') s))" using assms(1,2) by simp
  then have "lowerChar c \<in> set (hexEncode u)" using Inr unfolding parseUUID_exact by (metis (no_types, lifting))
  then obtain n where "n < 16" "lowerChar c = hexDigits ! n" using set_hexEncode [of u] by (metis in_set_conv_nth length_hexDigits subsetD)
  with hexValue_exact [of c n] assms(3) show ?thesis by simp
qed simp

end
