(* ===== verification/Provider_Contract.thy ===== *)
theory Provider_Contract
  imports Libvirt_Uuid
begin

text \<open>
  What \<^verbatim>\<open>MachineProvider\<close> promises, from the comments of the interface in
  \<^verbatim>\<open>internal/providers/provider.go\<close>, as a locale over the operations. The view \<open>vm\<close> gives
  the machines of a backend state, from name to id; \<open>rest\<close> is everything no operation may touch,
  the machines of other hypervisors in particular. An operation that fails may have happened in
  part, so the laws of failures only bound what changed. A backend may take other spellings of an
  id; \<open>canonID\<close> is the one it reports.

  The laws are discharged for the in-memory backend in \<open>Fake_Provider\<close>; the machine reconciler's
  proofs use only them.
\<close>

section \<open>The contract\<close>

locale machine_provider =
  fixes prov :: "'b MachineProvider"
    and inv :: "'b \<Rightarrow> bool"
    and vm :: "'b \<Rightarrow> string \<rightharpoonup> string"
    and rest :: "'b \<Rightarrow> 'r"
  assumes create_ok: "inv b \<Longrightarrow> prov_create prov spec b = (Inr st, b') \<Longrightarrow>
      inv b' \<and> rest b' = rest b \<and> st_name st = ms_name spec
      \<and> vm b' = (vm b)(ms_name spec \<mapsto> st_id st) \<and> (vm b (ms_name spec) \<in> {None, Some (st_id st)})"
    and create_err: "inv b \<Longrightarrow> prov_create prov spec b = (Inl e, b') \<Longrightarrow>
      inv b' \<and> rest b' = rest b \<and> (\<forall>n. n \<noteq> ms_name spec \<longrightarrow> vm b' n = vm b n)
      \<and> (vm b (ms_name spec) \<noteq> None \<longrightarrow> vm b' (ms_name spec) = vm b (ms_name spec))"
    and get_ok: "inv b \<Longrightarrow> prov_get prov i b = (Inr st, b') \<Longrightarrow>
      inv b' \<and> rest b' = rest b \<and> vm b' = vm b \<and> st_id st = canonID i \<and> vm b (st_name st) = Some (canonID i)"
    and get_err: "inv b \<Longrightarrow> prov_get prov i b = (Inl e, b') \<Longrightarrow>
      inv b' \<and> rest b' = rest b \<and> vm b' = vm b \<and> (errorsIs e ErrNotFound \<longrightarrow> canonID i \<notin> ran (vm b))"
    and find_ok: "inv b \<Longrightarrow> prov_findByName prov n b = (Inr st, b') \<Longrightarrow>
      inv b' \<and> rest b' = rest b \<and> vm b' = vm b \<and> st_name st = n \<and> vm b n = Some (st_id st)"
    and find_err: "inv b \<Longrightarrow> prov_findByName prov n b = (Inl e, b') \<Longrightarrow>
      inv b' \<and> rest b' = rest b \<and> vm b' = vm b \<and> (errorsIs e ErrNotFound \<longrightarrow> vm b n = None)"
    and delete_frame: "inv b \<Longrightarrow> prov_delete prov i b = (res, b') \<Longrightarrow>
      inv b' \<and> rest b' = rest b \<and> vm b' \<subseteq>\<^sub>m vm b \<and> (\<forall>n. vm b n \<noteq> Some (canonID i) \<longrightarrow> vm b' n = vm b n)"
    and delete_ok: "inv b \<Longrightarrow> prov_delete prov i b = (None, b') \<Longrightarrow> canonID i \<notin> ran (vm b')"
    and deleteByName_frame: "inv b \<Longrightarrow> prov_deleteByName prov n pool b = (res, b') \<Longrightarrow>
      inv b' \<and> rest b' = rest b \<and> vm b' \<subseteq>\<^sub>m vm b \<and> (\<forall>n'. n' \<noteq> n \<longrightarrow> vm b' n' = vm b n')"
    and deleteByName_ok: "inv b \<Longrightarrow> prov_deleteByName prov n pool b = (None, b') \<Longrightarrow> vm b' n = None"
    and ensure_frame: "inv b \<Longrightarrow> prov_ensureInfrastructure prov ispec b = (res, b') \<Longrightarrow>
      inv b' \<and> rest b' = rest b \<and> vm b' = vm b"
    and ids_distinct: "inv b \<Longrightarrow> inj_on (vm b) (dom (vm b))"
    and ids_nonempty: "inv b \<Longrightarrow> [] \<notin> ran (vm b)"
    and ids_canonical: "inv b \<Longrightarrow> i \<in> ran (vm b) \<Longrightarrow> canonID i = i"
    and name_plain: "prov_name prov \<noteq> [] \<and> CHR ''/'' \<notin> set (prov_name prov)"
begin

lemma create_frame:
  assumes "inv b" "prov_create prov spec b = (res, b')"
  shows "inv b' \<and> rest b' = rest b \<and> (\<forall>n. n \<noteq> ms_name spec \<longrightarrow> vm b' n = vm b n)"
proof (cases res)
  case (Inl e)
  then show ?thesis using create_err [OF assms(1)] assms(2) by blast
next
  case (Inr st)
  then show ?thesis using create_ok [OF assms(1)] assms(2) by simp
qed

lemma get_frame:
  assumes "inv b" "prov_get prov i b = (res, b')"
  shows "inv b' \<and> rest b' = rest b \<and> vm b' = vm b"
  using get_ok [OF assms(1)] get_err [OF assms(1)] assms(2) by (cases res) blast+

lemma find_frame:
  assumes "inv b" "prov_findByName prov n b = (res, b')"
  shows "inv b' \<and> rest b' = rest b \<and> vm b' = vm b"
  using find_ok [OF assms(1)] find_err [OF assms(1)] assms(2) by (cases res) blast+

text \<open>
  The crash window: a machine whose id was never recorded is found again by its name, and a second
  create, from a spec that has nothing but the name, answers with the same machine.
\<close>

lemma recovery:
  assumes "inv b" "prov_create prov spec b = (Inr st, b1)"
  shows "prov_findByName prov (ms_name spec) b1 = (Inr st1, b2) \<Longrightarrow> st_id st1 = st_id st \<and> vm b2 = vm b1"
    and "prov_findByName prov (ms_name spec) b1 = (Inl e, b2) \<Longrightarrow> \<not> errorsIs e ErrNotFound"
    and "prov_create prov (nameOnlySpec (ms_name spec)) b1 = (Inr st2, b3) \<Longrightarrow>
         st_id st2 = st_id st \<and> vm b3 = vm b1"
proof -
  have 1: "inv b1" "vm b1 (ms_name spec) = Some (st_id st)"
    using create_ok [OF assms] by auto
  show "st_id st1 = st_id st \<and> vm b2 = vm b1" if "prov_findByName prov (ms_name spec) b1 = (Inr st1, b2)"
    using find_ok [OF 1(1) that] 1(2) by auto
  show "\<not> errorsIs e ErrNotFound" if "prov_findByName prov (ms_name spec) b1 = (Inl e, b2)"
    using find_err [OF 1(1) that] 1(2) by auto
  show "st_id st2 = st_id st \<and> vm b3 = vm b1" if "prov_create prov (nameOnlySpec (ms_name spec)) b1 = (Inr st2, b3)"
    using create_ok [OF 1(1) that] 1(2) by (auto simp: fun_upd_idem)
qed

text \<open>Deleting what \<^verbatim>\<open>Get\<close> showed removes that machine and nothing else.\<close>

lemma get_delete_only:
  assumes "inv b" "prov_get prov i b = (Inr st, b1)" "prov_delete prov i b1 = (res, b2)"
  shows "inv b2 \<and> rest b2 = rest b \<and> (\<forall>n. n \<noteq> st_name st \<longrightarrow> vm b2 n = vm b n)"
proof -
  note g = get_ok [OF assms(1,2)]
  then have i1: "inv b1" by blast
  note d = delete_frame [OF i1 assms(3)]
  have "vm b2 n = vm b n" if "n \<noteq> st_name st" for n
  proof -
    have "vm b n \<noteq> Some (canonID i)"
      using that g ids_distinct [OF assms(1)] by (auto simp: inj_on_def dom_def)
    with g d show ?thesis by simp
  qed
  with g d show ?thesis by auto
qed

end

end
