(* ===== verification/Machine_World.thy ===== *)
theory Machine_World
  imports Machine_Controller Provider_Contract
begin

text \<open>
  What the machine reconciler runs against, as interfaces, and its safety proved over them: every
  machine on a hypervisor stays tied to an object that holds the finalizer and records an address of
  that hypervisor, whatever call fails, and a reconcile touches no other machine and no other object.

  \<open>api_server\<close> is the API server's promise for the writes of this reconciler: a patch of an object
  that was read as it is stored changes it to what was sent, or fails having done so or not; a
  status patch changes nothing else. \<open>fleet\<close> is the promise of whatever holds the connections: it may
  fail, or give a provider for the hypervisor the address reaches, which keeps the contract of
  \<open>machine_provider\<close> there and touches no other. Addresses may be aliases of each other. Reads are taken as current, and nothing else writes the object during one reconcile.
\<close>

section \<open>The interfaces\<close>

text \<open>What a status write must keep of a HydraMachine.\<close>

definition core :: "HydraMachine \<Rightarrow> NamespacedName \<times> string \<times> (string \<rightharpoonup> string) \<times> (string \<rightharpoonup> string)
    \<times> string list \<times> bool \<times> string option" where
  "core m = (objectKey (hm_meta m), om_uid (hm_meta m), om_annotations (hm_meta m), om_labels (hm_meta m),
     om_finalizers (hm_meta m), om_deleting (hm_meta m), hm_providerID m)"

definition identity :: "HydraMachine \<Rightarrow> NamespacedName \<times> string \<times> (string \<rightharpoonup> string) \<times> bool" where
  "identity m = (objectKey (hm_meta m), om_uid (hm_meta m), om_labels (hm_meta m), om_deleting (hm_meta m))"

text \<open>An object that is being deleted goes when its last finalizer does.\<close>

definition gone :: "HydraMachine \<Rightarrow> bool" where
  "gone m \<longleftrightarrow> om_deleting (hm_meta m) \<and> om_finalizers (hm_meta m) = []"

definition applied :: "HydraMachine \<Rightarrow> HydraMachine option \<Rightarrow> bool" where
  "applied m v \<longleftrightarrow> (if gone m then v = None else \<exists>m'. v = Some m' \<and> core m' = core m)"

locale api_server =
  fixes c :: "'k kube" and stored :: "'k \<Rightarrow> NamespacedName \<Rightarrow> HydraMachine option"
  assumes get_stored: "getHydraMachine c key k = Inr m \<Longrightarrow> stored k key = Some m \<and> objectKey (hm_meta m) = key"
    and patch_ok: "\<lbrakk>stored k (objectKey (hm_meta base)) = Some cur; core cur = core base; identity m = identity base;
        patchHydraMachine c lock base m k = (Inr m', k')\<rbrakk> \<Longrightarrow>
      core m' = core m \<and> stored k' = (stored k)(objectKey (hm_meta m) := if gone m then None else Some m')"
    and patch_err: "\<lbrakk>stored k (objectKey (hm_meta base)) = Some cur; core cur = core base; identity m = identity base;
        patchHydraMachine c lock base m k = (Inl e, k')\<rbrakk> \<Longrightarrow>
      \<exists>v. stored k' = (stored k)(objectKey (hm_meta m) := v)
        \<and> (v = stored k (objectKey (hm_meta m)) \<or> applied m v)"
    and status_frame: "patchHydraMachineStatus c base m k = (res, k') \<Longrightarrow>
      map_option core (stored k' key) = map_option core (stored k key)"
    and status_ok: "patchHydraMachineStatus c base m k = (Inr m', k') \<Longrightarrow>
      stored k' (objectKey (hm_meta m)) = Some m'"
    and status_others: "patchHydraMachineStatus c base m k = (res, k') \<Longrightarrow> key \<noteq> objectKey (hm_meta m) \<Longrightarrow>
      stored k' key = stored k key"

definition hostOf :: "Hypervisor option \<Rightarrow> string" where
  "hostOf hv = (case hv of None \<Rightarrow> [] | Some h \<Rightarrow> hv_address h)"

text \<open>
  The same hypervisor may be reached under several addresses, and by the connection of the flags
  (the empty one) as well as by name: \<open>site\<close> says which hypervisor an address reaches. A provider acts
  on the machines of that one. Without a storage pool to make a machine in, it makes none.
\<close>

definition needsPool :: "'b MachineProvider \<Rightarrow> ('b \<Rightarrow> bool) \<Rightarrow> ('b \<Rightarrow> string \<rightharpoonup> string) \<Rightarrow> bool" where
  "needsPool p ok vm \<longleftrightarrow> (\<forall>spec b res b'. ok b \<longrightarrow> prov_storagePoolFor p (ms_storagePool spec) = [] \<longrightarrow>
     prov_create p spec b = (res, b') \<longrightarrow> vm b' = vm b)"

lemma needsPoolD:
  "needsPool p ok vm \<Longrightarrow> ok b \<Longrightarrow> prov_storagePoolFor p (ms_storagePool spec) = [] \<Longrightarrow>
   prov_create p spec b = (res, b') \<Longrightarrow> vm b' = vm b"
  by (simp add: needsPool_def)

definition elsewhere :: "('b \<Rightarrow> string \<Rightarrow> string \<rightharpoonup> string) \<Rightarrow> string \<Rightarrow> 'b \<Rightarrow> string \<Rightarrow> string \<rightharpoonup> string" where
  "elsewhere vms h b = (vms b)(h := Map.empty)"

locale fleet =
  fixes providerFor :: "Owner \<Rightarrow> Hypervisor option \<Rightarrow> 'b \<Rightarrow> (goerr + 'b MachineProvider) \<times> 'b"
    and releaseOwner :: "Owner \<Rightarrow> 'b \<Rightarrow> 'b"
    and inv :: "'b \<Rightarrow> bool"
    and vms :: "'b \<Rightarrow> string \<Rightarrow> string \<rightharpoonup> string"
    and site :: "string \<Rightarrow> string"
  assumes connect_frame: "inv b \<Longrightarrow> providerFor owner hv b = (res, b') \<Longrightarrow> inv b' \<and> vms b' = vms b"
    and connect_ok: "inv b \<Longrightarrow> providerFor owner hv b = (Inr p, b') \<Longrightarrow>
      machine_provider p inv (\<lambda>b. vms b (site (hostOf hv))) (elsewhere vms (site (hostOf hv)))
      \<and> needsPool p inv (\<lambda>b. vms b (site (hostOf hv)))"
    and release_frame: "inv b \<Longrightarrow> inv (releaseOwner owner b) \<and> vms (releaseOwner owner b) = vms b"

section \<open>Placement\<close>

text \<open>A machine records a host when every later operation on it goes there, whatever its cluster says.\<close>

definition recordsHost :: "HydraMachine \<Rightarrow> string \<Rightarrow> bool" where
  "recordsHost m h \<longleftrightarrow> annotation m HypervisorAnnotation = h \<and> (h \<noteq> [] \<or> mayBeMadeOnFlags m)"

lemma recordsHost_placement: "recordsHost m h \<Longrightarrow> placementFor m link = Inr h"
  by (auto simp: recordsHost_def placementFor_def Let_def)

lemma placementFor_recorded: "placementFor m link = Inr h \<Longrightarrow> annotation m HypervisorAnnotation \<in> {[], h}"
  by (auto simp: placementFor_def Let_def split: if_splits)

lemma placementFor_finalizers:
  "placementFor (m\<lparr>hm_meta := (hm_meta m)\<lparr>om_finalizers := fs\<rparr>\<rparr>) link = placementFor m link"
proof -
  have "mayBeMadeOnFlags (m\<lparr>hm_meta := (hm_meta m)\<lparr>om_finalizers := fs\<rparr>\<rparr>) = mayBeMadeOnFlags m"
    by (simp add: mayBeMadeOnFlags_def providerIDOf_def)
  then show ?thesis by (simp add: placementFor_def)
qed

text \<open>A machine is only ever reached at the hypervisor its placement names, never at another.\<close>

lemma hypervisorFor_host:
  assumes "hypervisorFor r link placement k = Inr hv"
  shows "hostOf hv = placement"
proof (cases "placement = []")
  case True
  with assms show ?thesis by (simp add: hypervisorFor_def hostOf_def)
next
  case False
  then obtain hc h where hc: "lk_hydraCluster link = Some hc" "hc_hypervisor hc = Some h"
    using assms by (auto simp: hypervisorFor_def split: option.splits bind_splits)
  with False assms have c: "canonicalHypervisor (hh_address h) = Inr placement"
    and o: "hypervisorOf (mr_lib r) (mr_apiReader r) (Some hc) k = Inr hv"
    by (auto simp: hypervisorFor_def split: if_splits sum.splits)
  from o hc(2) hypervisorOf_None [of "mr_lib r" "mr_apiReader r" "Some hc" k] obtain v where "hv = Some v"
    by (cases hv) auto
  with o hypervisorOf_address [of "mr_lib r" "mr_apiReader r" "Some hc" k v] hc(2) c show ?thesis
    by (auto simp: hostOf_def)
qed

section \<open>Tethers\<close>

text \<open>
  A machine named \<open>n\<close> on a hypervisor is tethered to the object at \<open>key\<close> when that object has the
  name's identity, holds the finalizer and records the hypervisor.
\<close>

definition anchored :: "lib \<Rightarrow> (string \<Rightarrow> string) \<Rightarrow> HydraMachine \<Rightarrow> string \<Rightarrow> bool" where
  "anchored L site m h \<longleftrightarrow> containsFinalizer L (om_finalizers (hm_meta m)) MachineFinalizer
     \<and> (\<exists>a. recordsHost m a \<and> site a = h)"

definition tethered ::
  "lib \<Rightarrow> (string \<Rightarrow> string) \<Rightarrow> ('k \<Rightarrow> NamespacedName \<Rightarrow> HydraMachine option) \<Rightarrow> ('b \<Rightarrow> string \<Rightarrow> string \<rightharpoonup> string)
    \<Rightarrow> NamespacedName \<Rightarrow> string \<Rightarrow> ('k, 'b) env \<Rightarrow> bool" where
  "tethered L site stored vms key n s \<longleftrightarrow>
     (\<forall>h. vms (env_backend s) h n \<noteq> None \<longrightarrow>
        (\<exists>m. stored (env_kube s) key = Some m \<and> backendName m = n \<and> anchored L site m h))"

text \<open>What a step on behalf of the object at \<open>key\<close> leaves alone: other names, other objects.\<close>

definition framed ::
  "('k \<Rightarrow> NamespacedName \<Rightarrow> HydraMachine option) \<Rightarrow> ('b \<Rightarrow> string \<Rightarrow> string \<rightharpoonup> string)
    \<Rightarrow> NamespacedName \<Rightarrow> string \<Rightarrow> ('k, 'b) env \<Rightarrow> ('k, 'b) env \<Rightarrow> bool" where
  "framed stored vms key n s s' \<longleftrightarrow>
     (\<forall>h n'. n' \<noteq> n \<longrightarrow> vms (env_backend s') h n' = vms (env_backend s) h n')
   \<and> (\<forall>key'. key' \<noteq> key \<longrightarrow> stored (env_kube s') key' = stored (env_kube s) key')"

definition statusOnly ::
  "('k \<Rightarrow> NamespacedName \<Rightarrow> HydraMachine option) \<Rightarrow> NamespacedName \<Rightarrow> ('k, 'b) env \<Rightarrow> ('k, 'b) env \<Rightarrow> bool" where
  "statusOnly stored key s s' \<longleftrightarrow> env_backend s' = env_backend s
     \<and> map_option core (stored (env_kube s') key) = map_option core (stored (env_kube s) key)
     \<and> (\<forall>key'. key' \<noteq> key \<longrightarrow> stored (env_kube s') key' = stored (env_kube s) key')"

text \<open>The local copy of an object is what the server has, as far as it matters here.\<close>

definition synced :: "('k \<Rightarrow> NamespacedName \<Rightarrow> HydraMachine option) \<Rightarrow> 'k \<Rightarrow> HydraMachine \<Rightarrow> bool" where
  "synced stored k m \<longleftrightarrow> (\<exists>cur. stored k (objectKey (hm_meta m)) = Some cur \<and> core cur = core m)"

lemma backendName_identity:
  "objectKey (hm_meta m) = objectKey (hm_meta m') \<Longrightarrow> om_uid (hm_meta m) = om_uid (hm_meta m') \<Longrightarrow>
   backendName m = backendName m'"
  by (simp add: backendName_def identityDigest_def objectKey_def)

lemma core_eqD:
  assumes "core m = core m'"
  shows "backendName m = backendName m'" "annotation m a = annotation m' a"
    "om_finalizers (hm_meta m) = om_finalizers (hm_meta m')" "providerIDOf m = providerIDOf m'"
    "objectKey (hm_meta m) = objectKey (hm_meta m')" "deleting m = deleting m'"
    "recordsHost m h = recordsHost m' h" "anchored L site m h = anchored L site m' h"
    "placementFor m link = placementFor m' link" "gone m = gone m'"
proof -
  have f: "objectKey (hm_meta m) = objectKey (hm_meta m')" "om_uid (hm_meta m) = om_uid (hm_meta m')"
    "om_annotations (hm_meta m) = om_annotations (hm_meta m')"
    "om_finalizers (hm_meta m) = om_finalizers (hm_meta m')"
    "om_deleting (hm_meta m) = om_deleting (hm_meta m')" "hm_providerID m = hm_providerID m'"
    using assms by (simp_all add: core_def)
  show "backendName m = backendName m'" by (rule backendName_identity) (rule f)+
  show "annotation m a = annotation m' a" "om_finalizers (hm_meta m) = om_finalizers (hm_meta m')"
    "providerIDOf m = providerIDOf m'" "objectKey (hm_meta m) = objectKey (hm_meta m')" "deleting m = deleting m'"
    "recordsHost m h = recordsHost m' h" "anchored L site m h = anchored L site m' h"
    "placementFor m link = placementFor m' link" "gone m = gone m'"
    by (simp_all only: f providerIDOf_def recordsHost_def anchored_def mayBeMadeOnFlags_def
        placementFor_def gone_def)
qed

lemma anchored_unique: "anchored L site m h \<Longrightarrow> placementFor m link = Inr p \<Longrightarrow> recordsHost m p \<and> site p = h"
  using recordsHost_placement by (force simp: anchored_def)

lemma statusOnly_refl [simp]: "statusOnly st key s s"
  by (simp add: statusOnly_def)

lemma statusOnly_trans: "statusOnly st key s s1 \<Longrightarrow> statusOnly st key s1 s2 \<Longrightarrow> statusOnly st key s s2"
  by (simp add: statusOnly_def)

lemma statusOnly_metrics [simp]: "statusOnly st key s (s'\<lparr>env_metrics := x\<rparr>) = statusOnly st key s s'"
  by (simp add: statusOnly_def)

lemma statusOnlyD:
  assumes "statusOnly st key' s s'" "st (env_kube s) key = Some m"
  obtains m' where "st (env_kube s') key = Some m'" "core m' = core m"
proof -
  have "map_option core (st (env_kube s') key) = Some (core m)"
    using assms unfolding statusOnly_def by (metis option.simps(9))
  then show thesis using that by auto
qed

lemma tethered_statusOnly:
  assumes "statusOnly st key s s'" "tethered L site st vms key n s"
  shows "tethered L site st vms key n s'"
  unfolding tethered_def
proof (intro allI impI)
  fix h assume "vms (env_backend s') h n \<noteq> None"
  with assms obtain m where m: "st (env_kube s) key = Some m" "backendName m = n" "anchored L site m h"
    by (auto simp: statusOnly_def tethered_def)
  obtain m' where m': "st (env_kube s') key = Some m'" "core m' = core m"
    by (rule statusOnlyD [OF assms(1) m(1)])
  with core_eqD [OF m'(2)] m show "\<exists>m. st (env_kube s') key = Some m \<and> backendName m = n \<and> anchored L site m h"
    by auto
qed

lemma framedD:
  assumes "framed st vms key n s s'"
  shows "n' \<noteq> n \<Longrightarrow> vms (env_backend s') h n' = vms (env_backend s) h n'"
    and "key' \<noteq> key \<Longrightarrow> st (env_kube s') key' = st (env_kube s) key'"
  using assms unfolding framed_def by blast+

lemma framed_refl [simp]: "framed st vms key n s s"
  by (simp add: framed_def)

lemma framed_trans: "framed st vms key n s s1 \<Longrightarrow> framed st vms key n s1 s2 \<Longrightarrow> framed st vms key n s s2"
  by (simp add: framed_def)

lemma framed_statusOnly: "statusOnly st key s s' \<Longrightarrow> framed st vms key n s s'"
  by (simp add: statusOnly_def framed_def)

lemma synced_statusOnly:
  assumes "statusOnly st key s s'" "synced st (env_kube s) m"
  shows "synced st (env_kube s') m"
proof -
  obtain cur where c: "st (env_kube s) (objectKey (hm_meta m)) = Some cur" "core cur = core m"
    using assms(2) unfolding synced_def by blast
  from statusOnlyD [OF assms(1) c(1)] c(2) show ?thesis unfolding synced_def by metis
qed

lemma synced_tether:
  assumes "synced st (env_kube s) m" "tethered L site st vms (objectKey (hm_meta m)) n s" "vms (env_backend s) h n \<noteq> None"
  shows "anchored L site m h"
proof -
  obtain cur where "st (env_kube s) (objectKey (hm_meta m)) = Some cur" "core cur = core m"
    using assms(1) unfolding synced_def by blast
  moreover from this assms(2,3) have "anchored L site cur h" unfolding tethered_def by fastforce
  ultimately show ?thesis using core_eqD(8) by blast
qed

section \<open>The reconciler in its world\<close>

locale machine_world =
  apimachinery "mr_lib r" + api_server "mr_client r" stored + fleet providerFor releaseOwner inv vms site
  for r :: "('k, 'b) HydraMachineReconciler"
    and stored :: "'k \<Rightarrow> NamespacedName \<Rightarrow> HydraMachine option"
    and providerFor :: "Owner \<Rightarrow> Hypervisor option \<Rightarrow> 'b \<Rightarrow> (goerr + 'b MachineProvider) \<times> 'b"
    and releaseOwner :: "Owner \<Rightarrow> 'b \<Rightarrow> 'b"
    and inv :: "'b \<Rightarrow> bool"
    and vms :: "'b \<Rightarrow> string \<Rightarrow> string \<rightharpoonup> string"
    and site :: "string \<Rightarrow> string" +
  assumes no_fixed_provider: "mr_provider r = None"
    and uses_providerFor: "mr_providerFor r = Some providerFor"
    and uses_release: "mr_releaseProvider r = Some releaseOwner"
begin

abbreviation "at h p \<equiv> machine_provider p inv (\<lambda>b. vms b h) (elsewhere vms h)"
abbreviation "teth \<equiv> tethered (mr_lib r) site stored vms"
abbreviation "safeStep key n s s' \<equiv> inv (env_backend s') \<and> teth key n s' \<and> framed stored vms key n s s'"

lemma safeStep_trans:
  "safeStep key n s s1 \<Longrightarrow> safeStep key n s1 s2 \<Longrightarrow> safeStep key n s s2"
  using framed_trans by blast

lemma safeStep_status:
  assumes "statusOnly stored key s s'" "inv (env_backend s)" "teth key n s"
  shows "safeStep key n s s'"
  using assms tethered_statusOnly [OF assms(1,3)] framed_statusOnly [OF assms(1)]
  by (simp add: statusOnly_def)

lemma status_write:
  assumes "patchHydraMachineStatus (mr_client r) base m (env_kube s) = (res, k)"
  shows "statusOnly stored (objectKey (hm_meta m)) s (s\<lparr>env_kube := k\<rparr>)"
  using status_frame [OF assms] status_others [OF assms] by (simp add: statusOnly_def)

lemma patchStatus_only: "patchStatus r w base m s = (e, m', s') \<Longrightarrow> statusOnly stored (objectKey (hm_meta m)) s s'"
  by (auto simp: patchStatus_def split: prod.splits sum.splits dest!: status_write)

lemma recordError_only: "recordError r m phase cause s = (e, m', s') \<Longrightarrow> statusOnly stored (objectKey (hm_meta m)) s s'"
  by (auto simp: recordError_def Let_def split: prod.splits option.splits if_splits dest!: patchStatus_only)

lemma recordWaiting_only: "recordWaiting r m reason cause s = (e, m', s') \<Longrightarrow> statusOnly stored (objectKey (hm_meta m)) s s'"
  by (auto simp: recordWaiting_def Let_def split: prod.splits option.splits dest!: patchStatus_only)

lemma updateStatus_only: "updateStatus r m state s = (e, m', s') \<Longrightarrow> statusOnly stored (objectKey (hm_meta m)) s s'"
  by (auto simp: updateStatus_def Let_def dest!: patchStatus_only)

lemma failWith_only: "failWith r m phase cause ret s = (res, s') \<Longrightarrow> statusOnly stored (objectKey (hm_meta m)) s s'"
  by (auto simp: failWith_def split: prod.splits option.splits dest!: recordError_only)

lemma waitWith_only: "waitWith r m reason cause s = (res, s') \<Longrightarrow> statusOnly stored (objectKey (hm_meta m)) s s'"
  by (auto simp: waitWith_def split: prod.splits option.splits dest!: recordWaiting_only)

lemma setPaused_only: "setPaused r m reason s = (e, m', s') \<Longrightarrow> statusOnly stored (objectKey (hm_meta m)) s s'"
  unfolding setPaused_def Let_def
  by (drule setPausedCondition_result) (auto split: prod.splits sum.splits dest!: status_write)

lemma setPaused_synced:
  assumes "setPaused r m reason s = (None, m', s')" "synced stored (env_kube s) m"
  shows "core m' = core m \<and> synced stored (env_kube s') m'"
proof -
  from setPausedCondition_result [OF assms(1) [unfolded setPaused_def Let_def]] consider "m' = m" "s' = s"
    | cs k where "patchHydraMachineStatus (mr_client r) m (m\<lparr>hm_conditions := cs\<rparr>) (env_kube s) = (Inr m', k)"
        "s' = s\<lparr>env_kube := k\<rparr>"
    by (auto split: prod.splits sum.splits)
  then show ?thesis
  proof cases
    case 2
    have "stored k (objectKey (hm_meta m)) = Some m'" using status_ok [OF 2(1)] by simp
    moreover obtain cur where "stored (env_kube s) (objectKey (hm_meta m)) = Some cur" "core cur = core m"
      using assms(2) by (auto simp: synced_def)
    moreover note status_frame [OF 2(1), of "objectKey (hm_meta m)"]
    ultimately have "core m' = core m" by simp
    with \<open>stored k (objectKey (hm_meta m)) = Some m'\<close> 2(2) core_eqD(5) [OF this] show ?thesis
      by (simp add: synced_def)
  qed (use assms in simp)
qed

text \<open>A patch that keeps the identity, the finalizer and the recorded host keeps every tether.\<close>

lemma patchObject_safe:
  assumes "patchObject r lock w as base m s = (e, m', s')" "synced stored (env_kube s) base"
    "identity m = identity base" "\<not> deleting base"
    "\<And>h. vms (env_backend s) h n \<noteq> None \<Longrightarrow> anchored (mr_lib r) site m h"
    "n = backendName base" "key = objectKey (hm_meta base)" "inv (env_backend s)" "teth key n s"
  shows "safeStep key n s s' \<and> env_backend s' = env_backend s \<and> objectKey (hm_meta m') = key
     \<and> (e = None \<longrightarrow> core m' = core m \<and> synced stored (env_kube s') m')"
proof -
  obtain cur where cur: "stored (env_kube s) (objectKey (hm_meta base)) = Some cur" "core cur = core base"
    using assms(2) by (auto simp: synced_def)
  have id: "objectKey (hm_meta m) = key" "backendName m = n" "\<not> gone m"
    using assms(3,4,6,7) by (auto simp: identity_def gone_def intro!: backendName_identity)
  obtain res k where p: "patchHydraMachine (mr_client r) lock base m (env_kube s) = (res, k)" by fastforce
  with assms(1) have s': "s' = s\<lparr>env_kube := k\<rparr>" and e: "e = None \<longrightarrow> res = Inr m'" "e \<noteq> None \<longrightarrow> m' = m"
    by (auto simp: patchObject_def split: sum.splits)
  have new: "\<exists>v. stored k = (stored (env_kube s))(key := v) \<and>
      (v = stored (env_kube s) key \<or> (\<exists>m'. v = Some m' \<and> core m' = core m))"
  proof (cases res)
    case (Inl e)
    then show ?thesis using patch_err [OF cur assms(3)] p id by (auto simp: applied_def)
  next
    case (Inr m'')
    then show ?thesis using patch_ok [OF cur assms(3)] p id by auto
  qed
  have "teth key n s'"
    unfolding tethered_def
  proof (intro allI impI)
    fix h assume vm: "vms (env_backend s') h n \<noteq> None"
    then have a: "anchored (mr_lib r) site m h" using assms(5) s' by simp
    from vm assms(9) s' obtain mo where "stored (env_kube s) key = Some mo" "backendName mo = n"
      "anchored (mr_lib r) site mo h" by (auto simp: tethered_def)
    with new a id core_eqD(1,8) s'
    show "\<exists>m. stored (env_kube s') key = Some m \<and> backendName m = n \<and> anchored (mr_lib r) site m h"
      by (metis (no_types, lifting) env.select_convs(1) env.surjective env.update_convs(1) fun_upd_same)
  qed
  moreover have "framed stored vms key n s s'" using new s' by (auto simp: framed_def)
  moreover have c: "core m' = core m \<and> synced stored (env_kube s') m'" if "e = None"
  proof -
    have "core m' = core m \<and> stored k = (stored (env_kube s))(key := Some m')"
      using patch_ok [OF cur assms(3), of lock m' k] p e that id by simp
    moreover from this have "objectKey (hm_meta m') = key" using core_eqD(5) id(1) by metis
    ultimately show ?thesis using s' by (simp add: synced_def)
  qed
  moreover have "objectKey (hm_meta m') = key" using c core_eqD(5) e(2) id(1) by (cases "e = None") metis+
  ultimately show ?thesis using assms(8) s' by simp
qed

text \<open>A change of the backend at one host and one name.\<close>

lemma backend_safe:
  assumes "inv b" "elsewhere vms h b = elsewhere vms h (env_backend s)"
    "\<And>n'. n' \<noteq> n \<Longrightarrow> vms b h n' = vms (env_backend s) h n'"
    "vms b h n \<noteq> None \<Longrightarrow> vms (env_backend s) h n = None \<Longrightarrow>
       \<exists>m. stored (env_kube s) key = Some m \<and> backendName m = n \<and> anchored (mr_lib r) site m h"
    "teth key n s"
  shows "safeStep key n s (s\<lparr>env_backend := b\<rparr>)"
proof -
  have other: "vms b h' = vms (env_backend s) h'" if "h' \<noteq> h" for h'
    using fun_cong [OF assms(2), of h'] that by (simp add: elsewhere_def)
  have "vms b h' n' = vms (env_backend s) h' n'" if "n' \<noteq> n" for h' n'
    using other [of h'] assms(3) [OF that] by (cases "h' = h") auto
  moreover have "teth key n (s\<lparr>env_backend := b\<rparr>)"
    unfolding tethered_def
  proof (intro allI impI)
    fix h' assume "vms (env_backend (s\<lparr>env_backend := b\<rparr>)) h' n \<noteq> None"
    then show "\<exists>m. stored (env_kube (s\<lparr>env_backend := b\<rparr>)) key = Some m \<and> backendName m = n
        \<and> anchored (mr_lib r) site m h'"
      using assms(4,5) other [of h'] by (cases "h' = h") (auto simp: tethered_def)
  qed
  ultimately show ?thesis using assms(1) by (simp add: framed_def)
qed

lemma createAndRecord_safe:
  assumes c: "createAndRecord r p m spec note s = (res, m', s')" and p: "at h p"
    and sy: "synced stored (env_kube s) m" and d: "\<not> deleting m"
    and a: "anchored (mr_lib r) site m h \<or> (\<forall>cres b. prov_create p spec (env_backend s) = (cres, b) \<longrightarrow>
      vms b h = vms (env_backend s) h)"
    and n: "ms_name spec = n" "n = backendName m" "key = objectKey (hm_meta m)"
    and i: "inv (env_backend s)" "teth key n s"
  shows "safeStep key n s s' \<and> objectKey (hm_meta m') = key"
proof -
  obtain cres b where cr: "prov_create p spec (env_backend s) = (cres, b)" by fastforce
  have f: "inv b" "elsewhere vms h b = elsewhere vms h (env_backend s)"
    "\<And>n'. n' \<noteq> n \<Longrightarrow> vms b h n' = vms (env_backend s) h n'"
    using machine_provider.create_frame [OF p i(1) cr] n(1) by auto
  have "\<exists>m. stored (env_kube s) key = Some m \<and> backendName m = n \<and> anchored (mr_lib r) site m h"
    if "vms b h n \<noteq> None" "vms (env_backend s) h n = None"
  proof -
    have "anchored (mr_lib r) site m h" using a cr that by auto
    with sy n core_eqD(1,8) show ?thesis by (metis synced_def)
  qed
  from backend_safe [OF f this i(2)] have 1: "safeStep key n s (s\<lparr>env_backend := b\<rparr>)" by blast
  show ?thesis
  proof (cases cres)
    case (Inl e)
    with c cr 1 n(3) show ?thesis by (auto simp: createAndRecord_def)
  next
    case (Inr st)
    let ?m = "m\<lparr>hm_providerID := Some (ProviderID (prov_name p) (st_id st))\<rparr>"
    from c cr Inr obtain e where e: "patchObject r False ''recording providerID''
        [ProviderID (prov_name p) (st_id st)] m ?m (s\<lparr>env_backend := b\<rparr>) = (e, m', s')"
      by (auto simp: createAndRecord_def Let_def split: prod.splits option.splits)
    have an: "anchored (mr_lib r) site ?m h'" if "vms (env_backend (s\<lparr>env_backend := b\<rparr>)) h' n \<noteq> None" for h'
    proof -
      have "synced stored (env_kube (s\<lparr>env_backend := b\<rparr>)) m" using sy by simp
      from synced_tether [OF this, of "mr_lib r" site vms n h'] 1 that n have "anchored (mr_lib r) site m h'" by simp
      then show ?thesis
        by (auto simp: anchored_def recordsHost_def mayBeMadeOnFlags_def providerIDOf_def ProviderID_def)
    qed
    have id: "identity ?m = identity m" by (simp add: identity_def)
    have sy': "synced stored (env_kube (s\<lparr>env_backend := b\<rparr>)) m" using sy by simp
    from patchObject_safe [OF e sy' id d an n(2,3)] 1 show ?thesis
      using safeStep_trans by blast
  qed
qed

text \<open>
  Recording the placement: the object that comes back records the host, if there is a hypervisor or
  a pool to record or it may have been made before.
\<close>

lemma recordPlacement_safe:
  assumes rp: "recordPlacement r m pool h s = (res, m', s')"
    and pl: "placementFor m link = Inr h" and sy: "synced stored (env_kube s) m" and d: "\<not> deleting m"
    and n: "n = backendName m" "key = objectKey (hm_meta m)"
    and i: "inv (env_backend s)" "teth key n s"
  shows "safeStep key n s s' \<and> env_backend s' = env_backend s \<and> objectKey (hm_meta m') = key \<and>
    (is_ok res \<longrightarrow> synced stored (env_kube s') m' \<and> \<not> deleting m' \<and> backendName m' = n
       \<and> objectKey (hm_meta m') = key \<and> om_finalizers (hm_meta m') = om_finalizers (hm_meta m)
       \<and> (h \<noteq> [] \<or> pool \<noteq> [] \<or> mayBeMadeOnFlags m \<longrightarrow> recordsHost m' h))"
proof -
  let ?wp = "annotation m StoragePoolAnnotation = [] \<and> pool \<noteq> []"
  let ?wh = "h \<noteq> [] \<and> annotation m HypervisorAnnotation = []"
  let ?as1 = "if ?wp then (om_annotations (hm_meta m))(StoragePoolAnnotation \<mapsto> pool) else om_annotations (hm_meta m)"
  let ?as2 = "if ?wh then ?as1(HypervisorAnnotation \<mapsto> h) else ?as1"
  let ?m = "m\<lparr>hm_meta := (hm_meta m)\<lparr>om_annotations := ?as2\<rparr>\<rparr>"
  have rec: "annotation m HypervisorAnnotation \<in> {[], h}" using placementFor_recorded [OF pl] .
  have fl: "h = []" if "annotation m HypervisorAnnotation = []" "mayBeMadeOnFlags m"
    using pl that by (simp add: placementFor_def)
  show ?thesis
  proof (cases "?wp \<or> ?wh")
    case False
    with rp have "m' = m" "s' = s" by (auto simp: recordPlacement_def Let_def split: if_splits)
    moreover have "recordsHost m h" if "h \<noteq> [] \<or> pool \<noteq> [] \<or> mayBeMadeOnFlags m"
      using False rec that by (auto simp: recordsHost_def mayBeMadeOnFlags_def)
    ultimately show ?thesis using sy d n i by simp
  next
    case True
    from True rp obtain pool' e where
      po: "patchObject r True ''recording storage pool and hypervisor'' [pool', h] m ?m s = (e, m', s')"
      and e: "is_ok res \<longleftrightarrow> e = None"
      by (auto simp: recordPlacement_def Let_def split: if_splits prod.splits option.splits)
    have an: "anchored (mr_lib r) site ?m h'" if "vms (env_backend s) h' n \<noteq> None" for h'
    proof -
      have a: "anchored (mr_lib r) site m h'"
        using synced_tether [OF sy, of "mr_lib r" site vms n h'] i(2) that n(2) by simp
      have "recordsHost ?m h" if "recordsHost m h"
        using that fl by (auto simp: recordsHost_def mayBeMadeOnFlags_def providerIDOf_def)
      with anchored_unique [OF a pl] a show ?thesis by (auto simp: anchored_def)
    qed
    have id: "identity ?m = identity m" by (simp add: identity_def objectKey_def)
    note ps = patchObject_safe [OF po sy id d an n i]
    show ?thesis
    proof (cases "e = None")
      case False
      with e have "\<not> is_ok res" by simp
      with ps show ?thesis by blast
    next
      case ok: True
      with ps have c: "core m' = core ?m" by simp
      have "recordsHost ?m h" if "h \<noteq> [] \<or> pool \<noteq> [] \<or> mayBeMadeOnFlags m"
        using rec that fl by (auto simp: recordsHost_def mayBeMadeOnFlags_def providerIDOf_def)
      moreover have "backendName ?m = n" using n(1) by (simp add: backendName_def identityDigest_def)
      moreover have "deleting m' = deleting ?m" "backendName m' = backendName ?m"
        "objectKey (hm_meta m') = objectKey (hm_meta ?m)" "recordsHost m' h = recordsHost ?m h"
        "om_finalizers (hm_meta m') = om_finalizers (hm_meta ?m)"
        by (rule core_eqD [OF c])+
      moreover have "objectKey (hm_meta ?m) = key" "\<not> deleting ?m"
        "om_finalizers (hm_meta ?m) = om_finalizers (hm_meta m)" using n(2) d by (simp_all add: objectKey_def)
      ultimately show ?thesis using ps ok by metis
    qed
  qed
qed

lemma createSpec_name: "createSpec r m link k = Inr spec \<Longrightarrow> ms_name spec = backendName m"
  by (auto simp: createSpec_def specFor_def Let_def split: option.splits sum.splits if_splits)

lemma observe_frame:
  assumes "observeMachine p m b = (res, b')" "at h p" "inv b"
  shows "inv b' \<and> vms b' h = vms b h \<and> elsewhere vms h b' = elsewhere vms h b"
  using assms(1) machine_provider.get_frame [OF assms(2,3)] assms(3)
  by (auto simp: observeMachine_def split: sum.splits prod.splits option.splits if_splits)

lemma find_safe:
  assumes "prov_findByName p x (env_backend s) = (res, b)" "at h p" "inv (env_backend s)" "teth key n s"
  shows "safeStep key n s (s\<lparr>env_backend := b\<rparr>)"
  using machine_provider.find_frame [OF assms(2,3,1)] assms(4) by (intro backend_safe) auto

text \<open>The end of a create: the placement is recorded, and only then is there a machine.\<close>

lemma placeAndCreate_safe:
  assumes rp: "recordPlacement r m pool h s = (rres, m1, s2)" and p: "at (site h) p"
    and c: "is_ok rres \<Longrightarrow> createAndRecord r p m1 spec nt s2 = (res, m', s')" "\<not> is_ok rres \<Longrightarrow> m' = m1 \<and> s' = s2"
    and rh: "(h \<noteq> [] \<or> pool \<noteq> [] \<or> mayBeMadeOnFlags m) \<or>
      (\<forall>cres b. prov_create p spec (env_backend s) = (cres, b) \<longrightarrow> vms b (site h) = vms (env_backend s) (site h))" and sn: "ms_name spec = backendName m"
    and pl: "placementFor m link = Inr h" and sy: "synced stored (env_kube s) m" and d: "\<not> deleting m"
    and fin: "containsFinalizer (mr_lib r) (om_finalizers (hm_meta m)) MachineFinalizer"
    and n: "n = backendName m" "key = objectKey (hm_meta m)"
    and i: "inv (env_backend s)" "teth key n s"
  shows "safeStep key n s s' \<and> objectKey (hm_meta m') = key"
proof -
  from recordPlacement_safe [OF rp pl sy d n i]
  have 2: "safeStep key n s s2" "env_backend s2 = env_backend s" "objectKey (hm_meta m1) = key" and ok: "is_ok rres \<Longrightarrow>
     synced stored (env_kube s2) m1 \<and> \<not> deleting m1 \<and> backendName m1 = n
     \<and> objectKey (hm_meta m1) = key \<and> om_finalizers (hm_meta m1) = om_finalizers (hm_meta m)
     \<and> (h \<noteq> [] \<or> pool \<noteq> [] \<or> mayBeMadeOnFlags m \<longrightarrow> recordsHost m1 h)"
    by auto
  show ?thesis
  proof (cases "is_ok rres")
    case False
    then show ?thesis using 2 c by simp
  next
    case True
    note o = ok [OF True]
    have "anchored (mr_lib r) site m1 (site h)" if "h \<noteq> [] \<or> pool \<noteq> [] \<or> mayBeMadeOnFlags m"
      using o fin that by (auto simp: anchored_def)
    with rh 2(2) have a: "anchored (mr_lib r) site m1 (site h) \<or> (\<forall>cres b.
        prov_create p spec (env_backend s2) = (cres, b) \<longrightarrow> vms b (site h) = vms (env_backend s2) (site h))" by auto
    have "safeStep key n s2 s' \<and> objectKey (hm_meta m') = key"
      by (rule createAndRecord_safe [OF c(1) [OF True] p _ _ a]) (use o 2 sn n in auto)
    with 2(1) safeStep_trans show ?thesis by blast
  qed
qed

lemma ensureMachine_safe:
  assumes em: "ensureMachine r p m link h s = (res, m', s')" and p: "at (site h) p" "needsPool p inv (\<lambda>b. vms b (site h))"
    and pl: "placementFor m link = Inr h" and sy: "synced stored (env_kube s) m" and d: "\<not> deleting m"
    and fin: "containsFinalizer (mr_lib r) (om_finalizers (hm_meta m)) MachineFinalizer"
    and n: "n = backendName m" "key = objectKey (hm_meta m)"
    and i: "inv (env_backend s)" "teth key n s"
  shows "safeStep key n s s' \<and> objectKey (hm_meta m') = key"
proof (cases "providerIDOf m = []")
  case False
  obtain b where ob: "observeMachine p m (env_backend s) = (res, b)" "s' = s\<lparr>env_backend := b\<rparr>"
    and "m' = m" using em False by (auto simp: ensureMachine_def split: prod.splits)
  from observe_frame [OF ob(1) p(1) i(1)] ob(2) i(2) \<open>m' = m\<close> n(2) show ?thesis
    using backend_safe [of b "site h" s n key] by simp
next
  case True
  obtain fres b where f: "prov_findByName p (backendName m) (env_backend s) = (fres, b)" by fastforce
  let ?s1 = "s\<lparr>env_backend := b\<rparr>"
  have 1: "safeStep key n s ?s1" by (rule find_safe [OF f p(1) i])
  then have i1: "inv (env_backend ?s1)" "teth key n ?s1" by blast+
  have sy1: "synced stored (env_kube ?s1) m" using sy by simp
  have "safeStep key n ?s1 s' \<and> objectKey (hm_meta m') = key"
  proof (cases fres)
    case (Inr st)
    obtain rres m1 s2 where rp: "recordPlacement r m [] h ?s1 = (rres, m1, s2)" by (metis prod_cases3)
    have "vms (env_backend s) (site h) n \<noteq> None"
      using machine_provider.find_ok [OF p(1) i(1)] f Inr n(1) by auto
    with synced_tether [OF sy, of "mr_lib r" site vms n "site h"] i(2) n(2)
    have "anchored (mr_lib r) site m (site h)" by simp
    from anchored_unique [OF this pl] have rh: "h \<noteq> [] \<or> [] \<noteq> [] \<or> mayBeMadeOnFlags m" by (auto simp: recordsHost_def)
    show ?thesis
      by (rule placeAndCreate_safe [OF rp p(1) _ _ disjI1 [OF rh] nameOnlySpec_name pl sy1 d fin n i1])
        (use em True f Inr rp in \<open>auto simp: ensureMachine_def is_ok_iff split: sum.splits\<close>)
  next
    case (Inl e)
    show ?thesis
    proof (cases "errorsIs e ErrNotFound \<and> is_ok (createSpec r m link (env_kube s))")
      case False
      with em True f Inl have "s' = ?s1 \<and> m' = m"
        by (auto simp: ensureMachine_def Let_def split: if_splits sum.splits)
      with i1 n(2) show ?thesis by simp
    next
      case sp: True
      then obtain spec where spec: "createSpec r m link (env_kube s) = Inr spec" by (auto simp: is_ok_iff)
      let ?pool = "prov_storagePoolFor p (ms_storagePool spec)"
      obtain rres m1 s2 where rp: "recordPlacement r m ?pool h ?s1 = (rres, m1, s2)" by (metis prod_cases3)
      let ?spec = "\<lambda>pool. if pool \<noteq> [] then spec\<lparr>ms_storagePool := pool\<rparr> else spec"
      have rh: "(h \<noteq> [] \<or> ?pool \<noteq> [] \<or> mayBeMadeOnFlags m) \<or>
          (\<forall>cres b. prov_create p (?spec (projr rres)) (env_backend ?s1) = (cres, b) \<longrightarrow>
             vms b (site h) = vms (env_backend ?s1) (site h))"
      proof (cases "h \<noteq> [] \<or> ?pool \<noteq> [] \<or> mayBeMadeOnFlags m")
        case False
        then have "rres = Inr []" using rp by (simp add: recordPlacement_def mayBeMadeOnFlags_def Let_def)
        moreover have "vms b' (site h) = vms (env_backend ?s1) (site h)"
          if "prov_create p spec (env_backend ?s1) = (cres, b')" for cres b'
          using needsPoolD [OF p(2) i1(1) _ that] False by blast
        ultimately show ?thesis by auto
      qed simp
      have sn: "ms_name (?spec pool) = backendName m" for pool
        using createSpec_name [OF spec] by simp
      show ?thesis
        by (rule placeAndCreate_safe [OF rp p(1) _ _ rh sn [of "projr rres"] pl sy1 d fin n i1,
              where nt = "recordedNote (projr rres) ?pool"])
          (use em True f Inl sp spec rp in \<open>auto simp: ensureMachine_def Let_def is_ok_iff split: sum.splits\<close>)
    qed
  qed
  with 1 show ?thesis using safeStep_trans by blast
qed

lemma reconcileReady_safe:
  assumes rr: "reconcileReady r p m link h s = (res, s')" and p: "at (site h) p" "needsPool p inv (\<lambda>b. vms b (site h))"
    and pl: "placementFor m link = Inr h" and sy: "synced stored (env_kube s) m" and d: "\<not> deleting m"
    and fin: "containsFinalizer (mr_lib r) (om_finalizers (hm_meta m)) MachineFinalizer"
    and n: "n = backendName m" "key = objectKey (hm_meta m)"
    and i: "inv (env_backend s)" "teth key n s"
  shows "safeStep key n s s'"
proof -
  obtain eres m1 s1 where em: "ensureMachine r p m link h s = (eres, m1, s1)" by (metis prod_cases3)
  note 1 = ensureMachine_safe [OF em p pl sy d fin n i]
  then have "statusOnly stored key s1 s'"
    using rr em waitWith_only [of m1] failWith_only [of m1] updateStatus_only [of m1]
    by (auto simp: reconcileReady_def Let_def split: sum.splits prod.splits option.splits if_splits)
  with 1 safeStep_status [of key s1 s' n] safeStep_trans show ?thesis by blast
qed

lemma reconcileNormal_safe:
  assumes rn: "reconcileNormal r p m link h s = (res, s')" and p: "at (site h) p" "needsPool p inv (\<lambda>b. vms b (site h))"
    and pl: "placementFor m link = Inr h" and sy: "synced stored (env_kube s) m" and d: "\<not> deleting m"
    and n: "n = backendName m" "key = objectKey (hm_meta m)"
    and i: "inv (env_backend s)" "teth key n s"
  shows "safeStep key n s s'"
proof (cases "containsFinalizer (mr_lib r) (om_finalizers (hm_meta m)) MachineFinalizer")
  case True
  with rn reconcileReady_safe [OF _ p pl sy d True n i] show ?thesis by (simp add: reconcileNormal_def)
next
  case False
  let ?m = "m\<lparr>hm_meta := (hm_meta m)\<lparr>om_finalizers :=
     addFinalizer (mr_lib r) (om_finalizers (hm_meta m)) MachineFinalizer\<rparr>\<rparr>"
  obtain e m1 s1 where po: "patchObject r False ''adding finalizer'' [] m ?m s = (e, m1, s1)" by (metis prod_cases3)
  have id: "identity ?m = identity m" by (simp add: identity_def objectKey_def)
  have an: "anchored (mr_lib r) site ?m h'" if "vms (env_backend s) h' n \<noteq> None" for h'
    using synced_tether [OF sy, of "mr_lib r" site vms n h'] i(2) that n(2) False by (simp add: anchored_def)
  note ps = patchObject_safe [OF po sy id d an n i]
  show ?thesis
  proof (cases "e = None")
    case False
    with rn po ps \<open>\<not> containsFinalizer _ _ _\<close> show ?thesis by (auto simp: reconcileNormal_def)
  next
    case True
    with ps have c: "core m1 = core ?m" and sy1: "synced stored (env_kube s1) m1"
      and i1: "inv (env_backend s1)" "teth key n s1" and s1: "safeStep key n s s1" by blast+
    have rr: "reconcileReady r p m1 link h s1 = (res, s')"
      using rn po True \<open>\<not> containsFinalizer _ _ _\<close> by (simp add: reconcileNormal_def)
    have f1: "containsFinalizer (mr_lib r) (om_finalizers (hm_meta m1)) MachineFinalizer"
      by (simp add: core_eqD(3) [OF c] contains_add)
    have "placementFor ?m link = placementFor m link" by (rule placementFor_finalizers)
    then have pl1: "placementFor m1 link = Inr h" using pl core_eqD(9) [OF c, of link] by simp
    have d1: "\<not> deleting m1" using core_eqD(6) [OF c] d by simp
    have n1: "n = backendName m1" "key = objectKey (hm_meta m1)"
      using core_eqD(1,5) [OF c] n by (simp_all add: backendName_def identityDigest_def objectKey_def)
    from reconcileReady_safe [OF rr p pl1 sy1 d1 f1 n1 i1] s1 safeStep_trans show ?thesis by blast
  qed
qed

text \<open>What a deletion works out to delete is this object's machine, by its name.\<close>

lemma findUnrecorded_owned:
  assumes "findUnrecorded p m b = (res, b')" "at h p" "inv b"
  shows "inv b' \<and> vms b' h = vms b h \<and> elsewhere vms h b' = elsewhere vms h b
     \<and> (\<forall>i. res = Inr i \<longrightarrow> i \<noteq> [] \<longrightarrow> vms b h (backendName m) = Some (canonID i))"
proof -
  obtain fres where f: "prov_findByName p (backendName m) b = (fres, b')"
    using assms(1) by (auto simp: findUnrecorded_def split: sum.splits prod.splits)
  have "canonID j = j" if "vms b h n = Some j" for n j
    using machine_provider.ids_canonical [OF assms(2,3), of j] that by (auto simp: ran_def)
  with machine_provider.find_frame [OF assms(2,3) f] machine_provider.find_ok [OF assms(2,3), of "backendName m"] assms(1) f
  show ?thesis by (auto simp: findUnrecorded_def split: sum.splits if_splits)
qed

lemma deletionTarget_owned:
  assumes t: "deletionTargetFor p m b = (res, b')" and p: "at h p" and i: "inv b"
  shows "inv b' \<and> vms b' h = vms b h \<and> elsewhere vms h b' = elsewhere vms h b
     \<and> (\<forall>i. res = Inr i \<longrightarrow> i \<noteq> [] \<longrightarrow> vms b h (backendName m) = Some (canonID i))"
proof (cases "providerIDOf m = [] \<or> \<not> is_ok (machineIDFor (prov_name p) (providerIDOf m))")
  case True
  with t have "findUnrecorded p m b = (res, b')"
    by (auto simp: deletionTargetFor_def split: if_splits sum.splits)
  from findUnrecorded_owned [OF this p i] show ?thesis .
next
  case False
  then obtain i' where id: "machineIDFor (prov_name p) (providerIDOf m) = Inr i'" by (auto simp: is_ok_iff)
  obtain gres b1 where g: "prov_get p i' b = (gres, b1)" by fastforce
  note gf = machine_provider.get_frame [OF p i g]
  show ?thesis
  proof (cases gres)
    case (Inr st)
    with machine_provider.get_ok [OF p i, of i' st b1] g t False id gf show ?thesis
      by (auto simp: deletionTargetFor_def verifyOwnership_def split: if_splits)
  next
    case (Inl e)
    show ?thesis
    proof (cases "errorsIs e ErrNotFound \<or> errorsIs e ErrInvalidID")
      case True
      with t g Inl False id have "findUnrecorded p m b1 = (res, b')" by (simp add: deletionTargetFor_def)
      from findUnrecorded_owned [OF this p] gf show ?thesis by simp
    next
      case no: False
      with t g Inl False id gf show ?thesis by (auto simp: deletionTargetFor_def)
    qed
  qed
qed

lemma release_safe:
  assumes "inv (env_backend s)" "teth key n s"
  shows "safeStep key n s (release r owner s)"
  using assms release_frame [OF assms(1), of owner]
  by (auto simp: release_def uses_release tethered_def framed_def)

text \<open>A backend that only lost machines of one name keeps the tether.\<close>

lemma shrink_safe:
  assumes "inv b" "elsewhere vms h b = elsewhere vms h (env_backend s)" "vms b h \<subseteq>\<^sub>m vms (env_backend s) h"
    "\<And>n'. n' \<noteq> n \<Longrightarrow> vms b h n' = vms (env_backend s) h n'" "teth key n s"
  shows "safeStep key n s (s\<lparr>env_backend := b\<rparr>)"
proof (rule backend_safe [OF assms(1,2,4) _ assms(5)])
  assume "vms b h n \<noteq> None" "vms (env_backend s) h n = None"
  with assms(3) have False by (metis domIff map_le_def)
  then show "\<exists>m. stored (env_kube s) key = Some m \<and> backendName m = n \<and> anchored (mr_lib r) site m h" ..
qed

text \<open>The finalizer goes when no machine of this name is left anywhere.\<close>

lemma finishDelete_safe:
  assumes fd: "finishDelete r p m link s = (res, s')" and p: "at (site h) p"
    and pl: "placementFor m link = Inr h" and sy: "synced stored (env_kube s) m"
    and n: "n = backendName m" "key = objectKey (hm_meta m)"
    and i: "inv (env_backend s)" "teth key n s"
  shows "safeStep key n s s'"
proof -
  obtain dres b where dn: "prov_deleteByName p (backendName m) (storagePoolOf m link) (env_backend s) = (dres, b)"
    by fastforce
  note fr = machine_provider.deleteByName_frame [OF p i(1) dn]
  let ?s1 = "s\<lparr>env_backend := b\<rparr>"
  have 1: "safeStep key n s ?s1" by (rule shrink_safe [of b "site h"]) (use fr n i in auto)
  show ?thesis
  proof (cases dres)
    case (Some e)
    with fd dn have "statusOnly stored key ?s1 s'" using failWith_only [of m] n(2) by (simp add: finishDelete_def)
    with 1 safeStep_status [of key ?s1 s' n] safeStep_trans show ?thesis by blast
  next
    case None
    have "vms b (site h) n = None" using machine_provider.deleteByName_ok [OF p i(1)] dn None n by auto
    moreover have "vms b h' n = None" if "h' \<noteq> site h" for h'
    proof (rule ccontr)
      assume "vms b h' n \<noteq> None"
      moreover have "synced stored (env_kube ?s1) m" using sy by simp
      ultimately have "anchored (mr_lib r) site m h'"
        using synced_tether [of stored ?s1 m "mr_lib r" site vms n h'] 1 n(2) by simp
      with anchored_unique [OF _ pl] that show False by blast
    qed
    ultimately have none: "vms b h' n = None" for h' by (cases "h' = site h") auto
    let ?m = "m\<lparr>hm_meta := (hm_meta m)\<lparr>om_finalizers :=
       removeFinalizer (mr_lib r) (om_finalizers (hm_meta m)) MachineFinalizer\<rparr>\<rparr>"
    obtain pres k where po: "patchHydraMachine (mr_client r) False m ?m (env_kube s) = (pres, k)" by fastforce
    obtain cur where cur: "stored (env_kube s) (objectKey (hm_meta m)) = Some cur" "core cur = core m"
      using sy by (auto simp: synced_def)
    have id: "identity ?m = identity m" "objectKey (hm_meta ?m) = key"
      using n(2) by (simp_all add: identity_def objectKey_def)
    have "\<exists>v. stored k = (stored (env_kube s))(key := v)"
      using patch_ok [OF cur id(1)] patch_err [OF cur id(1)] po id(2) by (cases pres) force+
    then have 2: "safeStep key n ?s1 (?s1\<lparr>env_kube := k\<rparr>)"
      using 1 none by (auto simp: tethered_def framed_def)
    from fd dn None po consider "s' = ?s1\<lparr>env_kube := k\<rparr>"
      | owner where "s' = release r owner (?s1\<lparr>env_kube := k\<rparr>)"
      by (cases pres) (auto simp: finishDelete_def patchObject_def)
    then have "safeStep key n (?s1\<lparr>env_kube := k\<rparr>) s'"
      by cases (use 2 release_safe [of "?s1\<lparr>env_kube := k\<rparr>" key n] in auto)
    with 1 2 safeStep_trans show ?thesis by blast
  qed
qed

lemma reconcileDelete_safe:
  assumes rd: "reconcileDelete r p m link s = (res, s')" and p: "at (site h) p"
    and pl: "placementFor m link = Inr h" and sy: "synced stored (env_kube s) m"
    and n: "n = backendName m" "key = objectKey (hm_meta m)"
    and i: "inv (env_backend s)" "teth key n s"
  shows "safeStep key n s s'"
proof (cases "containsFinalizer (mr_lib r) (om_finalizers (hm_meta m)) MachineFinalizer")
  case False
  with rd i show ?thesis by (simp add: reconcileDelete_def)
next
  case True
  obtain tres b where t: "deletionTargetFor p m (env_backend s) = (tres, b)" by fastforce
  let ?s1 = "s\<lparr>env_backend := b\<rparr>"
  note own = deletionTarget_owned [OF t p i(1)]
  have 1: "safeStep key n s ?s1" by (rule backend_safe [of b "site h"]) (use own i in auto)
  show ?thesis
  proof (cases tres)
    case (Inl e)
    with rd True t have "statusOnly stored key ?s1 s'" using failWith_only [of m] n(2) by (simp add: reconcileDelete_def)
    with 1 safeStep_status [of key ?s1 s' n] safeStep_trans show ?thesis by blast
  next
    case (Inr ident)
    show ?thesis
    proof (cases "ident = []")
      case True
      with rd t Inr \<open>containsFinalizer _ _ _\<close> have "finishDelete r p m link ?s1 = (res, s')"
        by (simp add: reconcileDelete_def)
      from finishDelete_safe [OF this p pl _ n] sy 1 safeStep_trans show ?thesis by fastforce
    next
      case False
      obtain dres b1 where d: "prov_delete p ident b = (dres, b1)" by fastforce
      have ib: "inv b" using 1 by simp
      note df = machine_provider.delete_frame [OF p ib d]
      have "vms b (site h) n = Some (canonID ident)" using own Inr False n by simp
      then have oth: "vms b (site h) n' \<noteq> Some (canonID ident)" if "n' \<noteq> n" for n'
        using machine_provider.ids_distinct [OF p ib] that by (auto simp: inj_on_def dom_def)
      have 2: "safeStep key n ?s1 (?s1\<lparr>env_backend := b1\<rparr>)"
        by (rule shrink_safe [of b1 "site h"]) (use df oth 1 in auto)
      then have 2: "safeStep key n ?s1 (s\<lparr>env_backend := b1\<rparr>)" by simp
      have 3: "safeStep key n (s\<lparr>env_backend := b1\<rparr>) s'"
      proof (cases dres)
        case (Some e)
        with rd True t Inr False d have "statusOnly stored key (s\<lparr>env_backend := b1\<rparr>) s'"
          using failWith_only [of m] n(2) by (simp add: reconcileDelete_def)
        with 2 safeStep_status [of key "s\<lparr>env_backend := b1\<rparr>" s' n] show ?thesis by blast
      next
        case None
        with rd True t Inr False d have "finishDelete r p m link (s\<lparr>env_backend := b1\<rparr>) = (res, s')"
          by (simp add: reconcileDelete_def)
        from finishDelete_safe [OF this p pl _ n] sy 2 show ?thesis by fastforce
      qed
      with 1 2 safeStep_trans show ?thesis by blast
    qed
  qed
qed

lemma provider_safe:
  assumes pr: "provider r m link h s = (res, s')" and i: "inv (env_backend s)" "teth key n s"
  shows "safeStep key n s s' \<and> env_kube s' = env_kube s
     \<and> (\<forall>p. res = Inr p \<longrightarrow> at (site h) p \<and> needsPool p inv (\<lambda>b. vms b (site h)))"
proof (cases "hypervisorFor r link h (env_kube s)")
  case (Inl e)
  with pr i show ?thesis by (simp add: provider_def no_fixed_provider uses_providerFor) blast
next
  case (Inr hv)
  have hv: "hostOf hv = h" by (rule hypervisorFor_host [OF Inr])
  let ?owner = "machineOwner (objectKey (hm_meta m))"
  let ?s1 = "if hv = None then release r ?owner s else s"
  have 1: "safeStep key n s ?s1" "env_kube ?s1 = env_kube s"
    using i release_safe [OF i] by (auto simp: release_def uses_release)
  obtain pres b where c: "providerFor ?owner hv (env_backend ?s1) = (pres, b)" by fastforce
  have i1: "inv (env_backend ?s1)" using 1 by blast
  note cf = connect_frame [OF i1 c]
  have s': "s' = ?s1\<lparr>env_backend := b\<rparr>" and res: "\<And>p. res = Inr p \<longleftrightarrow> pres = Inr p"
    using pr Inr c by (auto simp: provider_def no_fixed_provider uses_providerFor Let_def split: sum.splits)
  have "safeStep key n ?s1 (?s1\<lparr>env_backend := b\<rparr>)"
    by (rule backend_safe [of b "site h"]) (use cf 1 in \<open>auto simp: elsewhere_def\<close>)
  then have "safeStep key n s s'" unfolding s' by (rule safeStep_trans [OF 1(1)])
  moreover have "at (site h) p \<and> needsPool p inv (\<lambda>b. vms b (site h))" if "res = Inr p" for p
  proof -
    have "pres = Inr p" using res that by blast
    with c have "providerFor ?owner hv (env_backend ?s1) = (Inr p, b)" by simp
    from connect_ok [OF i1 this] hv show ?thesis by simp
  qed
  moreover have "env_kube s' = env_kube s" using s' 1(2) by simp
  ultimately show ?thesis by blast
qed

lemma reconcileActive_safe:
  assumes ra: "reconcileActive r m link s = (res, s')" and sy: "synced stored (env_kube s) m"
    and n: "n = backendName m" "key = objectKey (hm_meta m)"
    and i: "inv (env_backend s)" "teth key n s"
  shows "safeStep key n s s'"
proof (cases "placementFor m link")
  case (Inl e)
  with ra have "statusOnly stored key s s'"
    using waitWith_only [of m] failWith_only [of m] n(2) by (auto simp: reconcileActive_def Let_def split: if_splits)
  with i safeStep_status show ?thesis by blast
next
  case (Inr h)
  obtain pres s1 where pr: "provider r m link h s = (pres, s1)" by fastforce
  note ps = provider_safe [OF pr i]
  have sy1: "synced stored (env_kube s1) m" using ps sy by simp
  have i1: "inv (env_backend s1)" "teth key n s1" using ps by blast+
  have "safeStep key n s1 s'"
  proof (cases pres)
    case e: (Inl e)
    with ra Inr pr have "statusOnly stored key s1 s'"
      using waitWith_only [of m] failWith_only [of m] n(2) by (auto simp: reconcileActive_def Let_def split: if_splits)
    with i1 safeStep_status show ?thesis by blast
  next
    case p: (Inr p)
    with ps have at: "at (site h) p" "needsPool p inv (\<lambda>b. vms b (site h))" by blast+
    show ?thesis
    proof (cases "deleting m")
      case True
      with ra Inr pr p have "reconcileDelete r p m link s1 = (res, s')" by (simp add: reconcileActive_def)
      from reconcileDelete_safe [OF this at(1) Inr sy1 n i1] show ?thesis .
    next
      case False
      with ra Inr pr p have "reconcileNormal r p m link h s1 = (res, s')" by (simp add: reconcileActive_def)
      from reconcileNormal_safe [OF this at Inr sy1 False n i1] show ?thesis .
    qed
  qed
  with ps safeStep_trans show ?thesis by blast
qed

lemma Reconcile_safe:
  assumes re: "Reconcile r req s = (res, s')"
    and nm: "\<And>m. stored (env_kube s) req = Some m \<Longrightarrow> backendName m = n"
    and i: "inv (env_backend s)" "teth req n s"
  shows "safeStep req n s s'"
proof (cases "getHydraMachine (mr_client r) req (env_kube s)")
  case (Inl e)
  with re i release_safe [OF i] show ?thesis by (auto simp: Reconcile_def split: if_splits)
next
  case (Inr m)
  from get_stored [OF this] have st: "stored (env_kube s) req = Some m" "objectKey (hm_meta m) = req" by auto
  with nm have n: "n = backendName m" "req = objectKey (hm_meta m)" by auto
  have sy: "synced stored (env_kube s) m" using st by (simp add: synced_def)
  have "statusOnly stored req s s' \<or> (\<exists>link m1 s1. setPaused r m [] s = (None, m1, s1)
      \<and> reconcileActive r m1 link s1 = (res, s'))"
    using re Inr failWith_only [of m] setPaused_only [of m] st(2)
    by (auto simp: Reconcile_def Let_def split: sum.splits prod.splits option.splits if_splits)
  then show ?thesis
  proof (elim disjE exE conjE)
    assume "statusOnly stored req s s'"
    with i safeStep_status show ?thesis by blast
  next
    fix link m1 s1 assume sp: "setPaused r m [] s = (None, m1, s1)" and ra: "reconcileActive r m1 link s1 = (res, s')"
    have 1: "safeStep req n s s1" using setPaused_only [OF sp] i safeStep_status st(2) by blast
    from setPaused_synced [OF sp sy] have c: "core m1 = core m" and sy1: "synced stored (env_kube s1) m1" by auto
    have n1: "n = backendName m1" "req = objectKey (hm_meta m1)" using n core_eqD(1,5) [OF c] by auto
    from reconcileActive_safe [OF ra sy1 n1] 1 safeStep_trans show ?thesis by blast
  qed
qed

end

section \<open>What it writes\<close>

text \<open>The client with other writes of HydraClusters and templates: no step of the reconciler sees them.\<close>

definition otherWrites ::
  "(bool \<Rightarrow> HydraCluster \<Rightarrow> HydraCluster \<Rightarrow> 'k \<Rightarrow> (goerr + HydraCluster) \<times> 'k)
    \<Rightarrow> (bool \<Rightarrow> HydraCluster \<Rightarrow> HydraCluster \<Rightarrow> 'k \<Rightarrow> (goerr + HydraCluster) \<times> 'k)
    \<Rightarrow> (HydraMachineTemplate \<Rightarrow> HydraMachineTemplate \<Rightarrow> 'k \<Rightarrow> (goerr + HydraMachineTemplate) \<times> 'k)
    \<Rightarrow> ('k, 'b) HydraMachineReconciler \<Rightarrow> ('k, 'b) HydraMachineReconciler" where
  "otherWrites pc ps pt r = r\<lparr>mr_client := (mr_client r)\<lparr>patchHydraCluster := pc,
     patchHydraClusterStatus := ps, patchTemplateStatus := pt\<rparr>\<rparr>"

lemma otherWrites_fields:
  "mr_lib (otherWrites pc ps pt r) = mr_lib r" "mr_apiReader (otherWrites pc ps pt r) = mr_apiReader r"
  "mr_provider (otherWrites pc ps pt r) = mr_provider r" "mr_providerFor (otherWrites pc ps pt r) = mr_providerFor r"
  "mr_releaseProvider (otherWrites pc ps pt r) = mr_releaseProvider r"
  "getHydraMachine (mr_client (otherWrites pc ps pt r)) = getHydraMachine (mr_client r)"
  "patchHydraMachine (mr_client (otherWrites pc ps pt r)) = patchHydraMachine (mr_client r)"
  "patchHydraMachineStatus (mr_client (otherWrites pc ps pt r)) = patchHydraMachineStatus (mr_client r)"
  "getMachine (mr_client (otherWrites pc ps pt r)) = getMachine (mr_client r)"
  "getCluster (mr_client (otherWrites pc ps pt r)) = getCluster (mr_client r)"
  "getHydraCluster (mr_client (otherWrites pc ps pt r)) = getHydraCluster (mr_client r)"
  by (simp_all add: otherWrites_def)

lemma otherWrites_reads:
  "resolveLinkage (mr_client (otherWrites pc ps pt r)) = resolveLinkage (mr_client r)"
  "withClusterByLabelForDeletion (mr_client (otherWrites pc ps pt r)) = withClusterByLabelForDeletion (mr_client r)"
  unfolding fun_eq_iff resolveLinkage_def resolveCluster_def withClusterByLabelForDeletion_def clusterByLabel_def
    otherWrites_fields by simp_all

lemma otherWrites_steps:
  "release (otherWrites pc ps pt r) = release r" "provider (otherWrites pc ps pt r) = provider r"
  "createSpec (otherWrites pc ps pt r) = createSpec r"
  "patchStatus (otherWrites pc ps pt r) = patchStatus r" "patchObject (otherWrites pc ps pt r) = patchObject r"
  "setPaused (otherWrites pc ps pt r) = setPaused r"
  unfolding fun_eq_iff release_def provider_def hypervisorFor_def createSpec_def
    patchStatus_def patchObject_def setPaused_def otherWrites_fields by simp_all

lemma otherWrites_statuses:
  "updateStatus (otherWrites pc ps pt r) = updateStatus r" "failWith (otherWrites pc ps pt r) = failWith r"
  "waitWith (otherWrites pc ps pt r) = waitWith r" "recordPlacement (otherWrites pc ps pt r) = recordPlacement r"
  "createAndRecord (otherWrites pc ps pt r) = createAndRecord r"
  unfolding fun_eq_iff updateStatus_def failWith_def waitWith_def recordError_def recordWaiting_def
    recordPlacement_def createAndRecord_def otherWrites_fields otherWrites_steps by simp_all

lemma otherWrites_stretches:
  "ensureMachine (otherWrites pc ps pt r) = ensureMachine r" "finishDelete (otherWrites pc ps pt r) = finishDelete r"
  unfolding fun_eq_iff ensureMachine_def finishDelete_def otherWrites_fields otherWrites_steps otherWrites_statuses
  by simp_all

lemma Reconcile_writes: "Reconcile (otherWrites pc ps pt r) req s = Reconcile r req s"
  unfolding Reconcile_def reconcileActive_def reconcileNormal_def reconcileReady_def reconcileDelete_def
    otherWrites_fields otherWrites_reads otherWrites_steps otherWrites_statuses otherWrites_stretches by (rule refl)

section \<open>The claims, over any world\<close>

text \<open>
  C5: a reconcile of one HydraMachine whose own machine, if there is one, is tethered to it (as
  every reconcile leaves it), whatever the API server and the backend answer, leaves every machine with
  another backend name as it was, on every hypervisor, and every other HydraMachine as it is stored. It
  writes no object of another kind: whatever the writes of HydraClusters and templates would do, its outcome is the same.
\<close>

theorem Reconcile_touches_only_its_own:
  assumes "machine_world r stored providerFor releaseOwner ok vms site"
    and "ok (env_backend s)"
    and "stored (env_kube s) req = Some m"
    and "tethered (mr_lib r) site stored vms req (backendName m) s"
    and "Reconcile r req s = (res, s')"
  shows "(n \<noteq> backendName m \<longrightarrow> vms (env_backend s') h n = vms (env_backend s) h n)
       \<and> (key \<noteq> req \<longrightarrow> stored (env_kube s') key = stored (env_kube s) key)
       \<and> Reconcile (r\<lparr>mr_client := (mr_client r)\<lparr>patchHydraCluster := pc, patchHydraClusterStatus := ps,
            patchTemplateStatus := pt\<rparr>\<rparr>) req s = (res, s')"
proof -
  from machine_world.Reconcile_safe [OF assms(1,5) _ assms(2,4)] assms(3)
  have "framed stored vms req (backendName m) s s'" by simp
  then show ?thesis using framedD Reconcile_writes [of pc ps pt r] assms(5) unfolding otherWrites_def by metis
qed

text \<open>
  C4: through a reconcile, successful or failed at any call, a machine on a hypervisor stays tied to
  its object: the object is there, holds the finalizer, and sends every later operation, teardown
  included, to an address of the hypervisor the machine is on, whatever its cluster says then.
\<close>

theorem Reconcile_keeps_tether:
  assumes "machine_world r stored providerFor releaseOwner ok vms site"
    and "ok (env_backend s)"
    and "stored (env_kube s) req = Some m"
    and "tethered (mr_lib r) site stored vms req (backendName m) s"
    and "Reconcile r req s = (res, s')"
    and "vms (env_backend s') h (backendName m) = Some i"
  shows "\<exists>m'. stored (env_kube s') req = Some m' \<and> backendName m' = backendName m
     \<and> containsFinalizer (mr_lib r) (om_finalizers (hm_meta m')) MachineFinalizer
     \<and> (\<exists>a. site a = h \<and> (\<forall>link. placementFor m' link = Inr a))"
proof -
  from machine_world.Reconcile_safe [OF assms(1,5) _ assms(2,4)] assms(3)
  have "tethered (mr_lib r) site stored vms req (backendName m) s'" by simp
  with assms(6) obtain m' where "stored (env_kube s') req = Some m'" "backendName m' = backendName m"
    "anchored (mr_lib r) site m' h" by (auto simp: tethered_def)
  then show ?thesis using recordsHost_placement unfolding anchored_def by blast
qed

section \<open>Runs\<close>

text \<open>
  Every machine on a hypervisor but the foreign ones, which were there before, belongs to a stored
  object that holds the finalizer and records the hypervisor.
\<close>

definition noOrphans ::
  "lib \<Rightarrow> (string \<Rightarrow> string) \<Rightarrow> ('k \<Rightarrow> NamespacedName \<Rightarrow> HydraMachine option) \<Rightarrow> ('b \<Rightarrow> string \<Rightarrow> string \<rightharpoonup> string)
    \<Rightarrow> string set \<Rightarrow> ('k, 'b) env \<Rightarrow> bool" where
  "noOrphans L site stored vms foreign s \<longleftrightarrow>
     (\<forall>h n. vms (env_backend s) h n \<noteq> None \<longrightarrow> n \<notin> foreign \<longrightarrow>
        (\<exists>key m. stored (env_kube s) key = Some m \<and> backendName m = n \<and> anchored L site m h))"

text \<open>No two stored objects share a backend name, and none has a foreign one.\<close>

definition namesApart ::
  "('k \<Rightarrow> NamespacedName \<Rightarrow> HydraMachine option) \<Rightarrow> string set \<Rightarrow> 'k \<Rightarrow> bool" where
  "namesApart stored foreign k \<longleftrightarrow>
     (\<forall>key m. stored k key = Some m \<longrightarrow> backendName m \<notin> foreign \<and>
        (\<forall>key' m'. stored k key' = Some m' \<longrightarrow> backendName m' = backendName m \<longrightarrow> key' = key))"

text \<open>
  A run is a sequence of whole reconciles of any objects, with what others do to the API server between them:
  create objects, ask for deletions, change clusters and labels. They leave an object that holds the
  finalizer in place, with its name and records.
\<close>

inductive world_run ::
  "('k, 'b) HydraMachineReconciler \<Rightarrow> (string \<Rightarrow> string) \<Rightarrow> ('k \<Rightarrow> NamespacedName \<Rightarrow> HydraMachine option) \<Rightarrow> string set
    \<Rightarrow> ('k, 'b) env \<Rightarrow> ('k, 'b) env \<Rightarrow> bool"
  for r :: "('k, 'b) HydraMachineReconciler" and site and stored and foreign where
  run_refl: "world_run r site stored foreign s s"
| run_reconcile: "world_run r site stored foreign s s1 \<Longrightarrow> namesApart stored foreign (env_kube s1) \<Longrightarrow>
    Reconcile r req s1 = (res, s2) \<Longrightarrow> world_run r site stored foreign s s2"
| run_others: "world_run r site stored foreign s s1 \<Longrightarrow> env_backend s2 = env_backend s1 \<Longrightarrow>
    (\<And>key m h. stored (env_kube s1) key = Some m \<Longrightarrow> anchored (mr_lib r) site m h \<Longrightarrow>
       \<exists>m'. stored (env_kube s2) key = Some m' \<and> backendName m' = backendName m \<and> anchored (mr_lib r) site m' h) \<Longrightarrow>
    world_run r site stored foreign s s2"

lemma noOrphansD:
  assumes "noOrphans L site stored vms foreign s" "vms (env_backend s) h n \<noteq> None" "n \<notin> foreign"
  obtains key m where "stored (env_kube s) key = Some m" "backendName m = n" "anchored L site m h"
  using assms unfolding noOrphans_def by blast

context machine_world
begin

lemma Reconcile_absent:
  assumes "inv (env_backend s)" "stored (env_kube s) req = None" "Reconcile r req s = (res, s')"
  shows "inv (env_backend s') \<and> vms (env_backend s') = vms (env_backend s) \<and> env_kube s' = env_kube s"
  using assms get_stored release_frame [OF assms(1)] uses_release
  by (auto simp: Reconcile_def release_def split: sum.splits if_splits)

lemma Reconcile_noOrphans:
  assumes i: "inv (env_backend s)" and no: "noOrphans (mr_lib r) site stored vms foreign s"
    and ap: "namesApart stored foreign (env_kube s)" and re: "Reconcile r req s = (res, s')"
  shows "inv (env_backend s') \<and> noOrphans (mr_lib r) site stored vms foreign s'"
proof (cases "stored (env_kube s) req")
  case None
  from Reconcile_absent [OF i None re] no show ?thesis by (simp add: noOrphans_def)
next
  case (Some m)
  let ?n = "backendName m"
  have "teth req ?n s"
    unfolding tethered_def
  proof (intro allI impI)
    fix h assume "vms (env_backend s) h ?n \<noteq> None"
    moreover have "?n \<notin> foreign" using ap Some unfolding namesApart_def by blast
    ultimately obtain key m' where m': "stored (env_kube s) key = Some m'" "backendName m' = ?n"
      "anchored (mr_lib r) site m' h" by (rule noOrphansD [OF no])
    with ap Some have "key = req" unfolding namesApart_def by blast
    with m' show "\<exists>m'. stored (env_kube s) req = Some m' \<and> backendName m' = ?n \<and> anchored (mr_lib r) site m' h" by blast
  qed
  from Reconcile_safe [OF re _ i this] Some have ss: "safeStep req ?n s s'" by simp
  have "noOrphans (mr_lib r) site stored vms foreign s'"
    unfolding noOrphans_def
  proof (intro allI impI)
    fix h n assume vm: "vms (env_backend s') h n \<noteq> None" and nf: "n \<notin> foreign"
    show "\<exists>key m. stored (env_kube s') key = Some m \<and> backendName m = n \<and> anchored (mr_lib r) site m h"
    proof (cases "n = ?n")
      case True
      with ss vm show ?thesis unfolding tethered_def by blast
    next
      case False
      with ss vm have "vms (env_backend s) h n \<noteq> None" using framedD(1) by metis
      then obtain key m' where m': "stored (env_kube s) key = Some m'" "backendName m' = n"
        "anchored (mr_lib r) site m' h" using nf by (rule noOrphansD [OF no])
      with False Some have "key \<noteq> req" by auto
      with ss m'(1) have "stored (env_kube s') key = Some m'" using framedD(2) by metis
      with m' show ?thesis by blast
    qed
  qed
  with ss show ?thesis by blast
qed

lemma run_noOrphans:
  assumes "world_run r site stored foreign s s'"
    and "inv (env_backend s)" "noOrphans (mr_lib r) site stored vms foreign s"
  shows "inv (env_backend s') \<and> noOrphans (mr_lib r) site stored vms foreign s'"
  using assms
proof (induction rule: world_run.induct)
  case (run_refl s)
  then show ?case by simp
next
  case (run_reconcile s s1 req res s2)
  then show ?case using Reconcile_noOrphans by blast
next
  case (run_others s s1 s2)
  then have 1: "inv (env_backend s1)" "noOrphans (mr_lib r) site stored vms foreign s1" by blast+
  have "noOrphans (mr_lib r) site stored vms foreign s2"
    unfolding noOrphans_def
  proof (intro allI impI)
    fix h n assume "vms (env_backend s2) h n \<noteq> None" "n \<notin> foreign"
    then have "vms (env_backend s1) h n \<noteq> None" "n \<notin> foreign" using run_others.hyps(2) by simp_all
    then obtain key m where "stored (env_kube s1) key = Some m" "backendName m = n" "anchored (mr_lib r) site m h"
      by (rule noOrphansD [OF 1(2)])
    with run_others.hyps(3) show "\<exists>key m. stored (env_kube s2) key = Some m \<and> backendName m = n
        \<and> anchored (mr_lib r) site m h" by metis
  qed
  with 1(1) run_others.hyps(2) show ?case by simp
qed

end

text \<open>
  Over any run of reconciles, with calls failing anywhere and others editing objects in between,
  no machine is orphaned: each machine on a hypervisor belongs to a stored HydraMachine that holds
  the finalizer and whose operations go to that hypervisor.
\<close>

theorem no_orphaned_machine:
  assumes "machine_world r stored providerFor releaseOwner ok vms site"
    and "ok (env_backend s)"
    and "noOrphans (mr_lib r) site stored vms foreign s"
    and "world_run r site stored foreign s s'"
    and "vms (env_backend s') h n = Some i"
    and "n \<notin> foreign"
  shows "\<exists>key m. stored (env_kube s') key = Some m \<and> backendName m = n
     \<and> containsFinalizer (mr_lib r) (om_finalizers (hm_meta m)) MachineFinalizer
     \<and> (\<exists>a. site a = h \<and> (\<forall>link. placementFor m link = Inr a))"
proof -
  from machine_world.run_noOrphans [OF assms(1,4,2,3)]
  have no: "noOrphans (mr_lib r) site stored vms foreign s'" by blast
  have "vms (env_backend s') h n \<noteq> None" using assms(5) by simp
  then obtain key m where "stored (env_kube s') key = Some m" "backendName m = n" "anchored (mr_lib r) site m h"
    using assms(6) by (rule noOrphansD [OF no])
  then show ?thesis using recordsHost_placement unfolding anchored_def by blast
qed

end
