(* ===== verification/Fake_Provider.thy ===== *)
theory Fake_Provider
  imports Provider_Contract "HOL-Library.AList"
begin

text \<open>
  \<^verbatim>\<open>internal/providers/fake/fake.go\<close>: the in-memory backend, every operation with its call
  counters and injected failures, and its two indexes, machines by id and ids by name. The order of
  a Go map is not specified; the association lists here stand for any order. The mutex is not
  modelled: each method holds it from its first to its last statement. \<^verbatim>\<open>copyState\<close> is the
  identity on values.
\<close>

section \<open>The backend\<close>

record FakeProvider =
  fk_machines :: "(string \<times> MachineState) list"
  fk_byName :: "(string \<times> string) list"
  fk_nextID :: nat
  fk_createCalls :: nat
  fk_deleteCalls :: nat
  fk_deleteByNamePools :: "string list"
  fk_lastSpec :: MachineSpec
  fk_lastInfrastructure :: "InfrastructureSpec option"
  fk_infrastructureChecks :: nat
  fk_createErr :: "goerr option"
  fk_infrastructureErr :: "goerr option"
  fk_getErr :: "goerr option"
  fk_findErr :: "goerr option"
  fk_deleteErr :: "goerr option"
  fk_readyOnCreate :: bool
  fk_partials :: "string list"

definition newFake :: FakeProvider where
  "newFake = \<lparr>fk_machines = [], fk_byName = [], fk_nextID = 0, fk_createCalls = 0, fk_deleteCalls = 0,
     fk_deleteByNamePools = [], fk_lastSpec = nameOnlySpec [], fk_lastInfrastructure = None,
     fk_infrastructureChecks = 0, fk_createErr = None, fk_infrastructureErr = None, fk_getErr = None,
     fk_findErr = None, fk_deleteErr = None, fk_readyOnCreate = False, fk_partials = []\<rparr>"

definition fakeStoragePoolFor :: "string \<Rightarrow> string \<Rightarrow> string" where
  "fakeStoragePoolFor dflt requested = (if requested \<noteq> [] then requested else dflt)"

definition fakeID :: "nat \<Rightarrow> string" where
  "fakeID k = ''fake-'' @ itoa k"

text \<open>
  Reading \<^verbatim>\<open>p.machines[id]\<close> for an id of \<^verbatim>\<open>byName\<close> that has no machine gives a nil state:
  the callers would return it with no error. The indexes agree in every reachable state, so the
  error in its place is never returned.
\<close>

definition stateAt :: "FakeProvider \<Rightarrow> string \<Rightarrow> goerr + MachineState" where
  "stateAt p i = (case map_of (fk_machines p) i of
     Some st \<Rightarrow> Inr st | None \<Rightarrow> Inl (NewErr ''nil state'' [i]))"

definition fakeCreate :: "MachineSpec \<Rightarrow> FakeProvider \<Rightarrow> (goerr + MachineState) \<times> FakeProvider" where
  "fakeCreate spec p0 =
     (let p = p0\<lparr>fk_createCalls := fk_createCalls p0 + 1, fk_lastSpec := spec\<rparr> in
      case fk_createErr p of
        Some e \<Rightarrow> (Inl e, p)
      | None \<Rightarrow>
          (case map_of (fk_byName p) (ms_name spec) of
             Some i \<Rightarrow> (stateAt p i, p)
           | None \<Rightarrow>
               let k = fk_nextID p + 1;
                   i = fakeID k;
                   state = \<lparr>st_id = i, st_name = ms_name spec, st_ready = fk_readyOnCreate p,
                            st_addresses = [\<lparr>addr_type = Hostname, addr_value = ms_name spec\<rparr>]\<rparr>
               in (Inr state, p\<lparr>fk_nextID := k, fk_machines := AList.update i state (fk_machines p),
                    fk_byName := AList.update (ms_name spec) i (fk_byName p)\<rparr>)))"

definition fakeEnsureInfrastructure :: "InfrastructureSpec \<Rightarrow> FakeProvider \<Rightarrow> goerr option \<times> FakeProvider" where
  "fakeEnsureInfrastructure spec p =
     (fk_infrastructureErr p, p\<lparr>fk_infrastructureChecks := fk_infrastructureChecks p + 1,
        fk_lastInfrastructure := Some spec\<rparr>)"

definition fakeGet :: "string \<Rightarrow> FakeProvider \<Rightarrow> (goerr + MachineState) \<times> FakeProvider" where
  "fakeGet i p = (case fk_getErr p of
     Some e \<Rightarrow> (Inl e, p)
   | None \<Rightarrow> (case map_of (fk_machines p) i of
       None \<Rightarrow> (Inl (Sentinel ErrNotFound), p)
     | Some st \<Rightarrow> (Inr st, p)))"

definition fakeFindByName :: "string \<Rightarrow> FakeProvider \<Rightarrow> (goerr + MachineState) \<times> FakeProvider" where
  "fakeFindByName n p = (case fk_findErr p of
     Some e \<Rightarrow> (Inl e, p)
   | None \<Rightarrow> (case map_of (fk_byName p) n of
       None \<Rightarrow> (Inl (Sentinel ErrNotFound), p)
     | Some i \<Rightarrow> (stateAt p i, p)))"

text \<open>The loop over \<^verbatim>\<open>byName\<close>, which stops at the first entry with the id.\<close>

fun deleteFirstMapped :: "string \<Rightarrow> (string \<times> string) list \<Rightarrow> (string \<times> string) list" where
  "deleteFirstMapped i [] = []"
| "deleteFirstMapped i ((n, j) # xs) = (if j = i then xs else (n, j) # deleteFirstMapped i xs)"

definition deleteLocked :: "string \<Rightarrow> FakeProvider \<Rightarrow> FakeProvider" where
  "deleteLocked i p = (case map_of (fk_machines p) i of
     None \<Rightarrow> p
   | Some state \<Rightarrow> p\<lparr>fk_byName := deleteFirstMapped (st_id state) (fk_byName p),
                    fk_machines := AList.delete i (fk_machines p)\<rparr>)"

definition fakeDelete :: "string \<Rightarrow> FakeProvider \<Rightarrow> goerr option \<times> FakeProvider" where
  "fakeDelete i p0 =
     (let p = p0\<lparr>fk_deleteCalls := fk_deleteCalls p0 + 1\<rparr> in
      case fk_deleteErr p of
        Some e \<Rightarrow> (Some e, p)
      | None \<Rightarrow> (None, deleteLocked i p))"

definition fakeDeleteByName :: "string \<Rightarrow> string \<Rightarrow> FakeProvider \<Rightarrow> goerr option \<times> FakeProvider" where
  "fakeDeleteByName n pool p0 =
     (let p = p0\<lparr>fk_deleteCalls := fk_deleteCalls p0 + 1,
                fk_deleteByNamePools := fk_deleteByNamePools p0 @ [pool]\<rparr> in
      case fk_deleteErr p of
        Some e \<Rightarrow> (Some e, p)
      | None \<Rightarrow>
          let p1 = p\<lparr>fk_partials := removeAll n (fk_partials p)\<rparr> in
          (None, case map_of (fk_byName p1) n of Some i \<Rightarrow> deleteLocked i p1 | None \<Rightarrow> p1))"

definition addPartial :: "string \<Rightarrow> FakeProvider \<Rightarrow> FakeProvider" where
  "addPartial n p = p\<lparr>fk_partials := List.insert n (fk_partials p)\<rparr>"

definition setReady :: "string \<Rightarrow> bool \<Rightarrow> Address list \<Rightarrow> FakeProvider \<Rightarrow> FakeProvider" where
  "setReady i ready addrs p = (case map_of (fk_machines p) i of
     None \<Rightarrow> p
   | Some st \<Rightarrow> p\<lparr>fk_machines := AList.update i
       (if addrs \<noteq> [] then st\<lparr>st_ready := ready, st_addresses := addrs\<rparr> else st\<lparr>st_ready := ready\<rparr>)
       (fk_machines p)\<rparr>)"

text \<open>The backend as a provider, with the default pool it was configured with.\<close>

definition fakeProvider :: "string \<Rightarrow> FakeProvider MachineProvider" where
  "fakeProvider dflt = \<lparr>prov_name = ''fake'', prov_storagePoolFor = fakeStoragePoolFor dflt,
     prov_create = fakeCreate, prov_get = fakeGet, prov_findByName = fakeFindByName,
     prov_delete = fakeDelete, prov_ensureInfrastructure = fakeEnsureInfrastructure,
     prov_deleteByName = fakeDeleteByName\<rparr>"

section \<open>The invariant\<close>

text \<open>
  The indexes are inverse to each other, every id was handed out by the counter, and no injected
  failure is the one that says a machine is absent.
\<close>

definition honestErr :: "goerr option \<Rightarrow> bool" where
  "honestErr err \<longleftrightarrow> (case err of None \<Rightarrow> True | Some e \<Rightarrow> \<not> errorsIs e ErrNotFound)"

definition fake_inv :: "FakeProvider \<Rightarrow> bool" where
  "fake_inv p \<longleftrightarrow>
     distinct (map fst (fk_byName p)) \<and> distinct (map fst (fk_machines p))
   \<and> (\<forall>n i. map_of (fk_byName p) n = Some i \<longleftrightarrow>
        (\<exists>st. map_of (fk_machines p) i = Some st \<and> st_name st = n))
   \<and> (\<forall>i st. map_of (fk_machines p) i = Some st \<longrightarrow>
        st_id st = i \<and> (\<exists>k. 1 \<le> k \<and> k \<le> fk_nextID p \<and> i = fakeID k))
   \<and> honestErr (fk_getErr p) \<and> honestErr (fk_findErr p)"

abbreviation fake_vm :: "FakeProvider \<Rightarrow> string \<rightharpoonup> string" where
  "fake_vm p \<equiv> map_of (fk_byName p)"

lemma fake_invD:
  assumes "fake_inv p"
  shows "fake_vm p n = Some i \<longleftrightarrow> (\<exists>st. map_of (fk_machines p) i = Some st \<and> st_name st = n)"
    and "map_of (fk_machines p) i = Some st \<Longrightarrow> st_id st = i"
    and "map_of (fk_machines p) i = Some st \<Longrightarrow> \<exists>k. 1 \<le> k \<and> k \<le> fk_nextID p \<and> i = fakeID k"
    and "fk_getErr p = Some e \<Longrightarrow> \<not> errorsIs e ErrNotFound"
    and "fk_findErr p = Some e \<Longrightarrow> \<not> errorsIs e ErrNotFound"
  using assms by (auto simp: fake_inv_def honestErr_def)

lemma fakeID_inj: "fakeID a = fakeID b \<Longrightarrow> a = b"
  by (simp add: fakeID_def itoa_inj)

lemma fake_inv_fresh:
  "fake_inv p \<Longrightarrow> map_of (fk_machines p) (fakeID (fk_nextID p + 1)) = None"
  by (metis fakeID_inj fake_invD(3) not_Some_eq not_add_less1 le_imp_less_Suc Suc_eq_plus1 nat_less_le)

lemma deleteFirstMapped_keys:
  "distinct (map fst xs) \<Longrightarrow>
   distinct (map fst (deleteFirstMapped i xs)) \<and> set (map fst (deleteFirstMapped i xs)) \<subseteq> set (map fst xs)"
  by (induction i xs rule: deleteFirstMapped.induct) auto

lemma map_of_deleteFirstMapped:
  assumes "distinct (map fst xs)" "\<And>n n'. map_of xs n = Some i \<Longrightarrow> map_of xs n' = Some i \<Longrightarrow> n = n'"
  shows "map_of (deleteFirstMapped i xs) n = (if map_of xs n = Some i then None else map_of xs n)"
  using assms
proof (induction i xs rule: deleteFirstMapped.induct)
  case (2 i m j xs)
  show ?case
  proof (cases "j = i")
    case True
    have "map_of xs n \<noteq> Some i" if "n \<noteq> m" for n
      using "2.prems"(2) [of n m] that True by auto
    with True "2.prems"(1) show ?thesis
      by (cases "n = m") (auto simp: map_of_eq_None_iff [symmetric])
  next
    case False
    have u: "n = n'" if "map_of xs n = Some i" "map_of xs n' = Some i" for n n'
    proof -
      have "map_of xs m = None" using "2.prems"(1) by (simp add: map_of_eq_None_iff)
      with that have "n \<noteq> m" "n' \<noteq> m" by auto
      then show ?thesis using that "2.prems"(2) [of n n'] by simp
    qed
    with False "2.IH" [OF False] "2.prems"(1) show ?thesis by auto
  qed
qed simp

text \<open>Deleting removes one entry of each index.\<close>

lemma deleteLocked_inv:
  assumes "fake_inv p"
  shows "fake_inv (deleteLocked i p)"
    and "fake_vm (deleteLocked i p) n = (if fake_vm p n = Some i then None else fake_vm p n)"
proof -
  have *: "fake_inv (deleteLocked i p) \<and>
     fake_vm (deleteLocked i p) n = (if fake_vm p n = Some i then None else fake_vm p n)" for n
  proof (cases "map_of (fk_machines p) i")
    case None
    with fake_invD(1) [OF assms] assms show ?thesis by (auto simp: deleteLocked_def)
  next
    case (Some st)
    then have st: "st_id st = i" using fake_invD(2) [OF assms] by blast
    have vm: "map_of (deleteFirstMapped i (fk_byName p)) n = (if fake_vm p n = Some i then None else fake_vm p n)" for n
    proof (rule map_of_deleteFirstMapped)
      show "distinct (map fst (fk_byName p))" using assms by (simp add: fake_inv_def)
      show "n = n'" if "fake_vm p n = Some i" "fake_vm p n' = Some i" for n n'
        using that Some by (simp add: fake_invD(1) [OF assms])
    qed
    have ms: "map_of (AList.delete i (fk_machines p)) j = (if j = i then None else map_of (fk_machines p) j)" for j
      by (simp add: AList.delete_conv')
    have idx: "map_of (deleteFirstMapped i (fk_byName p)) n = Some j \<longleftrightarrow>
        (\<exists>t. map_of (AList.delete i (fk_machines p)) j = Some t \<and> st_name t = n)" for n j
      by (cases "j = i") (auto simp: vm ms simp flip: fake_invD(1) [OF assms])
    have "fake_inv (deleteLocked i p)"
      using assms deleteFirstMapped_keys [of "fk_byName p" i]
      by (simp add: fake_inv_def deleteLocked_def Some st distinct_delete idx ms del: map_of_eq_Some_iff)
    with vm show ?thesis by (simp add: deleteLocked_def Some st)
  qed
  show "fake_inv (deleteLocked i p)" using * by blast
  show "fake_vm (deleteLocked i p) n = (if fake_vm p n = Some i then None else fake_vm p n)" using * by blast
qed

lemma fakeCreate_new:
  assumes "fake_inv p" "fake_vm p (ms_name spec) = None" "fk_createErr p = None"
  shows "\<exists>st. fst (fakeCreate spec p) = Inr st \<and> st_name st = ms_name spec
     \<and> fake_inv (snd (fakeCreate spec p))
     \<and> fake_vm (snd (fakeCreate spec p)) = (fake_vm p)(ms_name spec \<mapsto> st_id st)"
proof -
  let ?p = "snd (fakeCreate spec p)" and ?i = "fakeID (fk_nextID p + 1)"
  have no: "map_of (fk_machines p) ?i = None" by (rule fake_inv_fresh [OF assms(1)])
  have vm: "fake_vm ?p = (fake_vm p)(ms_name spec \<mapsto> ?i)"
    using assms by (simp add: fakeCreate_def Let_def update_conv')
  obtain st where st: "fst (fakeCreate spec p) = Inr st" "st_name st = ms_name spec" "st_id st = ?i"
      "map_of (fk_machines ?p) = (map_of (fk_machines p))(?i \<mapsto> st)"
    using assms by (simp add: fakeCreate_def Let_def update_conv')
  have nx: "fk_nextID ?p = fk_nextID p + 1" "fk_getErr ?p = fk_getErr p" "fk_findErr ?p = fk_findErr p"
      "distinct (map fst (fk_byName ?p))" "distinct (map fst (fk_machines ?p))"
    using assms by (simp_all add: fakeCreate_def Let_def distinct_update fake_inv_def)
  have ids: "(map_of (fk_machines ?p) j = Some t) \<Longrightarrow> st_id t = j \<and> (\<exists>k. 1 \<le> k \<and> k \<le> fk_nextID ?p \<and> j = fakeID k)" for j t
    using fake_invD(2,3) [OF assms(1), of j t] st nx(1) by (cases "j = ?i") (auto intro: le_SucI)
  have idx: "fake_vm ?p n = Some j \<longleftrightarrow> (\<exists>t. map_of (fk_machines ?p) j = Some t \<and> st_name t = n)" for n j
    using fake_invD(1) [OF assms(1), of n j] fake_invD(1) [OF assms(1), of "ms_name spec" j] no assms(2) st vm
    by auto
  have "fake_inv ?p"
    unfolding fake_inv_def using nx idx ids assms(1) by (auto simp: fake_inv_def)
  with st vm show ?thesis by auto
qed

section \<open>The laws\<close>

text \<open>The counters and the recorded arguments are outside the invariant.\<close>

lemma fake_inv_counters [simp]:
  "fake_inv (p\<lparr>fk_createCalls := a\<rparr>) = fake_inv p"
  "fake_inv (p\<lparr>fk_lastSpec := sp\<rparr>) = fake_inv p"
  "fake_inv (p\<lparr>fk_deleteCalls := a\<rparr>) = fake_inv p"
  "fake_inv (p\<lparr>fk_deleteByNamePools := ps\<rparr>) = fake_inv p"
  "fake_inv (p\<lparr>fk_infrastructureChecks := a\<rparr>) = fake_inv p"
  "fake_inv (p\<lparr>fk_lastInfrastructure := la\<rparr>) = fake_inv p"
  "fake_inv (p\<lparr>fk_partials := ns\<rparr>) = fake_inv p"
  by (simp_all add: fake_inv_def)

lemma stateAt_ok:
  assumes "fake_inv p" "fake_vm p n = Some i"
  shows "\<exists>st. stateAt p i = Inr st \<and> st_name st = n \<and> st_id st = i"
  using assms fake_invD(1,2) [OF assms(1)] by (auto simp: stateAt_def simp del: map_of_eq_Some_iff)

lemma fake_create_law:
  assumes "fake_inv p" "fakeCreate spec p = (res, p')"
  shows "fake_inv p'"
    and "case res of Inl e \<Rightarrow> fake_vm p' = fake_vm p
         | Inr st \<Rightarrow> st_name st = ms_name spec \<and> fake_vm p' = (fake_vm p)(ms_name spec \<mapsto> st_id st)
             \<and> fake_vm p (ms_name spec) \<in> {None, Some (st_id st)}"
proof -
  have "fake_inv p' \<and> (case res of Inl e \<Rightarrow> fake_vm p' = fake_vm p
         | Inr st \<Rightarrow> st_name st = ms_name spec \<and> fake_vm p' = (fake_vm p)(ms_name spec \<mapsto> st_id st)
             \<and> fake_vm p (ms_name spec) \<in> {None, Some (st_id st)})"
  proof (cases "fk_createErr p")
    case (Some e)
    with assms show ?thesis by (auto simp: fakeCreate_def)
  next
    case ok: None
    show ?thesis
    proof (cases "fake_vm p (ms_name spec)")
      case None
      from fakeCreate_new [OF assms(1) None ok] assms(2) None show ?thesis by auto
    next
      case (Some i)
      obtain st where st: "stateAt p i = Inr st" "st_name st = ms_name spec" "st_id st = i"
        using stateAt_ok [OF assms(1) Some] by blast
      have "stateAt (p\<lparr>fk_createCalls := c, fk_lastSpec := spec\<rparr>) i = stateAt p i" for c
        by (simp add: stateAt_def)
      with ok Some st assms have "res = Inr st" "fake_vm p' = fake_vm p" "fake_inv p'"
        by (auto simp: fakeCreate_def simp del: map_of_eq_Some_iff)
      with Some st show ?thesis by (simp add: fun_upd_idem del: map_of_eq_Some_iff)
    qed
  qed
  then show "fake_inv p'" "case res of Inl e \<Rightarrow> fake_vm p' = fake_vm p
         | Inr st \<Rightarrow> st_name st = ms_name spec \<and> fake_vm p' = (fake_vm p)(ms_name spec \<mapsto> st_id st)
             \<and> fake_vm p (ms_name spec) \<in> {None, Some (st_id st)}" by blast+
qed

lemma fake_get_law:
  assumes "fake_inv p" "fakeGet i p = (res, p')"
  shows "p' = p \<and> (case res of Inl e \<Rightarrow> errorsIs e ErrNotFound \<longrightarrow> i \<notin> ran (fake_vm p)
         | Inr st \<Rightarrow> st_id st = i \<and> fake_vm p (st_name st) = Some i)"
  using assms(2) fake_invD [OF assms(1)]
  by (auto simp: fakeGet_def ran_def simp del: map_of_eq_Some_iff split: option.splits)

lemma fake_find_law:
  assumes "fake_inv p" "fakeFindByName n p = (res, p')"
  shows "p' = p \<and> (case res of Inl e \<Rightarrow> errorsIs e ErrNotFound \<longrightarrow> fake_vm p n = None
         | Inr st \<Rightarrow> st_name st = n \<and> fake_vm p n = Some (st_id st))"
  using assms(2) fake_invD(5) [OF assms(1)] stateAt_ok [OF assms(1), of n]
  by (auto simp: fakeFindByName_def simp del: map_of_eq_Some_iff split: option.splits)

lemma fake_delete_law:
  assumes "fake_inv p" "fakeDelete i p = (res, p')"
  shows "fake_inv p' \<and> fake_vm p' n =
     (if res = None \<and> fake_vm p n = Some i then None else fake_vm p n)"
proof -
  let ?p = "p\<lparr>fk_deleteCalls := fk_deleteCalls p + 1\<rparr>"
  have "fake_inv ?p" using assms(1) by simp
  from deleteLocked_inv [OF this, of i] assms show ?thesis
    by (auto simp: fakeDelete_def Let_def simp del: map_of_eq_Some_iff split: option.splits)
qed

lemma fake_vm_unique:
  assumes "fake_inv p" "fake_vm p m = Some i" "fake_vm p n = Some i"
  shows "m = n"
  using assms(2,3) unfolding fake_invD(1) [OF assms(1)] by auto

lemma fake_deleteByName_law:
  assumes "fake_inv p" "fakeDeleteByName n pool p = (res, p')"
  shows "fake_inv p' \<and> fake_vm p' m = (if res = None \<and> m = n then None else fake_vm p m)"
proof (cases "fk_deleteErr p")
  case (Some e)
  with assms show ?thesis by (auto simp: fakeDeleteByName_def)
next
  case ok: None
  let ?p = "p\<lparr>fk_deleteCalls := fk_deleteCalls p + 1,
     fk_deleteByNamePools := fk_deleteByNamePools p @ [pool], fk_partials := removeAll n (fk_partials p)\<rparr>"
  have inv: "fake_inv ?p" using assms(1) by simp
  show ?thesis
  proof (cases "fake_vm p n")
    case None
    with ok assms inv show ?thesis by (auto simp: fakeDeleteByName_def)
  next
    case (Some i)
    with ok assms(2) have "res = None" "p' = deleteLocked i ?p"
      by (auto simp: fakeDeleteByName_def simp del: map_of_eq_Some_iff)
    moreover have "fake_vm p m = Some i \<longleftrightarrow> m = n"
      using fake_vm_unique [OF assms(1) _ Some] Some by blast
    ultimately show ?thesis
      using deleteLocked_inv [OF inv, of i] by simp
  qed
qed

lemma fake_ids_distinct: "fake_inv p \<Longrightarrow> inj_on (fake_vm p) (dom (fake_vm p))"
  unfolding inj_on_def by (metis domD fake_vm_unique)

lemma fake_ids_nonempty:
  assumes "fake_inv p"
  shows "[] \<notin> ran (fake_vm p)"
proof
  assume "[] \<in> ran (fake_vm p)"
  then obtain n where "fake_vm p n = Some []" by (auto simp: ran_def)
  then obtain st where "map_of (fk_machines p) [] = Some st" using fake_invD(1) [OF assms] by blast
  from fake_invD(3) [OF assms this] show False by (auto simp: fakeID_def)
qed

lemma fake_ops [simp]:
  "prov_name (fakeProvider d) = ''fake''" "prov_create (fakeProvider d) = fakeCreate"
  "prov_get (fakeProvider d) = fakeGet" "prov_findByName (fakeProvider d) = fakeFindByName"
  "prov_delete (fakeProvider d) = fakeDelete" "prov_deleteByName (fakeProvider d) = fakeDeleteByName"
  "prov_ensureInfrastructure (fakeProvider d) = fakeEnsureInfrastructure"
  "prov_storagePoolFor (fakeProvider d) = fakeStoragePoolFor d"
  by (simp_all add: fakeProvider_def)

text \<open>An id of this backend is no UUID, so it has one spelling.\<close>

lemma canonID_fakeID: "canonID (fakeID k) = fakeID k" "parseUUID (fakeID k) \<noteq> Inr u"
proof -
  have "hexValue CHR ''k'' = None" by (simp add: hexValue_def)
  then have "\<exists>e. parseUUID (fakeID k) = Inl e" by (intro parseUUID_none [of "CHR ''k''"]) (simp_all add: fakeID_def)
  then show "canonID (fakeID k) = fakeID k" "parseUUID (fakeID k) \<noteq> Inr u" by (auto simp: canonID_def)
qed

lemma fake_canon:
  assumes "fake_inv p" "fake_vm p n = Some j"
  shows "canonID i = j \<longleftrightarrow> i = j"
proof -
  obtain st where "map_of (fk_machines p) j = Some st" using fake_invD(1) [OF assms(1)] assms(2) by blast
  then obtain k where j: "j = fakeID k" using fake_invD(3) [OF assms(1)] by blast
  show ?thesis
  proof (cases "parseUUID i")
    case (Inl e)
    then show ?thesis by (simp add: canonID_def)
  next
    case (Inr u)
    then have "parseUUID (canonID i) = Inr u" by (auto simp: canonID_def dest: parseUUID_length)
    with Inr j canonID_fakeID show ?thesis by metis
  qed
qed

lemma fake_canon_ran: "fake_inv p \<Longrightarrow> canonID i \<in> ran (fake_vm p) \<longleftrightarrow> i \<in> ran (fake_vm p)"
proof -
  assume i: "fake_inv p"
  have "fake_vm p n = Some (canonID i) \<longleftrightarrow> fake_vm p n = Some i" for n
    using fake_canon [OF i, of n _ i] by (cases "fake_vm p n") auto
  then show ?thesis by (simp add: ran_def)
qed

lemma fake_canon_at: "fake_inv p \<Longrightarrow> fake_vm p n = Some (canonID i) \<longleftrightarrow> fake_vm p n = Some i"
  using fake_canon [of p n _ i] by (cases "fake_vm p n") auto

interpretation fk: machine_provider "fakeProvider dflt" fake_inv fake_vm "\<lambda>_. ()" for dflt
proof (unfold_locales, unfold fake_ops)
  fix b spec st b' assume "fake_inv b" "fakeCreate spec b = (Inr st, b')"
  from fake_create_law [OF this]
  show "fake_inv b' \<and> () = () \<and> st_name st = ms_name spec \<and> fake_vm b' = (fake_vm b)(ms_name spec \<mapsto> st_id st)
      \<and> fake_vm b (ms_name spec) \<in> {None, Some (st_id st)}" by simp
next
  fix b spec e b' assume "fake_inv b" "fakeCreate spec b = (Inl e, b')"
  from fake_create_law [OF this]
  show "fake_inv b' \<and> () = () \<and> (\<forall>n. n \<noteq> ms_name spec \<longrightarrow> fake_vm b' n = fake_vm b n)
      \<and> (fake_vm b (ms_name spec) \<noteq> None \<longrightarrow> fake_vm b' (ms_name spec) = fake_vm b (ms_name spec))" by simp
next
  fix b i st b' assume *: "fake_inv b" "fakeGet i b = (Inr st, b')"
  from fake_get_law [OF *] *(1)
  show "fake_inv b' \<and> () = () \<and> fake_vm b' = fake_vm b \<and> st_id st = canonID i \<and> fake_vm b (st_name st) = Some (canonID i)"
    using fake_canon [of b "st_name st" i i] by simp
next
  fix b i e b' assume *: "fake_inv b" "fakeGet i b = (Inl e, b')"
  from fake_get_law [OF *] *(1)
  show "fake_inv b' \<and> () = () \<and> fake_vm b' = fake_vm b \<and> (errorsIs e ErrNotFound \<longrightarrow> canonID i \<notin> ran (fake_vm b))"
    by (simp add: fake_canon_ran)
next
  fix b n st b' assume *: "fake_inv b" "fakeFindByName n b = (Inr st, b')"
  from fake_find_law [OF *] *(1)
  show "fake_inv b' \<and> () = () \<and> fake_vm b' = fake_vm b \<and> st_name st = n \<and> fake_vm b n = Some (st_id st)" by simp
next
  fix b n e b' assume *: "fake_inv b" "fakeFindByName n b = (Inl e, b')"
  from fake_find_law [OF *] *(1)
  show "fake_inv b' \<and> () = () \<and> fake_vm b' = fake_vm b \<and> (errorsIs e ErrNotFound \<longrightarrow> fake_vm b n = None)" by simp
next
  fix b i res b' assume *: "fake_inv b" "fakeDelete i b = (res, b')"
  from fake_delete_law [OF *]
  show "fake_inv b' \<and> () = () \<and> fake_vm b' \<subseteq>\<^sub>m fake_vm b \<and> (\<forall>n. fake_vm b n \<noteq> Some (canonID i) \<longrightarrow> fake_vm b' n = fake_vm b n)"
    by (simp add: fake_canon_at [OF *(1)]) (simp add: map_le_def dom_def del: map_of_eq_Some_iff)
next
  fix b i b' assume "fake_inv b" "fakeDelete i b = (None, b')"
  note d = fake_delete_law [OF this]
  then have "i \<notin> ran (fake_vm b')" by (simp add: ran_def del: map_of_eq_Some_iff)
  with d show "canonID i \<notin> ran (fake_vm b')" by (simp add: fake_canon_ran)
next
  fix b n pool res b' assume "fake_inv b" "fakeDeleteByName n pool b = (res, b')"
  from fake_deleteByName_law [OF this]
  show "fake_inv b' \<and> () = () \<and> fake_vm b' \<subseteq>\<^sub>m fake_vm b \<and> (\<forall>n'. n' \<noteq> n \<longrightarrow> fake_vm b' n' = fake_vm b n')"
    by (simp add: map_le_def dom_def del: map_of_eq_Some_iff)
next
  fix b n pool b' assume "fake_inv b" "fakeDeleteByName n pool b = (None, b')"
  from fake_deleteByName_law [OF this] show "fake_vm b' n = None" by simp
next
  fix b ispec res b' assume "fake_inv b" "fakeEnsureInfrastructure ispec b = (res, b')"
  then show "fake_inv b' \<and> () = () \<and> fake_vm b' = fake_vm b"
    by (auto simp: fakeEnsureInfrastructure_def)
next
  fix b i assume "fake_inv b" "i \<in> ran (fake_vm b)"
  then show "canonID i = i" using fake_canon [of b _ i i] by (auto simp: ran_def)
qed (use fake_ids_distinct fake_ids_nonempty in simp_all)

end
