(* ===== verification/Ref_World.thy ===== *)
theory Ref_World
  imports Machine_World Fake_Provider
begin

text \<open>
  A world the reconciler can be run in: an API server that is a map of HydraMachines, and one
  in-memory backend per hypervisor. It discharges the interfaces \<open>api_server\<close>, \<open>fleet\<close> and
  \<open>machine_world\<close>, and the witnesses of the machine reconciler's claims run in it.
\<close>

section \<open>An API server\<close>

type_synonym refApi = "NamespacedName \<Rightarrow> HydraMachine option"

definition notFound :: goerr where "notFound = ApiError ApiNotFound"

definition refPatch :: "bool \<Rightarrow> HydraMachine \<Rightarrow> HydraMachine \<Rightarrow> refApi \<Rightarrow> (goerr + HydraMachine) \<times> refApi" where
  "refPatch lock base m k =
     (let key = objectKey (hm_meta m) in
      case k key of
        None \<Rightarrow> (Inl notFound, k)
      | Some cur \<Rightarrow>
          let m' = m\<lparr>hm_provisioned := hm_provisioned cur, hm_addresses := hm_addresses cur,
                     hm_conditions := hm_conditions cur\<rparr>
          in (Inr m', k(key := if gone m then None else Some m')))"

definition refStatus :: "HydraMachine \<Rightarrow> HydraMachine \<Rightarrow> refApi \<Rightarrow> (goerr + HydraMachine) \<times> refApi" where
  "refStatus base m k =
     (let key = objectKey (hm_meta m) in
      case k key of
        None \<Rightarrow> (Inl notFound, k)
      | Some cur \<Rightarrow>
          let m' = cur\<lparr>hm_provisioned := hm_provisioned m, hm_addresses := hm_addresses m,
                       hm_conditions := hm_conditions m\<rparr>
          in (Inr m', k(key := Some m')))"

definition refKube :: "refApi kube" where
  "refKube = \<lparr>
     getHydraMachine = (\<lambda>key k. case k key of
        None \<Rightarrow> Inl notFound
      | Some m \<Rightarrow> if objectKey (hm_meta m) = key then Inr m else Inl notFound),
     getMachine = (\<lambda>_ _. Inl notFound), getCluster = (\<lambda>_ _. Inl notFound),
     getHydraCluster = (\<lambda>_ _. Inl notFound), getTemplate = (\<lambda>_ _. Inl notFound),
     getSecret = (\<lambda>_ _. Inl notFound), listHydraMachines = (\<lambda>_ _ _ _. Inr []),
     listTemplates = (\<lambda>_ _. Inr []),
     patchHydraMachine = refPatch, patchHydraMachineStatus = refStatus,
     patchHydraCluster = (\<lambda>_ _ c k. (Inr c, k)), patchHydraClusterStatus = (\<lambda>_ _ c k. (Inr c, k)),
     patchTemplateStatus = (\<lambda>_ t k. (Inr t, k))\<rparr>"

interpretation ra: api_server refKube "\<lambda>k. k"
proof
  fix key k m assume "getHydraMachine refKube key k = Inr m"
  then show "k key = Some m \<and> objectKey (hm_meta m) = key"
    by (simp add: refKube_def split: option.splits if_splits)
next
  fix k base cur m lock m' k'
  assume a: "k (objectKey (hm_meta base)) = Some cur" "core cur = core base" "identity m = identity base"
    "patchHydraMachine refKube lock base m k = (Inr m', k')"
  then have "objectKey (hm_meta m) = objectKey (hm_meta base)" by (simp add: identity_def)
  with a show "core m' = core m \<and> k' = k(objectKey (hm_meta m) := if gone m then None else Some m')"
    by (auto simp: refKube_def refPatch_def Let_def core_def)
next
  fix k base cur m lock e k'
  assume a: "k (objectKey (hm_meta base)) = Some cur" "core cur = core base" "identity m = identity base"
    "patchHydraMachine refKube lock base m k = (Inl e, k')"
  then have "objectKey (hm_meta m) = objectKey (hm_meta base)" by (simp add: identity_def)
  with a show "\<exists>v. k' = k(objectKey (hm_meta m) := v) \<and> (v = k (objectKey (hm_meta m)) \<or> applied m v)"
    by (simp add: refKube_def refPatch_def Let_def)
next
  fix base m k res k' key assume "patchHydraMachineStatus refKube base m k = (res, k')"
  then show "map_option core (k' key) = map_option core (k key)"
    by (auto simp: refKube_def refStatus_def Let_def core_def split: option.splits)
next
  fix base m k m' k' assume "patchHydraMachineStatus refKube base m k = (Inr m', k')"
  then show "k' (objectKey (hm_meta m)) = Some m'"
    by (auto simp: refKube_def refStatus_def Let_def split: option.splits)
next
  fix base m k res k' key assume "patchHydraMachineStatus refKube base m k = (res, k')" "key \<noteq> objectKey (hm_meta m)"
  then show "k' key = k key"
    by (auto simp: refKube_def refStatus_def Let_def split: option.splits)
qed

section \<open>A fleet of backends\<close>

text \<open>A provider of one backend, as a provider of the backend at one of many hosts.\<close>

definition onHost :: "string \<Rightarrow> 'b MachineProvider \<Rightarrow> (string \<Rightarrow> 'b) MachineProvider" where
  "onHost h p = \<lparr>prov_name = prov_name p, prov_storagePoolFor = prov_storagePoolFor p,
     prov_create = (\<lambda>spec b. let (res, x) = prov_create p spec (b h) in (res, b(h := x))),
     prov_get = (\<lambda>i b. let (res, x) = prov_get p i (b h) in (res, b(h := x))),
     prov_findByName = (\<lambda>n b. let (res, x) = prov_findByName p n (b h) in (res, b(h := x))),
     prov_delete = (\<lambda>i b. let (res, x) = prov_delete p i (b h) in (res, b(h := x))),
     prov_ensureInfrastructure = (\<lambda>sp b. let (res, x) = prov_ensureInfrastructure p sp (b h) in (res, b(h := x))),
     prov_deleteByName = (\<lambda>n pool b. let (res, x) = prov_deleteByName p n pool (b h) in (res, b(h := x)))\<rparr>"

lemma elsewhere_upd [simp]: "elsewhere (\<lambda>b h. vm (b h)) h (b(h := x)) = elsewhere (\<lambda>b h. vm (b h)) h b"
  by (auto simp: elsewhere_def fun_eq_iff)

lemma onHost_provider:
  assumes "machine_provider p ok vm (\<lambda>_. ())"
  shows "machine_provider (onHost h p) (\<lambda>b. \<forall>h. ok (b h)) (\<lambda>b. vm (b h)) (elsewhere (\<lambda>b h. vm (b h)) h)"
proof (unfold_locales, goal_cases)
  case 1 then show ?case using machine_provider.create_ok [OF assms] by (fastforce simp: onHost_def split: prod.splits)
next
  case 2 then show ?case using machine_provider.create_err [OF assms] by (fastforce simp: onHost_def split: prod.splits)
next
  case 3 then show ?case using machine_provider.get_ok [OF assms] by (fastforce simp: onHost_def split: prod.splits)
next
  case 4 then show ?case using machine_provider.get_err [OF assms] by (fastforce simp: onHost_def split: prod.splits)
next
  case 5 then show ?case using machine_provider.find_ok [OF assms] by (fastforce simp: onHost_def split: prod.splits)
next
  case 6 then show ?case using machine_provider.find_err [OF assms] by (fastforce simp: onHost_def split: prod.splits)
next
  case 7 then show ?case using machine_provider.delete_frame [OF assms] by (fastforce simp: onHost_def split: prod.splits)
next
  case 8 then show ?case using machine_provider.delete_ok [OF assms] by (fastforce simp: onHost_def split: prod.splits)
next
  case 9 then show ?case using machine_provider.deleteByName_frame [OF assms] by (fastforce simp: onHost_def split: prod.splits)
next
  case 10 then show ?case using machine_provider.deleteByName_ok [OF assms] by (fastforce simp: onHost_def split: prod.splits)
next
  case 11 then show ?case using machine_provider.ensure_frame [OF assms] by (fastforce simp: onHost_def split: prod.splits)
next
  case 12 then show ?case using machine_provider.ids_distinct [OF assms] by simp
next
  case 13 then show ?case using machine_provider.ids_nonempty [OF assms] by simp
next
  case 14 then show ?case using machine_provider.ids_canonical [OF assms] by blast
next
  case 15 then show ?case using machine_provider.name_plain [OF assms] by (simp add: onHost_def)
qed

text \<open>The hypervisor of the flags has a name too, as in the set-up the documentation calls typical.\<close>

definition fakeSite :: "string \<Rightarrow> string" where
  "fakeSite address = (if address = ''hv1:16514'' then [] else address)"

lemma fakeSite_flags [simp]: "fakeSite [] = []"
  by (simp add: fakeSite_def)

definition fakeFleet ::
  "Owner \<Rightarrow> Hypervisor option \<Rightarrow> (string \<Rightarrow> FakeProvider)
    \<Rightarrow> (goerr + (string \<Rightarrow> FakeProvider) MachineProvider) \<times> (string \<Rightarrow> FakeProvider)" where
  "fakeFleet owner hv b = (Inr (onHost (fakeSite (hostOf hv)) (fakeProvider ''default'')), b)"

interpretation ff: fleet fakeFleet "\<lambda>_ b. b" "\<lambda>b. \<forall>h. fake_inv (b h)" "\<lambda>b h. fake_vm (b h)" fakeSite
proof
  fix b owner hv p b'
  assume "fakeFleet owner hv b = (Inr p, b')"
  then have "p = onHost (fakeSite (hostOf hv)) (fakeProvider ''default'')" by (simp add: fakeFleet_def)
  with onHost_provider [OF fk.machine_provider_axioms, of "fakeSite (hostOf hv)" "''default''"]
  show "machine_provider p (\<lambda>b. \<forall>h. fake_inv (b h)) (\<lambda>b. fake_vm (b (fakeSite (hostOf hv))))
      (elsewhere (\<lambda>b h. fake_vm (b h)) (fakeSite (hostOf hv)))
      \<and> needsPool p (\<lambda>b. \<forall>h. fake_inv (b h)) (\<lambda>b. fake_vm (b (fakeSite (hostOf hv))))"
    by (simp add: onHost_def fakeStoragePoolFor_def needsPool_def)
qed (auto simp: fakeFleet_def)

definition refReconciler :: "(refApi, string \<Rightarrow> FakeProvider) HydraMachineReconciler" where
  "refReconciler = \<lparr>mr_lib = refLib, mr_client = refKube, mr_apiReader = Some refKube, mr_provider = None,
     mr_providerFor = Some fakeFleet, mr_releaseProvider = Some (\<lambda>_ b. b)\<rparr>"

interpretation rw: machine_world refReconciler "\<lambda>k. k" fakeFleet "\<lambda>_ b. b"
  "\<lambda>b. \<forall>h. fake_inv (b h)" "\<lambda>b h. fake_vm (b h)" fakeSite
proof (intro_locales)
  show "apimachinery (mr_lib refReconciler)"
    using refl.apimachinery_axioms by (simp add: refReconciler_def)
  show "api_server (mr_client refReconciler) (\<lambda>k. k)"
    using ra.api_server_axioms by (simp add: refReconciler_def)
  show "machine_world_axioms refReconciler fakeFleet (\<lambda>_ b. b)"
    by unfold_locales (simp_all add: refReconciler_def)
qed

section \<open>A machine to reconcile\<close>

text \<open>A standalone machine nobody has reconciled yet, in an empty world.\<close>

definition exampleMachine :: HydraMachine where
  "exampleMachine = \<lparr>hm_meta = \<lparr>om_name = ''w1'', om_namespace = ''ns'', om_uid = ''u1'', om_generation = 1,
       om_annotations = [StandaloneAnnotation \<mapsto> ''true''], om_labels = Map.empty, om_ownerRefs = [],
       om_finalizers = [], om_deleting = False\<rparr>,
     hm_providerID = None, hm_vcpus = 2, hm_memory = ''4Gi'', hm_diskSize = ''20Gi'', hm_image = None,
     hm_networks = [''lan''], hm_provisioned = None, hm_addresses = [], hm_conditions = []\<rparr>"

definition exampleWorld :: "(refApi, string \<Rightarrow> FakeProvider) env" where
  "exampleWorld = \<lparr>env_kube = [(''ns'', ''w1'') \<mapsto> exampleMachine], env_backend = (\<lambda>_. newFake),
     env_metrics = []\<rparr>"

text \<open>The machine once the finalizer is on it, and once its storage pool is recorded.\<close>

definition exampleFinal :: HydraMachine where
  "exampleFinal = exampleMachine\<lparr>hm_meta := (hm_meta exampleMachine)\<lparr>om_finalizers := [MachineFinalizer]\<rparr>\<rparr>"

definition examplePlaced :: HydraMachine where
  "examplePlaced = exampleFinal\<lparr>hm_meta := (hm_meta exampleFinal)\<lparr>om_annotations :=
     [StandaloneAnnotation \<mapsto> ''true'', StoragePoolAnnotation \<mapsto> ''default'']\<rparr>\<rparr>"

abbreviation exampleLink :: linkage where
  "exampleLink \<equiv> emptyLinkage\<lparr>standalone := True\<rparr>"

abbreviation exampleProvider :: "(string \<Rightarrow> FakeProvider) MachineProvider" where
  "exampleProvider \<equiv> onHost [] (fakeProvider ''default'')"

abbreviation storing :: "HydraMachine \<Rightarrow> (refApi, string \<Rightarrow> FakeProvider) env" where
  "storing m \<equiv> exampleWorld\<lparr>env_kube := [(''ns'', ''w1'') \<mapsto> m]\<rparr>"

lemmas ref_defs = refReconciler_def refKube_def refPatch_def refStatus_def refLib_def

lemma newFake_inv [simp]: "fake_inv newFake"
  by (simp add: fake_inv_def newFake_def honestErr_def)

lemma standalone_annotation_distinct [simp]:
  "StandaloneAnnotation \<noteq> StoragePoolAnnotation" "StoragePoolAnnotation \<noteq> StandaloneAnnotation"
  "StandaloneAnnotation \<noteq> HypervisorAnnotation" "HypervisorAnnotation \<noteq> StandaloneAnnotation"
  "StandaloneAnnotation \<noteq> PausedAnnotation" "PausedAnnotation \<noteq> StandaloneAnnotation"
  by (simp_all add: StandaloneAnnotation_def StoragePoolAnnotation_def HypervisorAnnotation_def PausedAnnotation_def)

lemma example_simps [simp]:
  "objectKey (hm_meta exampleMachine) = (''ns'', ''w1'')" "objectKey (hm_meta exampleFinal) = (''ns'', ''w1'')"
  "objectKey (hm_meta examplePlaced) = (''ns'', ''w1'')"
  "backendName exampleFinal = backendName exampleMachine" "backendName examplePlaced = backendName exampleMachine"
  "hm_networks exampleFinal = [''lan'']" "hm_providerID exampleFinal = None"
  "om_annotations (hm_meta exampleFinal) = [StandaloneAnnotation \<mapsto> ''true'']"
  "\<not> om_deleting (hm_meta exampleFinal)" "\<not> om_deleting (hm_meta examplePlaced)"
  by (simp_all add: examplePlaced_def exampleFinal_def exampleMachine_def objectKey_def backendName_def identityDigest_def)

lemma gone_providerID [simp]: "gone (m\<lparr>hm_providerID := p\<rparr>) = gone m"
  by (simp add: gone_def)

lemma example_start:
  "Reconcile refReconciler (''ns'', ''w1'') exampleWorld =
   reconcileNormal refReconciler exampleProvider exampleMachine exampleLink [] exampleWorld"
  by (simp add: ref_defs exampleWorld_def Reconcile_def resolveLinkage_def ownerMachineRef_def
      withClusterByLabelForDeletion_def pausedReason_def setPaused_def setPausedCondition_def
      reconcileActive_def placementFor_def mayBeMadeOnFlags_def providerIDOf_def lookupStr_def provider_def
      hypervisorFor_def release_def fakeFleet_def hostOf_def objectKey_def exampleMachine_def
      hasStandaloneAnnotation_def PausedCondition_def emptyLinkage_def Let_def)

lemma example_finalizer:
  "reconcileNormal refReconciler p exampleMachine link [] exampleWorld =
   reconcileReady refReconciler p exampleFinal link [] (storing exampleFinal)"
  by (simp add: reconcileNormal_def ref_defs patchObject_def exampleWorld_def exampleFinal_def
      exampleMachine_def objectKey_def gone_def Let_def)

lemma example_spec:
  "createSpec refReconciler exampleFinal exampleLink k = specFor refLib exampleFinal exampleLink []"
  by (simp add: createSpec_def clusterReadyForCreate_def emptyLinkage_def bootstrapDataFor_def refReconciler_def)

lemma example_place:
  "recordPlacement refReconciler exampleFinal ''default'' [] (storing exampleFinal)
   = (Inr ''default'', examplePlaced, storing examplePlaced)"
  by (simp add: recordPlacement_def patchObject_def ref_defs lookupStr_def gone_def objectKey_def Let_def
      examplePlaced_def) (simp add: exampleFinal_def exampleMachine_def)

lemma example_create:
  "createAndRecord refReconciler exampleProvider examplePlaced spec nt (storing examplePlaced) =
   (let m = examplePlaced\<lparr>hm_providerID := Some (ProviderID ''fake'' (fakeID 1))\<rparr> in
    (Inr (projr (fst (fakeCreate spec newFake))), m,
     (storing m)\<lparr>env_backend := (\<lambda>_. newFake)([] := snd (fakeCreate spec newFake))\<rparr>))"
  by (simp add: createAndRecord_def onHost_def exampleWorld_def fakeCreate_def newFake_def Let_def
      patchObject_def ref_defs gone_def)

abbreviation exampleSpec :: MachineSpec where
  "exampleSpec \<equiv> (projr (specFor refLib exampleFinal exampleLink []))\<lparr>ms_storagePool := ''default''\<rparr>"

lemma example_ensure:
  "ensureMachine refReconciler exampleProvider exampleFinal exampleLink [] (storing exampleFinal) =
   createAndRecord refReconciler exampleProvider examplePlaced exampleSpec [] (storing examplePlaced)"
proof -
  have f: "prov_findByName exampleProvider n (env_backend exampleWorld) =
      (Inl (Sentinel ErrNotFound), env_backend exampleWorld)" for n
    by (auto simp: onHost_def exampleWorld_def fakeFindByName_def newFake_def)
  have nl: "env_backend_update (\<lambda>_. env_backend exampleWorld) (exampleWorld\<lparr>env_kube := k\<rparr>)
      = exampleWorld\<lparr>env_kube := k\<rparr>" for k
    by simp
  obtain spec where spec: "specFor refLib exampleFinal exampleLink [] = Inr spec" "ms_storagePool spec = []"
    by (simp add: specFor_def resolveNetworks_def resolveStoragePool_def emptyLinkage_def)
  have st: "prov_storagePoolFor exampleProvider [] = ''default''" by (simp add: onHost_def fakeStoragePoolFor_def)
  show ?thesis
    by (simp add: ensureMachine_def providerIDOf_def f nl example_spec spec st example_place recordedNote_def Let_def)
qed

lemma updateStatus_backend: "updateStatus r m st s = (e, m', s') \<Longrightarrow> env_backend s' = env_backend s"
  by (auto simp: updateStatus_def patchStatus_def Let_def split: prod.splits sum.splits)

text \<open>The reconcile makes the machine, on the connection the flags configure.\<close>

lemma example_run:
  "fake_vm (env_backend (snd (Reconcile refReconciler (''ns'', ''w1'') exampleWorld)) [])
     (backendName exampleMachine) = Some (fakeID 1)"
proof -
  have "ms_name exampleSpec = backendName exampleMachine"
    by (simp add: specFor_def resolveNetworks_def)
  then have "fake_vm (snd (fakeCreate exampleSpec newFake)) (backendName exampleMachine) = Some (fakeID 1)"
    by (simp add: fakeCreate_def newFake_def Let_def)
  then show ?thesis
    unfolding example_start example_finalizer
    by (auto simp: reconcileReady_def example_ensure example_create Let_def
        split: prod.splits option.splits dest!: updateStatus_backend)
qed

lemma example_tethered: "tethered L site st (\<lambda>b h. fake_vm (b h)) key n exampleWorld"
  by (simp add: tethered_def exampleWorld_def newFake_def)

lemma example_stored: "env_kube exampleWorld (''ns'', ''w1'') = Some exampleMachine"
  and example_inv: "\<forall>h. fake_inv (env_backend exampleWorld h)"
  by (simp_all add: exampleWorld_def)

section \<open>Witnesses\<close>

abbreviation exampleAfter :: "(refApi, string \<Rightarrow> FakeProvider) env" where
  "exampleAfter \<equiv> snd (Reconcile refReconciler (''ns'', ''w1'') exampleWorld)"

text \<open>The reconcile that makes the example machine leaves a machine of another name alone.\<close>

theorem Reconcile_touches_only_its_own_witness:
  "fake_vm (env_backend exampleAfter []) ''other'' = fake_vm (env_backend exampleWorld []) ''other''
   \<and> env_kube exampleAfter (''ns'', ''w2'') = env_kube exampleWorld (''ns'', ''w2'')
   \<and> Reconcile (refReconciler\<lparr>mr_client := refKube\<lparr>patchHydraCluster := (\<lambda>_ _ hc k. (Inr hc, Map.empty)),
        patchHydraClusterStatus := (\<lambda>_ _ hc k. (Inr hc, Map.empty)), patchTemplateStatus := (\<lambda>_ x k. (Inr x, Map.empty))\<rparr>\<rparr>)
      (''ns'', ''w1'') exampleWorld = Reconcile refReconciler (''ns'', ''w1'') exampleWorld"
proof -
  have "length (backendName exampleMachine) \<ge> 21"
    by (simp add: backendName_def identityDigest_def Let_def)
  then have "length ''other'' \<noteq> length (backendName exampleMachine)" by simp
  then have "''other'' \<noteq> backendName exampleMachine" by metis
  moreover have "mr_client refReconciler = refKube" by (simp add: refReconciler_def)
  ultimately show ?thesis
    using Reconcile_touches_only_its_own [OF rw.machine_world_axioms, where s = exampleWorld
        and req = "(''ns'', ''w1'')" and m = exampleMachine and s' = exampleAfter
        and res = "fst (Reconcile refReconciler (''ns'', ''w1'') exampleWorld)"
        and n = "''other''" and h = "[]" and key = "(''ns'', ''w2'')"
        and pc = "\<lambda>_ _ hc k. (Inr hc, Map.empty)" and ps = "\<lambda>_ _ hc k. (Inr hc, Map.empty)"
        and pt = "\<lambda>_ x k. (Inr x, Map.empty)"]
      example_inv example_stored example_tethered by simp
qed

text \<open>The machine the reconcile made is tied to its object.\<close>

theorem Reconcile_keeps_tether_witness:
  "\<exists>m'. env_kube exampleAfter (''ns'', ''w1'') = Some m' \<and> backendName m' = backendName exampleMachine
     \<and> containsFinalizer (mr_lib refReconciler) (om_finalizers (hm_meta m')) MachineFinalizer
     \<and> (\<exists>a. fakeSite a = [] \<and> (\<forall>link. placementFor m' link = Inr a))"
  using Reconcile_keeps_tether [OF rw.machine_world_axioms, where s = exampleWorld
      and req = "(''ns'', ''w1'')" and m = exampleMachine and s' = exampleAfter
      and res = "fst (Reconcile refReconciler (''ns'', ''w1'') exampleWorld)"
      and h = "[]" and i = "fakeID 1"]
    example_inv example_stored example_tethered example_run by simp

text \<open>A run of one reconcile, from a world without machines.\<close>

theorem no_orphaned_machine_witness:
  "\<exists>key m. env_kube exampleAfter key = Some m \<and> backendName m = backendName exampleMachine
     \<and> containsFinalizer (mr_lib refReconciler) (om_finalizers (hm_meta m)) MachineFinalizer
     \<and> (\<exists>a. fakeSite a = [] \<and> (\<forall>link. placementFor m link = Inr a))"
proof -
  have no: "noOrphans (mr_lib refReconciler) fakeSite (\<lambda>k. k) (\<lambda>b h. fake_vm (b h)) {} exampleWorld"
    by (simp add: noOrphans_def exampleWorld_def newFake_def)
  have "namesApart (\<lambda>k. k) {} (env_kube exampleWorld)"
    by (simp add: namesApart_def exampleWorld_def)
  then have run: "world_run refReconciler fakeSite (\<lambda>k. k) {} exampleWorld exampleAfter"
    by (rule run_reconcile [OF run_refl _ prod.collapse [symmetric]])
  show ?thesis
    using no_orphaned_machine [OF rw.machine_world_axioms, where s = exampleWorld and foreign = "{}"
        and s' = exampleAfter and h = "[]" and n = "backendName exampleMachine" and i = "fakeID 1"]
      example_inv no run example_run by (simp del: split_paired_Ex)
qed

text \<open>The example machine is standalone, and gets no bootstrap data.\<close>

theorem bootstrap_empty_only_standalone_witness:
  "standalone exampleLink \<and> ownerMachineRef exampleMachine = None \<and> hasStandaloneAnnotation exampleMachine"
proof -
  have 1: "resolveLinkage refKube exampleMachine Map.empty = Inr exampleLink"
    by (simp add: resolveLinkage_def ownerMachineRef_def exampleMachine_def hasStandaloneAnnotation_def)
  have 2: "clusterReadyForCreate refLib exampleLink = None"
    by (simp add: clusterReadyForCreate_def emptyLinkage_def)
  have 3: "bootstrapDataFor (Some refKube) exampleLink Map.empty = Inr []"
    by (simp add: bootstrapDataFor_def emptyLinkage_def)
  from bootstrap_empty_only_standalone [OF 1 2 3] show ?thesis by simp
qed

end
