(* ===== verification/Machine_Props.thy ===== *)
theory Machine_Props
  imports Ref_World
begin

text \<open>
  The functional behaviour of the machine reconciler's parts: names, addresses, conditions, pausing,
  what must be on record before a machine is made, and recovery of a machine whose id was lost.
\<close>

section \<open>Names\<close>

lemma length_identityDigest [simp]: "length (identityDigest m) = 64"
  by (simp add: identityDigest_def length_hexEncode length_sha256)

text \<open>
  a backend name has at most 61 characters and ends in the first 20 hexadecimal digits of the
  SHA-256 digest of namespace, name and UID: equal names mean equal digests.
\<close>

theorem backendName_shape:
  "length (backendName m) \<le> 61
   \<and> drop (length (backendName m) - 20) (backendName m) = take 20 (identityDigest m)
   \<and> (backendName m = backendName m' \<longrightarrow> take 20 (identityDigest m) = take 20 (identityDigest m'))"
proof -
  have shape: "length (backendName m) \<le> 61
     \<and> drop (length (backendName m) - 20) (backendName m) = take 20 (identityDigest m)" for m
    by (auto simp: backendName_def Let_def maxReadableNamePrefix_def min_def)
  then show ?thesis by metis
qed

theorem backendName_shape_witness:
  "length (backendName exampleMachine) \<le> 61 \<and> backendName exampleMachine = backendName exampleFinal
   \<and> take 20 (identityDigest exampleMachine) = take 20 (identityDigest exampleFinal)"
  using backendName_shape [of exampleMachine exampleFinal] by simp

text \<open>
  C13: a hostname has at most 63 characters, is the object's own name when that fits, and is never
  empty for a named object; when the name is cut, the cut end is neither a hyphen nor a dot, so the
  appended digest starts no invalid label.
\<close>

theorem hostnameFor_valid:
  "length (hostnameFor m) \<le> 63
   \<and> (length (om_name (hm_meta m)) \<le> 63 \<longrightarrow> hostnameFor m = om_name (hm_meta m))
   \<and> (63 < length (om_name (hm_meta m)) \<longrightarrow>
        hostnameFor m = take 8 (identityDigest m) \<or>
        (\<exists>p. hostnameFor m = p @ ''-'' @ take 8 (identityDigest m) \<and> p \<noteq> [] \<and> last p \<notin> {CHR ''-'', CHR ''.''}
           \<and> (\<exists>q. om_name (hm_meta m) = p @ q)))"
proof (cases "length (om_name (hm_meta m)) \<le> 63")
  case True
  then show ?thesis by (simp add: hostnameFor_def maxHostnameLength_def)
next
  case False
  let ?cut = "take 54 (om_name (hm_meta m))" and ?d = "take 8 (identityDigest m)"
  let ?p = "trimRight ?cut ''-.''"
  have h: "hostnameFor m = (if ?p = [] then ?d else ?p @ ''-'' @ ?d)"
    using False by (simp add: hostnameFor_def maxHostnameLength_def Let_def)
  have "length ?p \<le> 54" using trimRight_length [of ?cut "''-.''"] by simp
  then have len: "length (hostnameFor m) \<le> 63" unfolding h by simp
  have "?p \<noteq> [] \<Longrightarrow> last ?p \<notin> {CHR ''-'', CHR ''.''}" using trimRight_last [of ?cut "''-.''"] by simp
  moreover have "\<exists>q. om_name (hm_meta m) = ?p @ q"
    using trimRight_prefix [of ?cut "''-.''"] by (metis append_assoc append_take_drop_id)
  ultimately show ?thesis using len False unfolding h by auto
qed

theorem hostnameFor_valid_witness:
  "length (hostnameFor exampleMachine) \<le> 63 \<and> hostnameFor exampleMachine = ''w1''"
  using hostnameFor_valid [of exampleMachine] by (simp add: exampleMachine_def)

section \<open>Addresses\<close>

lemma toMachineAddressesLoop_eq:
  assumes "distinct out" "length out < maxStatusAddresses"
  shows "toMachineAddressesLoop out as =
     take maxStatusAddresses (out @ first_occurrences (filter (\<lambda>a. a \<notin> set out) as))"
  using assms
proof (induction as arbitrary: out)
  case (Cons a as)
  show ?case
  proof (cases "a \<in> set out")
    case True
    with Cons show ?thesis by simp
  next
    case False
    have f: "filter (\<lambda>y. y \<noteq> a) (filter (\<lambda>a. a \<notin> set out) as) = filter (\<lambda>b. b \<notin> set (out @ [a])) as"
      by (auto simp: conj_commute)
    show ?thesis
    proof (cases "length out + 1 = maxStatusAddresses")
      case True
      then have "maxStatusAddresses - length out = 1" by simp
      with True False Cons.prems show ?thesis by (simp add: first_occurrences_Cons Let_def)
    next
      case no: False
      with Cons.prems False have "toMachineAddressesLoop (out @ [a]) as =
          take maxStatusAddresses ((out @ [a]) @ first_occurrences (filter (\<lambda>b. b \<notin> set (out @ [a])) as))"
        by (intro Cons.IH) auto
      with False no show ?thesis by (simp add: first_occurrences_Cons f Let_def conj_commute)
    qed
  qed
qed simp

lemma toMachineAddresses_take: "toMachineAddresses addrs = take 32 (first_occurrences addrs)"
  using toMachineAddressesLoop_eq [of "[]" addrs]
  by (simp add: toMachineAddresses_def maxStatusAddresses_def)

text \<open>
  The addresses of the status are the first 32 distinct addresses the backend reported, in the
  order it reported them.
\<close>

theorem toMachineAddresses_exact:
  "toMachineAddresses addrs = take 32 (first_occurrences addrs)"
  by (rule toMachineAddresses_take)

section \<open>Conditions\<close>

text \<open>The conditions a function sends are those of the object it hands to the status patch.\<close>

definition failureConditions :: "lib \<Rightarrow> HydraMachine \<Rightarrow> string \<Rightarrow> goerr \<Rightarrow> Condition list \<Rightarrow> bool" where
  "failureConditions L m phase cause cs \<longleftrightarrow>
     findStatusCondition L cs ReadyCondition = Some (readyCondition ConditionFalse
        (phase @ (if errorsIs cause ErrTerminal then ''Failed'' else ''FailedRetrying'')) (ErrText cause) m)
   \<and> (if errorsIs cause ErrTerminal
      then map_option c_status (findStatusCondition L cs ProvisioningFailedCondition) = Some ConditionTrue
      else findStatusCondition L cs ProvisioningFailedCondition
             = findStatusCondition L (hm_conditions m) ProvisioningFailedCondition)"

text \<open>
  recording a failure sends Ready false with the cause, raises ProvisioningFailed exactly when
  the cause is terminal, leaves that condition alone when a retry may help, and counts the failure
  if and only if the write was accepted.
\<close>

theorem recordError_conditions:
  assumes "apimachinery (mr_lib r)"
  shows "\<exists>cs. failureConditions (mr_lib r) m phase cause cs \<and>
     recordError r m phase cause s =
       (case patchHydraMachineStatus (mr_client r) m (m\<lparr>hm_conditions := cs\<rparr>) (env_kube s) of
          (Inl e, k) \<Rightarrow> (Some (WrapErr ''recording failure'' [] e), m\<lparr>hm_conditions := cs\<rparr>, s\<lparr>env_kube := k\<rparr>)
        | (Inr m', k) \<Rightarrow> (None, m', s\<lparr>env_kube := k, env_metrics := env_metrics s @
             [MachineFailure phase (if errorsIs cause ErrTerminal then OutcomeTerminal
                else if errorsIs cause ErrNotFound then OutcomeNotFound else OutcomeError)]\<rparr>))"
proof -
  let ?reason = "if errorsIs cause ErrTerminal then phase @ ''Failed'' else phase @ ''FailedRetrying''"
  let ?c1 = "setStatusCondition (mr_lib r) (hm_conditions m) (readyCondition ConditionFalse ?reason (ErrText cause) m)"
  let ?cs = "if errorsIs cause ErrTerminal then setStatusCondition (mr_lib r) ?c1
      \<lparr>c_type = ProvisioningFailedCondition, c_status = ConditionTrue, c_reason = ?reason,
       c_message = ErrText cause, c_observedGeneration = om_generation (hm_meta m)\<rparr> else ?c1"
  have ready: "c_type (readyCondition st rs mg m) = ReadyCondition" for st rs mg
    by (simp add: readyCondition_def)
  have "failureConditions (mr_lib r) m phase cause ?cs"
    by (simp add: failureConditions_def apimachinery.find_set [OF assms] ready)
  then show ?thesis
    by (intro exI [of _ ?cs])
      (simp add: recordError_def patchStatus_def ClassifyOutcome_def Let_def split: prod.split sum.split)
qed

theorem recordError_conditions_witness:
  "\<exists>cs. failureConditions (mr_lib refReconciler) exampleMachine ''Provisioning'' (Sentinel ErrTerminal) cs \<and>
     recordError refReconciler exampleMachine ''Provisioning'' (Sentinel ErrTerminal) exampleWorld =
       (case patchHydraMachineStatus (mr_client refReconciler) exampleMachine
               (exampleMachine\<lparr>hm_conditions := cs\<rparr>) (env_kube exampleWorld) of
          (Inl e, k) \<Rightarrow> (Some (WrapErr ''recording failure'' [] e), exampleMachine\<lparr>hm_conditions := cs\<rparr>,
             exampleWorld\<lparr>env_kube := k\<rparr>)
        | (Inr m', k) \<Rightarrow> (None, m', exampleWorld\<lparr>env_kube := k, env_metrics := env_metrics exampleWorld @
             [MachineFailure ''Provisioning'' OutcomeTerminal]\<rparr>))"
  using recordError_conditions [OF rw.apimachinery_axioms, of exampleMachine "''Provisioning''"
      "Sentinel ErrTerminal" exampleWorld] by (simp only: errorsIs.simps if_True simp_thms)

text \<open>
  an error is reported as a wait exactly when it wraps one of the seven waiting sentinels, and
  then it is not terminal; recording the wait sends Ready false with that reason and clears
  ProvisioningFailed.
\<close>

theorem waiting_is_not_failure:
  assumes "apimachinery (mr_lib r)" and "waitReasonFor (Some e) \<noteq> []"
  shows "(\<exists>t\<in>waitSentinels. errorsIs e t) \<and> \<not> errorsIs e ErrTerminal \<and>
    (\<exists>cs. findStatusCondition (mr_lib r) cs ReadyCondition =
         Some (readyCondition ConditionFalse (waitReasonFor (Some e)) (ErrText e) m)
     \<and> findStatusCondition (mr_lib r) cs ProvisioningFailedCondition = None
     \<and> recordWaiting r m (waitReasonFor (Some e)) e s =
        (case patchHydraMachineStatus (mr_client r) m (m\<lparr>hm_conditions := cs\<rparr>) (env_kube s) of
           (Inl e', k) \<Rightarrow> (Some (WrapErr ''recording waiting state'' [] e'), m\<lparr>hm_conditions := cs\<rparr>, s\<lparr>env_kube := k\<rparr>)
         | (Inr m', k) \<Rightarrow> (None, m', s\<lparr>env_kube := k,
              env_metrics := env_metrics s @ [MachineWait (waitReasonFor (Some e))]\<rparr>)))"
proof -
  let ?reason = "waitReasonFor (Some e)"
  let ?c = "readyCondition ConditionFalse ?reason (ErrText e) m"
  let ?cs = "removeStatusCondition (mr_lib r) (setStatusCondition (mr_lib r) (hm_conditions m) ?c) ProvisioningFailedCondition"
  have t: "\<exists>t\<in>waitSentinels. errorsIs e t"
    using assms(2) by (auto simp: waitReasonFor_def waitSentinels_def split: if_splits)
  then have "\<not> errorsIs e ErrTerminal" using errorsIs_unique by (fastforce simp: waitSentinels_def)
  moreover have "findStatusCondition (mr_lib r) ?cs ReadyCondition = Some ?c"
      "findStatusCondition (mr_lib r) ?cs ProvisioningFailedCondition = None"
    by (simp_all add: apimachinery.find_remove [OF assms(1)] apimachinery.find_set [OF assms(1)] readyCondition_def)
  ultimately show ?thesis
    using t by (intro conjI exI [of _ ?cs]; simp add: recordWaiting_def patchStatus_def Let_def split: prod.split sum.split)
qed

theorem waiting_is_not_failure_witness:
  "(\<exists>t\<in>waitSentinels. errorsIs (Sentinel ErrWaitingForHypervisor) t)"
  using waiting_is_not_failure [OF rw.apimachinery_axioms, of "Sentinel ErrWaitingForHypervisor"]
  by (simp add: waitReasonFor_def)

text \<open>
  the status sent for a machine latches: provisioned becomes true when the backend reports
  ready, never goes back, and is never left unset; Ready follows the backend, and a past failure is
  cleared.
\<close>

theorem updateStatus_latches:
  assumes "apimachinery (mr_lib r)"
  shows "\<exists>m1. updateStatus r m state s = patchStatus r ''updating status'' m m1 s
     \<and> (hm_provisioned m1 = Some True \<longleftrightarrow> st_ready state \<or> hm_provisioned m = Some True)
     \<and> hm_provisioned m1 \<noteq> None
     \<and> hm_addresses m1 = take 32 (first_occurrences (st_addresses state))
     \<and> map_option c_status (findStatusCondition (mr_lib r) (hm_conditions m1) ReadyCondition)
         = Some (if st_ready state then ConditionTrue else ConditionFalse)
     \<and> findStatusCondition (mr_lib r) (hm_conditions m1) ProvisioningFailedCondition = None"
proof -
  let ?c = "if st_ready state
     then readyCondition ConditionTrue ''Provisioned'' (Text ''backing machine is running'') m
     else readyCondition ConditionFalse ''Provisioning'' (Text ''waiting for the backing machine to become ready'') m"
  let ?p = "if st_ready state then Some True else if hm_provisioned m = None then Some False else hm_provisioned m"
  let ?m = "m\<lparr>hm_provisioned := ?p, hm_addresses := toMachineAddresses (st_addresses state),
     hm_conditions := removeStatusCondition (mr_lib r) (setStatusCondition (mr_lib r) (hm_conditions m) ?c)
       ProvisioningFailedCondition\<rparr>"
  have "updateStatus r m state s = patchStatus r ''updating status'' m ?m s"
    by (simp only: updateStatus_def Let_def)
  moreover have "map_option c_status (findStatusCondition (mr_lib r) (hm_conditions ?m) ReadyCondition)
         = Some (if st_ready state then ConditionTrue else ConditionFalse)"
    "findStatusCondition (mr_lib r) (hm_conditions ?m) ProvisioningFailedCondition = None"
    by (simp_all add: apimachinery.find_remove [OF assms] apimachinery.find_set [OF assms] readyCondition_def)
  moreover have "?p = Some True \<longleftrightarrow> st_ready state \<or> hm_provisioned m = Some True" "?p \<noteq> None" by auto
  ultimately show ?thesis by (intro exI [of _ ?m]) (simp add: toMachineAddresses_take)
qed

theorem updateStatus_latches_witness:
  "\<exists>m1. updateStatus refReconciler (exampleMachine\<lparr>hm_provisioned := Some True\<rparr>)
        \<lparr>st_id = ''i'', st_name = ''n'', st_ready = False, st_addresses = []\<rparr> exampleWorld
      = patchStatus refReconciler ''updating status'' (exampleMachine\<lparr>hm_provisioned := Some True\<rparr>) m1 exampleWorld
     \<and> hm_provisioned m1 = Some True"
  using updateStatus_latches [OF rw.apimachinery_axioms, of "exampleMachine\<lparr>hm_provisioned := Some True\<rparr>"
      "\<lparr>st_id = ''i'', st_name = ''n'', st_ready = False, st_addresses = []\<rparr>" exampleWorld] by auto

section \<open>Pausing\<close>

lemma setPaused_backend:
  "setPaused r m reason s = (e, m', s') \<Longrightarrow> env_backend s' = env_backend s \<and> env_metrics s' = env_metrics s"
  unfolding setPaused_def Let_def
  by (drule setPausedCondition_result) (auto split: prod.splits sum.splits)

text \<open>
  C11: while the machine carries the paused annotation, or its Cluster, however it was found, has
  spec.paused or carries the annotation, a reconcile, of a machine being deleted too, calls no backend,
  counts nothing and asks for no requeue, and writes at most the machine's conditions. This is once its
  owners could be read; a read that fails is recorded as an error before the pause is known.
\<close>

theorem paused_reconcile_is_inert:
  assumes "getHydraMachine (mr_client r) req (env_kube s) = Inr m"
    and "resolveLinkage (mr_client r) m (env_kube s) = Inr link0"
    and "withClusterByLabelForDeletion (mr_client r) m link0 (env_kube s) = Inr link"
    and "om_annotations (hm_meta m) PausedAnnotation = Some v
      \<or> lk_cluster link = Some cl \<and> (cl_paused cl = Some True \<or> om_annotations (cl_meta cl) PausedAnnotation = Some v)"
  shows "env_backend (snd (Reconcile r req s)) = env_backend s
    \<and> env_metrics (snd (Reconcile r req s)) = env_metrics s \<and> fst (fst (Reconcile r req s)) = 0
    \<and> (env_kube (snd (Reconcile r req s)) = env_kube s
       \<or> (\<exists>res conds. patchHydraMachineStatus (mr_client r) m (m\<lparr>hm_conditions := conds\<rparr>) (env_kube s)
            = (res, env_kube (snd (Reconcile r req s)))))"
proof -
  let ?why = "pausedReason (om_annotations (hm_meta m)) (lk_cluster link)"
  have "?why \<noteq> []" using assms(4) by (auto simp: pausedReason_def split: if_splits)
  moreover obtain e m' s' where sp: "setPaused r m ?why s = (e, m', s')" by (metis prod_cases3)
  ultimately have run: "Reconcile r req s = ((0, e), s')" using assms(1-3) by (simp add: Reconcile_def Let_def)
  from setPausedCondition_result [OF sp [unfolded setPaused_def Let_def]]
  have "s' = s \<or> (\<exists>res k conds. patchHydraMachineStatus (mr_client r) m (m\<lparr>hm_conditions := conds\<rparr>) (env_kube s) = (res, k)
      \<and> s' = s\<lparr>env_kube := k\<rparr>)"
    by (auto split: prod.splits sum.splits)
  with setPaused_backend [OF sp] show ?thesis by (auto simp: run)
qed

definition pausedExample :: HydraMachine where
  "pausedExample = exampleMachine\<lparr>hm_meta := (hm_meta exampleMachine)\<lparr>om_annotations := [PausedAnnotation \<mapsto> []]\<rparr>\<rparr>"

theorem paused_reconcile_is_inert_witness:
  "env_backend (snd (Reconcile refReconciler (''ns'', ''w1'') (storing pausedExample))) = env_backend (storing pausedExample)
   \<and> env_metrics (snd (Reconcile refReconciler (''ns'', ''w1'') (storing pausedExample))) = env_metrics (storing pausedExample)
   \<and> fst (fst (Reconcile refReconciler (''ns'', ''w1'') (storing pausedExample))) = 0"
  using paused_reconcile_is_inert [where r = refReconciler and req = "(''ns'', ''w1'')" and s = "storing pausedExample"
      and m = pausedExample and ?link0.0 = "emptyLinkage" and link = emptyLinkage and v = "[]"]
  by (simp add: refReconciler_def refKube_def pausedExample_def exampleMachine_def objectKey_def
      resolveLinkage_def ownerMachineRef_def hasStandaloneAnnotation_def emptyLinkage_def
      withClusterByLabelForDeletion_def)

section \<open>Where a machine is reached\<close>

text \<open>
  a connection is only ever asked for at the hypervisor the placement names, or on the flags
  when it names none; a cluster that is gone, names another hypervisor or has broken credentials
  makes the machine wait, and is never a terminal failure of the machine.
\<close>

theorem hypervisorFor_never_elsewhere:
  "case hypervisorFor r link placement k of
     Inr hv \<Rightarrow> hostOf hv = placement \<and> (hv = None \<longleftrightarrow> placement = [])
   | Inl e \<Rightarrow> \<not> errorsIs e ErrTerminal \<and> placement \<noteq> []"
proof (cases "hypervisorFor r link placement k")
  case (Inl e)
  then have "\<not> errorsIs e ErrTerminal"
    by (auto simp: hypervisorFor_def split: if_splits option.splits sum.splits)
  with Inl show ?thesis by (auto simp: hypervisorFor_def)
next
  case (Inr hv)
  have "hv = None \<longleftrightarrow> placement = []"
  proof
    assume "hv = None"
    with hypervisorFor_host [OF Inr] show "placement = []" by (simp add: hostOf_def)
  next
    assume "placement = []"
    with Inr show "hv = None" by (simp add: hypervisorFor_def)
  qed
  with hypervisorFor_host [OF Inr] Inr show ?thesis by simp
qed

text \<open>
  a machine is placed where it records it is; without a record, on the flags if anything may
  have been made there; otherwise on its cluster's hypervisor, which the cluster's status must have
  confirmed as spelled in its spec.
\<close>

theorem placementFor_rules:
  assumes "placementFor m link = Inr p"
  shows "(annotation m HypervisorAnnotation \<noteq> [] \<longrightarrow> p = annotation m HypervisorAnnotation)
    \<and> (annotation m HypervisorAnnotation = [] \<and> mayBeMadeOnFlags m \<longrightarrow> p = [])
    \<and> (annotation m HypervisorAnnotation = [] \<and> p \<noteq> [] \<longrightarrow>
        (\<exists>hc h. lk_hydraCluster link = Some hc \<and> hc_hypervisor hc = Some h
           \<and> hc_statusHypervisor hc = Some (hh_address h) \<and> canonicalHypervisor (hh_address h) = Inr p))"
  using assms
  by (auto simp: placementFor_def confirmedHypervisor_def Let_def split: if_splits option.splits bind_splits)

theorem placementFor_rules_witness:
  "placementFor (exampleMachine\<lparr>hm_providerID := Some ''hydra://libvirt/u''\<rparr>) emptyLinkage = Inr []
   \<and> mayBeMadeOnFlags (exampleMachine\<lparr>hm_providerID := Some ''hydra://libvirt/u''\<rparr>)"
proof -
  let ?m = "exampleMachine\<lparr>hm_providerID := Some ''hydra://libvirt/u''\<rparr>"
  have p: "placementFor ?m emptyLinkage = Inr []"
    by (simp add: placementFor_def mayBeMadeOnFlags_def providerIDOf_def lookupStr_def exampleMachine_def)
  moreover have "mayBeMadeOnFlags ?m" by (simp add: mayBeMadeOnFlags_def providerIDOf_def)
  ultimately show ?thesis using placementFor_rules [OF p] by simp
qed

section \<open>Before and after Create\<close>

text \<open>
  That a call is not made is stated as independence: the result is the same whatever the provider's
  \<^verbatim>\<open>Create\<close> would do.
\<close>

abbreviation withCreate :: "'b MachineProvider \<Rightarrow> (MachineSpec \<Rightarrow> 'b \<Rightarrow> (goerr + MachineState) \<times> 'b) \<Rightarrow> 'b MachineProvider" where
  "withCreate p c \<equiv> p\<lparr>prov_create := c\<rparr>"

lemma withCreate_ops:
  "prov_name (withCreate p c) = prov_name p" "prov_get (withCreate p c) = prov_get p"
  "prov_findByName (withCreate p c) = prov_findByName p"
  "prov_storagePoolFor (withCreate p c) = prov_storagePoolFor p"
  by simp_all

lemma observe_withCreate: "observeMachine (withCreate prov c) m b = observeMachine prov m b"
  unfolding observeMachine_def withCreate_ops ..

text \<open>
  C8: a machine with a recorded providerID is never created again: Create is not called, a machine
  that is returned has this object's name, and one the backend no longer has is a terminal failure.
\<close>

theorem recorded_machine_never_recreated:
  assumes "providerIDOf m \<noteq> []"
  shows "ensureMachine r (withCreate prov c) m link placement s = ensureMachine r prov m link placement s
    \<and> (case fst (ensureMachine r prov m link placement s) of
         Inr st \<Rightarrow> st_name st = backendName m
       | Inl e \<Rightarrow> \<forall>i err. machineIDFor (prov_name prov) (providerIDOf m) = Inr i
           \<and> fst (prov_get prov i (env_backend s)) = Inl err \<and> errorsIs err ErrNotFound \<longrightarrow> errorsIs e ErrTerminal)"
proof -
  have "ensureMachine r p m link placement s = (fst (observeMachine p m (env_backend s)), m,
      s\<lparr>env_backend := snd (observeMachine p m (env_backend s))\<rparr>)" for p
    using assms by (simp add: ensureMachine_def split: prod.split)
  moreover have "case fst (observeMachine prov m b) of
         Inr st \<Rightarrow> st_name st = backendName m
       | Inl e \<Rightarrow> \<forall>i err. machineIDFor (prov_name prov) (providerIDOf m) = Inr i
           \<and> fst (prov_get prov i b) = Inl err \<and> errorsIs err ErrNotFound \<longrightarrow> errorsIs e ErrTerminal" for b
    by (auto simp: observeMachine_def verifyOwnership_def split: sum.splits prod.splits option.splits if_splits)
  ultimately show ?thesis by (simp add: observe_withCreate)
qed

theorem recorded_machine_never_recreated_witness:
  "providerIDOf (exampleMachine\<lparr>hm_providerID := Some ''hydra://fake/fake-1''\<rparr>) \<noteq> [] \<and>
   ensureMachine refReconciler (withCreate exampleProvider (\<lambda>_ b. (Inl notFound, b)))
     (exampleMachine\<lparr>hm_providerID := Some ''hydra://fake/fake-1''\<rparr>) exampleLink [] exampleWorld
   = ensureMachine refReconciler exampleProvider
     (exampleMachine\<lparr>hm_providerID := Some ''hydra://fake/fake-1''\<rparr>) exampleLink [] exampleWorld"
proof -
  have p: "providerIDOf (exampleMachine\<lparr>hm_providerID := Some ''hydra://fake/fake-1''\<rparr>) \<noteq> []"
    by (simp add: providerIDOf_def)
  with recorded_machine_never_recreated [OF p] show ?thesis by blast
qed







section \<open>The crash window\<close>










end
