(* ===== verification/Cluster_Controller.thy ===== *)
theory Cluster_Controller
  imports Machine_Controller
begin

text \<open>
  \<^verbatim>\<open>internal/controller/hydracluster_controller.go\<close>: the reconciler that verifies the
  infrastructure a HydraCluster names, chooses and records the control-plane endpoint of a managed
  network, and confirms the hypervisor. \<^verbatim>\<open>managedNetworkOf\<close>, which both reconcilers use, is
  with the machine reconciler.
\<close>

section \<open>The reconciler\<close>

definition requeueClusterHealthy :: Result where "requeueClusterHealthy = 300"
definition requeueClusterUnverified :: Result where "requeueClusterUnverified = 30"
definition requeueAfterConflict :: Result where "requeueAfterConflict = 2"
definition defaultAPIServerPort :: "32 word" where "defaultAPIServerPort = 6443"
definition maxListed :: nat where "maxListed = 5"

record ('k, 'b) HydraClusterReconciler =
  cr_lib :: lib
  cr_client :: "'k kube"
  cr_apiReader :: "'k kube option"
  cr_provider :: "'b MachineProvider option"
  cr_providerFor :: "(Owner \<Rightarrow> Hypervisor option \<Rightarrow> 'b \<Rightarrow> (goerr + 'b MachineProvider) \<times> 'b) option"
  cr_releaseProvider :: "(Owner \<Rightarrow> 'b \<Rightarrow> 'b) option"

definition clusterOwner :: "NamespacedName \<Rightarrow> Owner" where
  "clusterOwner key = \<lparr>own_kind = hydraClusterKind, own_namespace = fst key, own_name = snd key\<rparr>"

definition releaseCluster ::
  "('k, 'b) HydraClusterReconciler \<Rightarrow> NamespacedName \<Rightarrow> ('k, 'b) env \<Rightarrow> ('k, 'b) env" where
  "releaseCluster r key s = (case cr_releaseProvider r of
     None \<Rightarrow> s | Some f \<Rightarrow> s\<lparr>env_backend := f (clusterOwner key) (env_backend s)\<rparr>)"

definition clusterProvider ::
  "('k, 'b) HydraClusterReconciler \<Rightarrow> HydraCluster \<Rightarrow> ('k, 'b) env
    \<Rightarrow> (goerr + 'b MachineProvider) \<times> ('k, 'b) env" where
  "clusterProvider r hc s =
     (case cr_provider r of
        Some p \<Rightarrow> (Inr p, s)
      | None \<Rightarrow> (case cr_providerFor r of
          None \<Rightarrow> (Inl (marked ErrTerminal ''no infrastructure backend is configured'' []), s)
        | Some providerFor \<Rightarrow>
            (case hypervisorOf (cr_lib r) (cr_apiReader r) (Some hc) (env_kube s) of
               Inl e \<Rightarrow> (Inl e, s)
             | Inr hypervisor \<Rightarrow>
                 let key = objectKey (hc_meta hc);
                     s1 = (if hypervisor = None then releaseCluster r key s else s)
                 in (case providerFor (clusterOwner key) hypervisor (env_backend s1) of
                       (Inl e, b) \<Rightarrow> (Inl (WrapErr ''connecting to the infrastructure backend'' [] e),
                                     s1\<lparr>env_backend := b\<rparr>)
                     | (Inr p, b) \<Rightarrow> (Inr p, s1\<lparr>env_backend := b\<rparr>)))))"

section \<open>The managed network\<close>

text \<open>
  \<^verbatim>\<open>gw[3]++\<close> increments the last byte alone, without a carry: the mask of the other three
  bytes is kept. \<^verbatim>\<open>To4\<close> of the base of a network written in IPv6 is nil unless it is a
  mapped address.
\<close>

definition bumpLastByte :: "32 word \<Rightarrow> 32 word" where
  "bumpLastByte w = (w AND NOT 0xff) OR ((w + 1) AND 0xff)"

definition managedNetworkGateway :: "string \<Rightarrow> goerr + (32 word \<times> IPNet)" where
  "managedNetworkGateway cidr =
     (case ParseCIDR cidr of
        None \<Rightarrow> Inl (marked ErrTerminal ''managedNetwork.subnet is not valid CIDR'' [cidr])
      | Some (_, subnet) \<Rightarrow>
          (case To4 (net_ip subnet) of
             None \<Rightarrow> Inl (marked ErrTerminal ''managedNetwork.subnet is not IPv4'' [cidr])
           | Some base \<Rightarrow> Inr (bumpLastByte base, subnet)))"

text \<open>Nil, here \<^const>\<open>None\<close>, unless the network number and its mask are four bytes.\<close>

definition broadcastOf :: "IPNet \<Rightarrow> 32 word option" where
  "broadcastOf subnet = (case To4 (net_ip subnet) of
     None \<Rightarrow> None
   | Some base \<Rightarrow> if net_is4 subnet then Some (base OR NOT (mask4 (net_ones subnet))) else None)"

text \<open>
  \<^verbatim>\<open>bytes.Compare\<close> of two \<^verbatim>\<open>To4\<close> results: a nil slice is before every address.
\<close>

definition cmp4 :: "32 word option \<Rightarrow> 32 word option \<Rightarrow> int" where
  "cmp4 a b = (case (a, b) of
     (None, None) \<Rightarrow> 0 | (None, Some _) \<Rightarrow> - 1 | (Some _, None) \<Rightarrow> 1
   | (Some x, Some y) \<Rightarrow> if x < y then - 1 else if x = y then 0 else 1)"

text \<open>\<^verbatim>\<open>IP.Equal\<close> of an address and a nil address is false.\<close>

definition validateEndpointAgainstManagedNetwork :: "HydraCluster \<Rightarrow> goerr option" where
  "validateEndpointAgainstManagedNetwork hc =
     (case hc_managedNetwork hc of
        None \<Rightarrow> None
      | Some n \<Rightarrow>
          let host = ep_host (hc_endpoint hc) in
          (case ParseIP host of
             None \<Rightarrow> None
           | Some endpoint \<Rightarrow>
               (case ParseCIDR (hmn_subnet n) of
                  None \<Rightarrow> Some (marked ErrTerminal ''managedNetwork.subnet is not valid CIDR'' [hmn_subnet n])
                | Some (_, subnet) \<Rightarrow>
                    if \<not> contains subnet endpoint
                    then Some (marked ErrTerminal ''controlPlaneEndpoint.host is not inside managedNetwork.subnet'' [host, hmn_subnet n])
                    else (case managedNetworkGateway (hmn_subnet n) of
                        Inl e \<Rightarrow> Some e
                      | Inr (gateway, _) \<Rightarrow>
                          if endpoint = net_ip subnet
                          then Some (marked ErrTerminal ''controlPlaneEndpoint.host is the network address'' [host, hmn_subnet n])
                          else if endpoint = V4 gateway
                          then Some (marked ErrTerminal ''controlPlaneEndpoint.host is the gateway'' [host, hmn_subnet n])
                          else if map_option V4 (broadcastOf subnet) = Some endpoint
                          then Some (marked ErrTerminal ''controlPlaneEndpoint.host is the broadcast address'' [host, hmn_subnet n])
                          else (case (ParseIP (hmn_dhcpStart n), ParseIP (hmn_dhcpEnd n)) of
                              (Some start, Some end) \<Rightarrow>
                                if cmp4 (To4 endpoint) (To4 start) \<ge> 0 \<and> cmp4 (To4 endpoint) (To4 end) \<le> 0
                                then Some (marked ErrTerminal ''controlPlaneEndpoint.host is inside the DHCP range'' [host, hmn_dhcpStart n, hmn_dhcpEnd n])
                                else None
                            | _ \<Rightarrow> Some (marked ErrTerminal ''managedNetwork DHCP bounds are not both addresses''
                                     [hmn_dhcpStart n, hmn_dhcpEnd n]))))))"

definition nextIPv4 :: "32 word \<Rightarrow> 32 word option" where
  "nextIPv4 v = (if v = - 1 then None else Some (v + 1))"

text \<open>\<^verbatim>\<open>net.ParseIP(s).To4()\<close>, nil for a text that is no address.\<close>

definition parse4 :: "string \<Rightarrow> 32 word option" where
  "parse4 s = Option.bind (ParseIP s) To4"

definition deriveEndpointHost :: "HydraManagedNetwork \<Rightarrow> goerr + string" where
  "deriveEndpointHost n =
     (case managedNetworkGateway (hmn_subnet n) of
        Inl e \<Rightarrow> Inl e
      | Inr (gateway, subnet) \<Rightarrow>
          (case (parse4 (hmn_dhcpStart n), parse4 (hmn_dhcpEnd n)) of
             (Some start, Some end) \<Rightarrow>
               let candidate = (case nextIPv4 gateway of
                     None \<Rightarrow> None
                   | Some c \<Rightarrow> if start \<le> c \<and> c \<le> end then nextIPv4 end else Some c)
               in (case candidate of
                     None \<Rightarrow> Inl (marked ErrTerminal ''managedNetwork.subnet has no address left'' [hmn_subnet n])
                   | Some c \<Rightarrow>
                       if \<not> contains subnet (V4 c) \<or> cmp4 (Some c) (broadcastOf subnet) \<ge> 0
                       then Inl (marked ErrTerminal ''managedNetwork.subnet has no address left'' [hmn_subnet n])
                       else Inr (v4String c))
           | _ \<Rightarrow> Inl (marked ErrTerminal ''managedNetwork DHCP bounds are not both addresses''
                    [hmn_dhcpStart n, hmn_dhcpEnd n])))"

section \<open>Writes\<close>

definition patchClusterStatus ::
  "('k, 'b) HydraClusterReconciler \<Rightarrow> bool \<Rightarrow> string \<Rightarrow> HydraCluster \<Rightarrow> HydraCluster \<Rightarrow> ('k, 'b) env
    \<Rightarrow> goerr option \<times> HydraCluster \<times> ('k, 'b) env" where
  "patchClusterStatus r lock what base hc s =
     (case patchHydraClusterStatus (cr_client r) lock base hc (env_kube s) of
        (Inl e, k) \<Rightarrow> (Some (WrapErr what [] e), hc, s\<lparr>env_kube := k\<rparr>)
      | (Inr hc', k) \<Rightarrow> (None, hc', s\<lparr>env_kube := k\<rparr>))"

definition clusterCondition :: "string \<Rightarrow> condStatus \<Rightarrow> string \<Rightarrow> msg \<Rightarrow> HydraCluster \<Rightarrow> Condition" where
  "clusterCondition t st reason message hc = \<lparr>c_type = t, c_status = st, c_reason = reason,
     c_message = message, c_observedGeneration = om_generation (hc_meta hc)\<rparr>"

text \<open>A pending note is the text of the error it came from, as in \<^verbatim>\<open>pending = err.Error()\<close>.\<close>

definition recordVerified ::
  "('k, 'b) HydraClusterReconciler \<Rightarrow> HydraCluster \<Rightarrow> goerr option \<Rightarrow> ('k, 'b) env
    \<Rightarrow> goerr option \<times> HydraCluster \<times> ('k, 'b) env" where
  "recordVerified r hc pending s =
     (let message = (if hc_baseImage hc \<noteq> None
            then ''storage pool is running and the base image is present in it''
            else ''storage pool is running'');
          msg = (case pending of None \<Rightarrow> Text message
                 | Some e \<Rightarrow> TextAnd (message @ ''; '') (ErrText e));
          conds = removeStatusCondition (cr_lib r)
            (setStatusCondition (cr_lib r) (hc_conditions hc)
               (clusterCondition ReadyCondition ConditionTrue ''InfrastructureVerified'' msg hc))
            InfrastructureFailedCondition
      in patchClusterStatus r False ''recording verified infrastructure'' hc
           (hc\<lparr>hc_provisioned := Some True, hc_conditions := conds\<rparr>) s)"

definition recordUnverified ::
  "('k, 'b) HydraClusterReconciler \<Rightarrow> HydraCluster \<Rightarrow> goerr \<Rightarrow> ('k, 'b) env
    \<Rightarrow> goerr option \<times> HydraCluster \<times> ('k, 'b) env" where
  "recordUnverified r hc cause s =
     (let terminal = errorsIs cause ErrTerminal;
          reason = (if terminal then ''InfrastructureInvalid'' else ''InfrastructureUnverified'');
          conds1 = setStatusCondition (cr_lib r) (hc_conditions hc)
                     (clusterCondition ReadyCondition ConditionFalse reason (ErrText cause) hc);
          conds = (if terminal
                   then setStatusCondition (cr_lib r) conds1
                          (clusterCondition InfrastructureFailedCondition ConditionTrue reason (ErrText cause) hc)
                   else removeStatusCondition (cr_lib r) conds1 InfrastructureFailedCondition)
      in patchClusterStatus r False ''recording unverified infrastructure'' hc
           (hc\<lparr>hc_provisioned := (if hc_provisioned hc = None then Some False else hc_provisioned hc),
               hc_conditions := conds\<rparr>) s)"

definition setClusterPaused ::
  "('k, 'b) HydraClusterReconciler \<Rightarrow> HydraCluster \<Rightarrow> string \<Rightarrow> ('k, 'b) env
    \<Rightarrow> goerr option \<times> HydraCluster \<times> ('k, 'b) env" where
  "setClusterPaused r hc reason s =
     setPausedCondition (cr_lib r)
       (\<lambda>conds s. let hc' = hc\<lparr>hc_conditions := conds\<rparr> in
          case patchHydraClusterStatus (cr_client r) False hc hc' (env_kube s) of
            (Inl e, k) \<Rightarrow> (Some e, hc', s\<lparr>env_kube := k\<rparr>)
          | (Inr hc'', k) \<Rightarrow> (None, hc'', s\<lparr>env_kube := k\<rparr>))
       hc (hc_conditions hc) (om_generation (hc_meta hc)) PausedCondition reason s"

section \<open>The endpoint\<close>

text \<open>What would be recorded: the Cluster's own endpoint, or the derived one.\<close>

definition chooseEndpoint :: "lib \<Rightarrow> HydraCluster \<Rightarrow> HydraManagedNetwork \<Rightarrow> Cluster \<Rightarrow> goerr + APIEndpoint" where
  "chooseEndpoint L hc n cluster =
     (let endpoint = cl_endpoint cluster; stated = ep_port (hc_endpoint hc) in
      if endpointIsValid L endpoint \<and> stated \<noteq> 0 \<and> stated \<noteq> ep_port endpoint
      then Inl (marked ErrTerminal ''Cluster states controlPlaneEndpoint, but this HydraCluster states another port'' [om_name (cl_meta cluster)])
      else if \<not> endpointIsValid L endpoint
      then (case deriveEndpointHost n of
              Inl e \<Rightarrow> Inl e
            | Inr host \<Rightarrow> Inr \<lparr>ep_host = host, ep_port = (if stated = 0 then defaultAPIServerPort else stated)\<rparr>)
      else Inr endpoint)"

text \<open>True is the lost race.\<close>

definition recordDerivedEndpoint ::
  "('k, 'b) HydraClusterReconciler \<Rightarrow> HydraCluster \<Rightarrow> Cluster option \<Rightarrow> ('k, 'b) env
    \<Rightarrow> (goerr + bool) \<times> HydraCluster \<times> ('k, 'b) env" where
  "recordDerivedEndpoint r hc cluster s =
     (case hc_managedNetwork hc of
        None \<Rightarrow> (Inr False, hc, s)
      | Some n \<Rightarrow>
          if ep_host (hc_endpoint hc) \<noteq> [] then (Inr False, hc, s)
          else case cluster of
              None \<Rightarrow> (Inl (Sentinel ErrEndpointPending), hc, s)
            | Some cl \<Rightarrow>
                (case chooseEndpoint (cr_lib r) hc n cl of
                   Inl e \<Rightarrow> (Inl e, hc, s)
                 | Inr endpoint \<Rightarrow>
                     let candidate = hc\<lparr>hc_endpoint := endpoint\<rparr> in
                     (case validateEndpointAgainstManagedNetwork candidate of
                        Some e \<Rightarrow>
                          (Inl (if endpointIsValid (cr_lib r) (cl_endpoint cl)
                                then WrapErr ''the owning Cluster states controlPlaneEndpoint'' [om_name (cl_meta cl)] e
                                else e), hc, s)
                      | None \<Rightarrow>
                          (case patchHydraCluster (cr_client r) True hc candidate (env_kube s) of
                             (Inl e, k) \<Rightarrow>
                               ((if apiIsConflict e then Inr True
                                 else Inl (WrapErr ''recording the control-plane endpoint'' [ep_host endpoint] e)),
                                candidate, s\<lparr>env_kube := k\<rparr>)
                           | (Inr hc', k) \<Rightarrow> (Inr False, hc', s\<lparr>env_kube := k\<rparr>)))))"

section \<open>The hypervisor\<close>

record hypervisorCheck =
  hk_address :: string
  hk_unrecorded :: "HydraMachine list"

text \<open>Inr of an empty string: the machine is there. Otherwise why it is not.\<close>

definition machineOnHypervisor ::
  "'b MachineProvider \<Rightarrow> HydraMachine \<Rightarrow> 'b \<Rightarrow> (goerr + string) \<times> 'b" where
  "machineOnHypervisor prov m b =
     (case ParseProviderID (providerIDOf m) of
        Inl e \<Rightarrow> (Inr (om_name (hm_meta m) @ '' has a providerID this backend cannot look up''), b)
      | Inr (backend, ident) \<Rightarrow>
          if backend \<noteq> prov_name prov
          then (Inr (om_name (hm_meta m) @ '' has a providerID this backend cannot look up''), b)
          else (case prov_findByName prov (backendName m) b of
              (Inl e, b1) \<Rightarrow>
                (if errorsIs e ErrNotFound
                 then Inr (om_name (hm_meta m) @ '' has no domain named '' @ backendName m @ '' there'')
                 else Inl (WrapErr ''looking for HydraMachine on the hypervisor'' [om_name (hm_meta m)] e), b1)
            | (Inr state, b1) \<Rightarrow>
                (if st_id state \<noteq> ident
                 then Inr (om_name (hm_meta m) @ [CHR 0x27] @ ''s domain '' @ backendName m @ '' there has ID '' @ st_id state
                           @ '', not the recorded '' @ ident)
                 else Inr [], b1)))"

definition summarize :: "string list \<Rightarrow> string \<Rightarrow> string" where
  "summarize items sep =
     (if length items \<le> maxListed then joinStrings sep items
      else joinStrings sep (take maxListed items) @ sep @ ''and '' @ itoa (length items - maxListed)
        @ '' more, '' @ itoa (length items) @ '' in all'')"

text \<open>The loop over the cluster's machines: refused, pending and unrecorded ones so far.\<close>

fun checkMachines ::
  "'b MachineProvider \<Rightarrow> string \<Rightarrow> string list \<Rightarrow> string list \<Rightarrow> HydraMachine list \<Rightarrow> HydraMachine list \<Rightarrow> 'b
    \<Rightarrow> (goerr + string list \<times> string list \<times> HydraMachine list) \<times> 'b" where
  "checkMachines prov address refused pending unrecorded [] b = (Inr (refused, pending, unrecorded), b)"
| "checkMachines prov address refused pending unrecorded (m # ms) b =
     (if deleting m then checkMachines prov address refused pending unrecorded ms b
      else let recorded = annotation m HypervisorAnnotation in
        if recorded = address then checkMachines prov address refused pending unrecorded ms b
        else if recorded \<noteq> []
        then checkMachines prov address (refused @ [om_name (hm_meta m) @ '' records hypervisor '' @ recorded])
               pending unrecorded ms b
        else if providerIDOf m = []
        then checkMachines prov address refused
               (if mayBeMadeOnFlags m then pending @ [om_name (hm_meta m)] else pending) unrecorded ms b
        else case machineOnHypervisor prov m b of
            (Inl e, b1) \<Rightarrow> (Inl e, b1)
          | (Inr refusal, b1) \<Rightarrow>
              if refusal \<noteq> []
              then checkMachines prov address (refused @ [refusal]) pending unrecorded ms b1
              else checkMachines prov address refused pending (unrecorded @ [m]) ms b1)"

definition checkHypervisor ::
  "('k, 'b) HydraClusterReconciler \<Rightarrow> 'b MachineProvider \<Rightarrow> HydraCluster \<Rightarrow> Cluster option \<Rightarrow> ('k, 'b) env
    \<Rightarrow> (goerr + hypervisorCheck option) \<times> ('k, 'b) env" where
  "checkHypervisor r prov hc cluster s =
     (case hc_hypervisor hc of
        None \<Rightarrow> (Inr None, s)
      | Some h \<Rightarrow>
          (case canonicalHypervisor (hh_address h) of
             Inl e \<Rightarrow> (Inl e, s)
           | Inr address \<Rightarrow>
               (case cluster of
                  None \<Rightarrow> (Inl (NewErr ''waiting for the owning Cluster before confirming the hypervisor'' []), s)
                | Some cl \<Rightarrow>
                    (case listHydraMachines (cr_client r) (om_namespace (hc_meta hc)) ClusterNameLabel
                            (om_name (cl_meta cl)) (env_kube s) of
                       Inl e \<Rightarrow> (Inl (WrapErr ''listing the machines of the cluster'' [] e), s)
                     | Inr machines \<Rightarrow>
                         (case checkMachines prov address [] [] [] machines (env_backend s) of
                            (Inl e, b) \<Rightarrow> (Inl e, s\<lparr>env_backend := b\<rparr>)
                          | (Inr (refused, pending, unrecorded), b) \<Rightarrow>
                              (if refused \<noteq> []
                               then Inl (marked ErrTerminal ''hypervisor cannot be confirmed for this cluster''
                                      [address, summarize refused ''; ''])
                               else if pending \<noteq> []
                               then Inl (marked ErrHypervisorPending ''waiting for HydraMachines being created on the flag connection''
                                      [summarize pending '', ''])
                               else Inr (Some \<lparr>hk_address = address, hk_unrecorded = unrecorded\<rparr>),
                               s\<lparr>env_backend := b\<rparr>))))))"

fun recordHypervisors ::
  "('k, 'b) HydraClusterReconciler \<Rightarrow> string \<Rightarrow> string list \<Rightarrow> HydraMachine list \<Rightarrow> ('k, 'b) env
    \<Rightarrow> goerr option \<times> ('k, 'b) env" where
  "recordHypervisors r address conflicted [] s =
     ((if conflicted \<noteq> []
       then Some (marked ErrHypervisorConflict ''recording hypervisor'' [address, summarize conflicted '', ''])
       else None), s)"
| "recordHypervisors r address conflicted (m # ms) s =
     (let m' = m\<lparr>hm_meta := (hm_meta m)\<lparr>om_annotations := (om_annotations (hm_meta m))(HypervisorAnnotation \<mapsto> address)\<rparr>\<rparr>
      in case patchHydraMachine (cr_client r) True m m' (env_kube s) of
           (Inl e, k) \<Rightarrow>
             if apiIsConflict e
             then recordHypervisors r address (conflicted @ [om_name (hm_meta m)]) ms (s\<lparr>env_kube := k\<rparr>)
             else (Some (WrapErr ''recording hypervisor on HydraMachine'' [address, om_name (hm_meta m)] e), s\<lparr>env_kube := k\<rparr>)
         | (Inr _, k) \<Rightarrow> recordHypervisors r address conflicted ms (s\<lparr>env_kube := k\<rparr>))"

text \<open>\<^verbatim>\<open>Spec.Hypervisor\<close> is set when there is a check to commit.\<close>

definition commitHypervisor ::
  "('k, 'b) HydraClusterReconciler \<Rightarrow> HydraCluster \<Rightarrow> hypervisorCheck \<Rightarrow> ('k, 'b) env
    \<Rightarrow> goerr option \<times> HydraCluster \<times> ('k, 'b) env" where
  "commitHypervisor r hc check s =
     (if confirmedHypervisor (Some hc)
      then (case recordHypervisors r (hk_address check) [] (hk_unrecorded check) s of (e, s1) \<Rightarrow> (e, hc, s1))
      else
        let hc1 = hc\<lparr>hc_statusHypervisor := map_option hh_address (hc_hypervisor hc)\<rparr> in
        (case patchHydraClusterStatus (cr_client r) True hc hc1 (env_kube s) of
           (Inl e, k) \<Rightarrow>
             (Some (if apiIsConflict e then marked ErrHypervisorConflict ''confirming hypervisor'' [hk_address check]
                    else WrapErr ''confirming hypervisor'' [hk_address check] e),
              hc, s\<lparr>env_kube := k\<rparr>)
         | (Inr hc2, k) \<Rightarrow>
             (case recordHypervisors r (hk_address check) [] (hk_unrecorded check) (s\<lparr>env_kube := k\<rparr>) of
                (e, s1) \<Rightarrow> (e, hc2, s1))))"

section \<open>Reconciling\<close>

definition infrastructureSpecFor :: "HydraCluster \<Rightarrow> InfrastructureSpec" where
  "infrastructureSpecFor hc = \<lparr>is_storagePool = hc_storagePool hc,
     is_image = (case hc_baseImage hc of None \<Rightarrow> emptyImage | Some img \<Rightarrow> img),
     is_managedNetwork = managedNetworkOf (Some hc)\<rparr>"

text \<open>\<^verbatim>\<open>recordUnverified\<close> as the callers use it: a failure to record replaces the outcome.\<close>

definition unverified ::
  "('k, 'b) HydraClusterReconciler \<Rightarrow> HydraCluster \<Rightarrow> goerr \<Rightarrow> Result \<times> goerr option \<Rightarrow> ('k, 'b) env
    \<Rightarrow> (Result \<times> goerr option) \<times> ('k, 'b) env" where
  "unverified r hc cause outcome s =
     (case recordUnverified r hc cause s of
        (Some statusErr, _, s') \<Rightarrow> ((0, Some statusErr), s')
      | (None, _, s') \<Rightarrow> (outcome, s'))"

definition slowIfTerminal :: "goerr \<Rightarrow> Result" where
  "slowIfTerminal e = (if errorsIs e ErrTerminal then requeueClusterHealthy else requeueClusterUnverified)"

text \<open>The end of \<^verbatim>\<open>Reconcile\<close>: what was found is confirmed and reported.\<close>

definition finishVerified ::
  "('k, 'b) HydraClusterReconciler \<Rightarrow> HydraCluster \<Rightarrow> hypervisorCheck option \<Rightarrow> goerr option \<Rightarrow> Result \<Rightarrow> ('k, 'b) env
    \<Rightarrow> (Result \<times> goerr option) \<times> ('k, 'b) env" where
  "finishVerified r hc check pending requeue s =
     (case (case check of
              None \<Rightarrow> (Inr (pending, requeue), hc, s)
            | Some ck \<Rightarrow>
                (case commitHypervisor r hc ck s of
                   (None, hc1, s1) \<Rightarrow> (Inr (pending, requeue), hc1, s1)
                 | (Some e, hc1, s1) \<Rightarrow>
                     if errorsIs e ErrHypervisorConflict then (Inr (Some e, requeueAfterConflict), hc1, s1)
                     else (Inl e, hc1, s1))) of
        (Inl e, _, s1) \<Rightarrow> ((0, Some e), s1)
      | (Inr (pend, req), hc1, s1) \<Rightarrow>
          (case recordVerified r hc1 pend s1 of
             (Some e, _, s2) \<Rightarrow> ((0, Some e), s2)
           | (None, _, s2) \<Rightarrow> ((req, None), s2)))"

definition verifyInfrastructure ::
  "('k, 'b) HydraClusterReconciler \<Rightarrow> 'b MachineProvider \<Rightarrow> HydraCluster \<Rightarrow> Cluster option \<Rightarrow> ('k, 'b) env
    \<Rightarrow> (Result \<times> goerr option) \<times> ('k, 'b) env" where
  "verifyInfrastructure r prov hc cluster s =
     (case checkHypervisor r prov hc cluster s of
        (chk, s1) \<Rightarrow>
          (case (case chk of
                   Inr check \<Rightarrow> Inr (check, None, requeueClusterHealthy)
                 | Inl e \<Rightarrow> if errorsIs e ErrHypervisorPending
                     then Inr (None, Some e, requeueClusterUnverified) else Inl e) of
             Inl e \<Rightarrow> unverified r hc e (slowIfTerminal e, None) s1
           | Inr (check, pending, requeue) \<Rightarrow>
               (case prov_ensureInfrastructure prov (infrastructureSpecFor hc) (env_backend s1) of
                  (Some e, b) \<Rightarrow> unverified r hc e (slowIfTerminal e, None) (s1\<lparr>env_backend := b\<rparr>)
                | (None, b) \<Rightarrow> finishVerified r hc check pending requeue (s1\<lparr>env_backend := b\<rparr>))))"

text \<open>The part of \<^verbatim>\<open>Reconcile\<close> after the pause check.\<close>

definition reconcileClusterActive ::
  "('k, 'b) HydraClusterReconciler \<Rightarrow> HydraCluster \<Rightarrow> Cluster option \<Rightarrow> ('k, 'b) env
    \<Rightarrow> (Result \<times> goerr option) \<times> ('k, 'b) env" where
  "reconcileClusterActive r hc cluster s =
     (case clusterProvider r hc s of
        (Inl e, s1) \<Rightarrow>
          unverified r hc e (if errorsIs e ErrTerminal then (requeueClusterHealthy, None) else (0, Some e)) s1
      | (Inr prov, s1) \<Rightarrow>
          (case recordDerivedEndpoint r hc cluster s1 of
             (Inl e, hc1, s2) \<Rightarrow>
               if errorsIs e ErrTerminal \<or> errorsIs e ErrEndpointPending
               then unverified r hc1 e (requeueClusterUnverified, None) s2
               else ((0, Some e), s2)
           | (Inr conflicted, hc1, s2) \<Rightarrow>
               if conflicted then ((requeueAfterConflict, None), s2)
               else (case validateEndpointAgainstManagedNetwork hc1 of
                   Some e \<Rightarrow> unverified r hc1 e (requeueClusterUnverified, None) s2
                 | None \<Rightarrow> verifyInfrastructure r prov hc1 cluster s2)))"

definition ReconcileCluster ::
  "('k, 'b) HydraClusterReconciler \<Rightarrow> NamespacedName \<Rightarrow> ('k, 'b) env
    \<Rightarrow> (Result \<times> goerr option) \<times> ('k, 'b) env" where
  "ReconcileCluster r req s =
     (case getHydraCluster (cr_client r) req (env_kube s) of
        Inl e \<Rightarrow> ((0, ignoreNotFound e), if apiIsNotFound e then releaseCluster r req s else s)
      | Inr hc \<Rightarrow>
          if om_deleting (hc_meta hc) then ((0, None), releaseCluster r req s)
          else (case ownerClusterOf (cr_client r) (hc_meta hc) (env_kube s) of
              Inl e \<Rightarrow> ((0, Some e), s)
            | Inr cluster \<Rightarrow>
                let reason = pausedReason (om_annotations (hc_meta hc)) cluster in
                if reason \<noteq> [] then (case setClusterPaused r hc reason s of (e, _, s1) \<Rightarrow> ((0, e), s1))
                else (case setClusterPaused r hc [] s of
                    (Some e, _, s1) \<Rightarrow> ((0, Some e), s1)
                  | (None, hc1, s1) \<Rightarrow> reconcileClusterActive r hc1 cluster s1)))"

definition clusterToHydraCluster :: "Cluster \<Rightarrow> NamespacedName list" where
  "clusterToHydraCluster cl =
     (if \<not> isHydraClusterRef (cl_infraRef cl) then []
      else [(om_namespace (cl_meta cl), ir_name (cl_infraRef cl))])"

end
