(* ===== verification/Ipv4_Facts.thy ===== *)
theory Ipv4_Facts
  imports Go_Net
begin

text \<open>
  Facts on IPv4 addresses: the text of an address parses back to it, and a network is the interval
  from its network address to its broadcast address.
\<close>

section \<open>Text\<close>

lemma digitValue_digit_char [simp]: "d < 10 \<Longrightarrow> digitValue (digit_char d) = Some d"
  by (simp add: digitValue_def of_char_digit_char)

lemma digitValue_dot [simp]: "digitValue CHR ''.'' = None"
  by (simp add: digitValue_def)

lemma itoa_byte:
  assumes "v < 256"
  shows "itoa v = (if v < 10 then [digit_char v]
     else if v < 100 then [digit_char (v div 10), digit_char (v mod 10)]
     else [digit_char (v div 100), digit_char (v div 10 mod 10), digit_char (v mod 10)])"
proof -
  have "itoa v = (if v < 10 then [digit_char v] else itoa (v div 10) @ [digit_char (v mod 10)])"
    by (rule itoa.simps)
  moreover have "itoa (v div 10) = (if v div 10 < 10 then [digit_char (v div 10)]
      else itoa (v div 10 div 10) @ [digit_char (v div 10 mod 10)])"
    by (rule itoa.simps)
  moreover have "itoa (v div 100) = [digit_char (v div 100)]" if "\<not> v < 100"
    using assms that by (subst itoa.simps) simp
  ultimately show ?thesis by (auto simp: div_mult2_eq [symmetric])
qed

text \<open>One field of an address, up to what follows it.\<close>

lemma parse_field:
  assumes "v < 256"
  shows "parseIPv4Fields fs 0 0 (itoa v @ rest) = parseIPv4Fields fs v (length (itoa v)) rest"
proof -
  have digits: "v div 10 < 10" if "v < 100" using that by simp
  have "10 * (v div 10) + v mod 10 = v" by simp
  moreover have "10 * (10 * (v div 100) + v div 10 mod 10) + v mod 10 = v"
    by (simp add: div_mult2_eq [of v 10 10, simplified])
  ultimately show ?thesis
    using assms by (auto simp: itoa_byte numeral_2_eq_2 numeral_3_eq_3)
qed

lemma parse_field_dot:
  assumes "v < 256" "rest \<noteq> []" "length fs < 3"
  shows "parseIPv4Fields fs 0 0 (itoa v @ CHR ''.'' # rest) = parseIPv4Fields (fs @ [v]) 0 0 rest"
  using assms by (simp add: parse_field)

lemma parse_field_end:
  assumes "v < 256" "length fs = 3"
  shows "parseIPv4Fields fs 0 0 (itoa v) = Some (fs @ [v])"
  using parse_field [of v fs "[]"] assms by simp

lemma parseIPv4Fields_join:
  assumes "a < 256" "b < 256" "c < 256" "d < 256"
  shows "parseIPv4Fields [] 0 0 (joinStrings ''.'' (map itoa [a, b, c, d])) = Some [a, b, c, d]"
  using assms by (simp add: parse_field_dot parse_field_end)

lemma unat_word32: "unat (w :: 32 word) < 4294967296"
  using unsigned_less [of w, where ?'a = nat] by simp

lemma mk_v4_bytes:
  "mk_v4 [unat w div 16777216, unat w div 65536 mod 256, unat w div 256 mod 256, unat w mod 256] = w"
proof -
  let ?n = "unat w"
  have "256 * (256 * (256 * (?n div 16777216) + ?n div 65536 mod 256) + ?n div 256 mod 256) + ?n mod 256 = ?n"
    using div_mult_mod_eq [of ?n 256] div_mult_mod_eq [of "?n div 256" 256] div_mult_mod_eq [of "?n div 65536" 256]
    by (simp add: div_mult2_eq [of ?n 256 256, simplified] div_mult2_eq [of ?n 65536 256, simplified])
  then have "of_nat (256 * (256 * (256 * (?n div 16777216) + ?n div 65536 mod 256) + ?n div 256 mod 256) + ?n mod 256) = w"
    by simp
  then show ?thesis by (simp add: mk_v4_def del: of_nat_mod)
qed

lemma digit_not_sep:
  assumes "c \<in> set (itoa v)" "v < 256"
  shows "c \<noteq> CHR ''.'' \<and> c \<noteq> CHR '':'' \<and> c \<noteq> CHR ''%''"
proof -
  have "digitValue c \<noteq> None"
    using assms by (auto simp: itoa_byte split: if_splits)
  then show ?thesis by (auto simp: digitValue_def)
qed

lemma ParseIP_v4String [simp]: "ParseIP (v4String w) = Some (V4 w)"
proof -
  let ?a = "unat w div 16777216" and ?b = "unat w div 65536 mod 256" and ?c = "unat w div 256 mod 256"
    and ?d = "unat w mod 256"
  have a: "?a < 256" using unat_word32 [of w] by simp
  have s: "v4String w = itoa ?a @ CHR ''.'' # itoa ?b @ CHR ''.'' # itoa ?c @ CHR ''.'' # itoa ?d"
    by (simp add: v4String_def)
  have "dropWhile (\<lambda>c. c \<noteq> CHR ''.'' \<and> c \<noteq> CHR '':'' \<and> c \<noteq> CHR ''%'') (v4String w)
      = CHR ''.'' # itoa ?b @ CHR ''.'' # itoa ?c @ CHR ''.'' # itoa ?d"
    unfolding s by (rule dropWhile_append_stop) (use digit_not_sep [OF _ a] in auto)
  moreover have "parseIPv4 (v4String w) = Some (V4 w)"
    using parseIPv4Fields_join [OF a, of ?b ?c ?d] mk_v4_bytes [of w]
    by (simp add: parseIPv4_def v4String_def)
  ultimately show ?thesis by (simp add: ParseIP_def parseAddr_def)
qed

section \<open>Networks\<close>

lemma and_not_mask_nat: "unat (w AND NOT (mask k) :: 32 word) = unat w div 2 ^ k * 2 ^ k"
proof -
  have "w AND NOT (mask k) = push_bit k (drop_bit k w)"
    by (rule bit_word_eqI) (auto simp: bit_simps)
  then have "unat (w AND NOT (mask k)) = take_bit 32 (push_bit k (drop_bit k (unat w)))"
    by (simp add: unsigned_push_bit_eq unat_drop_bit_eq)
  also have "\<dots> = push_bit k (drop_bit k (unat w))"
    using unat_word32 [of w]
    by (intro take_bit_nat_eq_self) (simp add: push_bit_eq_mult drop_bit_eq_div,
        metis div_times_less_eq_dividend le_less_trans mult.commute)
  finally show ?thesis by (simp add: push_bit_eq_mult drop_bit_eq_div)
qed

text \<open>An IPv4 network: a base without host bits under its mask.\<close>

definition net4 :: "IPNet \<Rightarrow> 32 word \<Rightarrow> nat \<Rightarrow> bool" where
  "net4 net base k \<longleftrightarrow> net_is4 net \<and> net_ip net = V4 base \<and> net_ones net \<le> 32 \<and> k = 32 - net_ones net
     \<and> base AND NOT (mask k) = base"

lemma net4_base_nat: "net4 net base k \<Longrightarrow> unat base = unat base div 2 ^ k * 2 ^ k"
  unfolding net4_def by (metis and_not_mask_nat)

lemma ParseCIDR_net4:
  assumes "ParseCIDR s = Some (a, net)" "net_is4 net"
  shows "\<exists>base k. net4 net base k"
proof -
  from assms obtain w n where "net_ip net = V4 (w AND mask4 n)" "net_ones net = n" "n \<le> 32"
    by (auto simp: ParseCIDR_def split: prod.splits option.splits if_splits)
  with assms(2) have "net4 net (w AND mask4 n) (32 - n)"
    by (simp add: net4_def mask4_def and.assoc)
  then show ?thesis by blast
qed

lemma mask_nat:
  assumes "k \<le> 32"
  shows "unat (mask k :: 32 word) = 2 ^ k - 1"
proof -
  have "unat (of_nat (mask k) :: 32 word) = take_bit 32 (mask k)" by (simp only: unsigned_of_nat) simp
  also have "\<dots> = mask k" using assms by (simp add: take_bit_of_mask min_def)
  finally show ?thesis by (simp add: mask_eq_exp_minus_1)
qed

lemma broadcast_nat:
  assumes "net4 net base k"
  shows "unat (base OR mask k) = unat base + (2 ^ k - 1)"
proof -
  have k: "k \<le> 32" using assms by (simp add: net4_def)
  have "base AND mask k = 0"
  proof -
    have "base AND NOT (mask k) = base" using assms by (auto simp only: net4_def)
    then have "base AND mask k = (base AND NOT (mask k)) AND mask k" by simp
    also have "\<dots> = 0" by (rule bit_word_eqI) (auto simp: bit_simps)
    finally show ?thesis .
  qed
  then have add: "base OR mask k = base + mask k"
    by (simp add: disjunctive_add_eq_or)
  have "unat base div 2 ^ k < 2 ^ (32 - k)"
    using unat_word32 [of base] k by (simp add: div_less_iff_less_mult power_add [symmetric])
  then have "(unat base div 2 ^ k + 1) * 2 ^ k \<le> 2 ^ (32 - k) * 2 ^ k"
    by (intro mult_right_mono) simp_all
  also have "\<dots> = 4294967296" using k by (simp add: power_add [symmetric])
  finally have "unat base + 2 ^ k \<le> 4294967296"
    using net4_base_nat [OF assms] by simp
  then have "unat base + (2 ^ k - 1) < 2 ^ LENGTH(32)" by (simp add: less_diff_conv2)
  then show ?thesis
    unfolding add using mask_nat [OF k] by (simp add: unat_word_ariths take_bit_eq_mod)
qed

lemma same_block: "q = (n :: nat) div 2 ^ k \<longleftrightarrow> q * 2 ^ k \<le> n \<and> n \<le> q * 2 ^ k + (2 ^ k - 1)"
proof
  assume q: "q = n div 2 ^ k"
  have "n mod 2 ^ k < 2 ^ k" by simp
  with div_mult_mod_eq [of n "2 ^ k"] show "q * 2 ^ k \<le> n \<and> n \<le> q * 2 ^ k + (2 ^ k - 1)"
    unfolding q by linarith
next
  assume r: "q * 2 ^ k \<le> n \<and> n \<le> q * 2 ^ k + (2 ^ k - 1)"
  have "(0 :: nat) < 2 ^ k" by simp
  with r have "n < q * 2 ^ k + 2 ^ k" by linarith
  with r show "q = n div 2 ^ k" by (intro div_nat_eqI [symmetric]) (simp_all add: mult.commute)
qed

lemma contains_interval:
  assumes "net4 net base k"
  shows "contains net (V4 w) \<longleftrightarrow> base \<le> w \<and> w \<le> base OR mask k"
proof -
  let ?q = "unat base div 2 ^ k" and ?r = "unat w div 2 ^ k"
  have "contains net (V4 w) \<longleftrightarrow> base AND NOT (mask k) = w AND NOT (mask k)"
    using assms by (simp add: contains_def net4_def mask4_def Let_def)
  also have "\<dots> \<longleftrightarrow> ?q = ?r"
    using and_not_mask_nat [of base k] and_not_mask_nat [of w k] by (metis div_mult_self_is_m zero_less_numeral zero_less_power unsigned_word_eqI)
  also have "\<dots> \<longleftrightarrow> ?q * 2 ^ k \<le> unat w \<and> unat w \<le> ?q * 2 ^ k + (2 ^ k - 1)"
    by (rule same_block)
  finally show ?thesis
    using net4_base_nat [OF assms] broadcast_nat [OF assms] by (simp add: word_le_nat_alt)
qed

end
