(* ===== verification/Endpoint_Props.thy ===== *)
theory Endpoint_Props
  imports Cluster_Controller Ipv4_Facts
begin

text \<open>
  The control-plane endpoint of a managed network: the check accepts exactly the addresses the
  network can carry and never hands out, and the derivation picks the least of them.
\<close>

section \<open>Specification\<close>

text \<open>
  What \<^verbatim>\<open>docs\<close> and the comments ask of an endpoint: an address of the subnet that is neither the
  network address, nor the first host address (the gateway), nor the broadcast address, nor one
  the DHCP server leases.
\<close>

definition endpointUsable :: "HydraManagedNetwork \<Rightarrow> 32 word \<Rightarrow> bool" where
  "endpointUsable n w = (case (ParseCIDR (hmn_subnet n), parse4 (hmn_dhcpStart n), parse4 (hmn_dhcpEnd n)) of
     (Some (_, net), Some start, Some stop) \<Rightarrow>
        contains net (V4 w) \<and> net_ip net \<noteq> V4 w \<and> map_option (\<lambda>b. b + 1) (To4 (net_ip net)) \<noteq> Some w
        \<and> broadcastOf net \<noteq> Some w \<and> \<not> (start \<le> w \<and> w \<le> stop)
   | _ \<Rightarrow> False)"

text \<open>A declaration admission lets in: an IPv4 subnet and two IPv4 bounds.\<close>

definition networkDeclared :: "HydraManagedNetwork \<Rightarrow> bool" where
  "networkDeclared n = (case ParseCIDR (hmn_subnet n) of
     None \<Rightarrow> False
   | Some (_, net) \<Rightarrow> net_is4 net \<and> parse4 (hmn_dhcpStart n) \<noteq> None \<and> parse4 (hmn_dhcpEnd n) \<noteq> None)"

section \<open>The gateway\<close>

lemma word32_eq_nat: "v = w \<longleftrightarrow> unat v = unat (w :: 32 word)"
  by (rule word_eq_iff_unsigned)

lemmas word32_nat = word32_eq_nat word_le_nat_alt word_less_nat_alt

lemma even_plus_one: "\<not> bit w 0 \<Longrightarrow> (w :: 32 word) + 1 = w OR 1"
  by (subst disjunctive_add_eq_or) (auto intro!: bit_word_eqI simp: bit_simps)

lemma bumpLastByte_even: "\<not> bit w 0 \<Longrightarrow> bumpLastByte w = w + 1"
proof -
  assume "\<not> bit w 0"
  then have w: "w + 1 = w OR 1" by (rule even_plus_one)
  have ff: "(0xff :: 32 word) = mask 8" by (simp add: mask_eq_exp_minus_1)
  show ?thesis
    unfolding bumpLastByte_def w ff
    by (rule bit_word_eqI) (auto simp: bit_simps)
qed

lemma net4_even:
  assumes "net4 net base k" "k \<noteq> 0"
  shows "\<not> bit base 0"
proof -
  have "base AND NOT (mask k) = base" using assms(1) by (auto simp only: net4_def)
  then have "bit base 0 = bit (base AND NOT (mask k)) 0" by simp
  then show ?thesis using assms(2) by (simp add: bit_simps)
qed

lemma gateway_nat:
  assumes "net4 net base k" "k \<noteq> 0"
  shows "bumpLastByte base = base + 1 \<and> unat (base + 1) = unat base + 1"
proof -
  have "(2 :: nat) \<le> 2 ^ k" using power_increasing [of 1 k "2 :: nat"] assms(2) by simp
  then have "unat base + 1 \<le> unat (base OR mask k)" using broadcast_nat [OF assms(1)] by simp
  then have "unat base + 1 < 4294967296" using unat_word32 [of "base OR mask k"] by simp
  then show ?thesis
    using bumpLastByte_even [OF net4_even [OF assms]] by (simp add: unat_word_ariths take_bit_eq_mod)
qed

lemma managedNetwork_decl:
  assumes "networkDeclared n"
  obtains a net base k start stop where
    "ParseCIDR (hmn_subnet n) = Some (a, net)" "net4 net base k"
    "parse4 (hmn_dhcpStart n) = Some start" "parse4 (hmn_dhcpEnd n) = Some stop"
    "managedNetworkGateway (hmn_subnet n) = Inr (bumpLastByte base, net)"
    "broadcastOf net = Some (base OR mask k)"
proof -
  from assms obtain a net start stop where *: "ParseCIDR (hmn_subnet n) = Some (a, net)" "net_is4 net"
    "parse4 (hmn_dhcpStart n) = Some start" "parse4 (hmn_dhcpEnd n) = Some stop"
    by (auto simp: networkDeclared_def split: option.splits prod.splits)
  from ParseCIDR_net4 [OF *(1,2)] obtain base k where n: "net4 net base k" by blast
  then have "net_ip net = V4 base" "mask4 (net_ones net) = NOT (mask k)" by (auto simp: net4_def mask4_def)
  then show ?thesis
    using * n by (intro that) (auto simp: managedNetworkGateway_def broadcastOf_def)
qed

text \<open>The usable addresses, in numbers.\<close>

lemma usable_interval:
  assumes "ParseCIDR (hmn_subnet n) = Some (a, net)" "net4 net base k"
    "parse4 (hmn_dhcpStart n) = Some start" "parse4 (hmn_dhcpEnd n) = Some stop"
    "broadcastOf net = Some (base OR mask k)"
  shows "endpointUsable n w \<longleftrightarrow> unat base + 1 < unat w \<and> w < base OR mask k \<and> \<not> (start \<le> w \<and> w \<le> stop)"
proof -
  have ip: "net_ip net = V4 base" using assms(2) by (simp add: net4_def)
  have "endpointUsable n w \<longleftrightarrow> (base \<le> w \<and> w \<le> base OR mask k) \<and> base \<noteq> w \<and> base + 1 \<noteq> w
      \<and> base OR mask k \<noteq> w \<and> \<not> (start \<le> w \<and> w \<le> stop)"
    using assms ip by (simp add: endpointUsable_def contains_interval)
  also have "\<dots> \<longleftrightarrow> unat base + 1 < unat w \<and> w < base OR mask k \<and> \<not> (start \<le> w \<and> w \<le> stop)"
  proof (cases "k = 0")
    case True
    then have m: "base OR mask k = base" by simp
    show ?thesis unfolding m word32_nat by linarith
  next
    case False
    from gateway_nat [OF assms(2) this] show ?thesis
      unfolding word32_nat by (simp only:) linarith
  qed
  finally show ?thesis .
qed

section \<open>The check\<close>

lemma validate_usable:
  assumes "hc_managedNetwork hc = Some n" "networkDeclared n" "ParseIP (ep_host (hc_endpoint hc)) = Some (V4 w)"
  shows "validateEndpointAgainstManagedNetwork hc = None \<longleftrightarrow> endpointUsable n w"
proof -
  from assms(2) obtain a net base k start stop where d:
    "ParseCIDR (hmn_subnet n) = Some (a, net)" "net4 net base k"
    "parse4 (hmn_dhcpStart n) = Some start" "parse4 (hmn_dhcpEnd n) = Some stop"
    "managedNetworkGateway (hmn_subnet n) = Inr (bumpLastByte base, net)"
    "broadcastOf net = Some (base OR mask k)"
    by (rule managedNetwork_decl)
  have ip: "net_ip net = V4 base" using d(2) by (simp add: net4_def)
  from d(3,4) obtain i j where ij: "ParseIP (hmn_dhcpStart n) = Some i" "ParseIP (hmn_dhcpEnd n) = Some j"
    "To4 i = Some start" "To4 j = Some stop"
    by (auto simp: parse4_def bind_eq_Some_conv)
  have gw: "contains net (V4 w) \<Longrightarrow> w \<noteq> base \<Longrightarrow> bumpLastByte base = base + 1"
    using gateway_nat [OF d(2)] contains_interval [OF d(2)]
    by (cases "k = 0") auto
  have "validateEndpointAgainstManagedNetwork hc = None \<longleftrightarrow>
      contains net (V4 w) \<and> w \<noteq> base \<and> w \<noteq> bumpLastByte base \<and> base OR mask k \<noteq> w \<and> \<not> (start \<le> w \<and> w \<le> stop)"
    using assms(1,3) d ij ip by (auto simp: validateEndpointAgainstManagedNetwork_def cmp4_def Let_def)
  also have "\<dots> \<longleftrightarrow> endpointUsable n w"
    using d ip gw by (auto simp: endpointUsable_def)
  finally show ?thesis .
qed

section \<open>The derivation\<close>

lemma nextIPv4_nat: "nextIPv4 v = None \<longleftrightarrow> unat v = 4294967295" "nextIPv4 v = Some c \<Longrightarrow> unat c = unat v + 1"
proof -
  have "unat (- 1 :: 32 word) = 4294967295"
    by (simp add: unsigned_minus_1_eq_mask mask_eq_exp_minus_1)
  then have m: "v = - 1 \<longleftrightarrow> unat v = 4294967295" by (simp only: word32_eq_nat)
  then show "nextIPv4 v = None \<longleftrightarrow> unat v = 4294967295" by (simp add: nextIPv4_def)
  show "unat c = unat v + 1" if "nextIPv4 v = Some c"
  proof -
    from that m have "c = v + 1" "unat v \<noteq> 4294967295" by (auto simp: nextIPv4_def split: if_splits)
    moreover have "unat v < 4294967296" by (rule unat_word32)
    ultimately show ?thesis by (simp add: unat_word_ariths take_bit_eq_mod)
  qed
qed

text \<open>
  The candidate the derivation tries is the least address above the gateway outside the DHCP range,
  if there is one at all.
\<close>

definition endpointCandidate :: "32 word \<Rightarrow> 32 word \<Rightarrow> 32 word \<Rightarrow> 32 word option" where
  "endpointCandidate gateway start stop = (case nextIPv4 gateway of
     None \<Rightarrow> None
   | Some c \<Rightarrow> if start \<le> c \<and> c \<le> stop then nextIPv4 stop else Some c)"

lemma candidate_least:
  "case endpointCandidate g start stop of
     None \<Rightarrow> \<forall>w. g < w \<longrightarrow> start \<le> w \<and> w \<le> stop
   | Some c \<Rightarrow> g < c \<and> \<not> (start \<le> c \<and> c \<le> stop) \<and> (\<forall>w. g < w \<longrightarrow> w < c \<longrightarrow> start \<le> w \<and> w \<le> stop)"
proof (cases "nextIPv4 g")
  case None
  have "\<not> g < w" for w
    using None nextIPv4_nat(1) [of g] unat_word32 [of w] by (simp add: word_less_nat_alt)
  with None show ?thesis by (simp add: endpointCandidate_def)
next
  case (Some c)
  then have c: "unat c = unat g + 1" by (rule nextIPv4_nat(2))
  show ?thesis
  proof (cases "start \<le> c \<and> c \<le> stop")
    case False
    with Some c show ?thesis by (auto simp: endpointCandidate_def word_less_nat_alt)
  next
    case True
    show ?thesis
    proof (cases "nextIPv4 stop")
      case None
      then have "w \<le> stop" for w
        using nextIPv4_nat(1) [of stop] unat_word32 [of w] by (simp add: word_le_nat_alt)
      with True Some c None show ?thesis
        by (auto simp: endpointCandidate_def word_less_nat_alt word_le_nat_alt)
    next
      case (Some d)
      from nextIPv4_nat(2) [OF this] \<open>nextIPv4 g = Some c\<close> Some True c show ?thesis
        by (auto simp: endpointCandidate_def word_less_nat_alt word_le_nat_alt)
    qed
  qed
qed

lemma derive_candidate:
  assumes "managedNetworkGateway (hmn_subnet n) = Inr (g, net)"
    "parse4 (hmn_dhcpStart n) = Some start" "parse4 (hmn_dhcpEnd n) = Some stop"
    "broadcastOf net = Some bc"
  shows "deriveEndpointHost n = (case endpointCandidate g start stop of
      Some c \<Rightarrow> if contains net (V4 c) \<and> c < bc then Inr (v4String c)
                else Inl (marked ErrTerminal ''managedNetwork.subnet has no address left'' [hmn_subnet n])
    | None \<Rightarrow> Inl (marked ErrTerminal ''managedNetwork.subnet has no address left'' [hmn_subnet n]))"
  using assms by (auto simp: deriveEndpointHost_def endpointCandidate_def cmp4_def Let_def split: option.splits)

lemma derive_least:
  assumes "networkDeclared n"
  shows "case deriveEndpointHost n of
      Inr host \<Rightarrow> \<exists>c. host = v4String c \<and> endpointUsable n c \<and> (\<forall>w. endpointUsable n w \<longrightarrow> c \<le> w)
    | Inl e \<Rightarrow> errorsIs e ErrTerminal \<and> (\<forall>w. \<not> endpointUsable n w)"
proof -
  from assms obtain a net base k start stop where d:
    "ParseCIDR (hmn_subnet n) = Some (a, net)" "net4 net base k"
    "parse4 (hmn_dhcpStart n) = Some start" "parse4 (hmn_dhcpEnd n) = Some stop"
    "managedNetworkGateway (hmn_subnet n) = Inr (bumpLastByte base, net)"
    "broadcastOf net = Some (base OR mask k)"
    by (rule managedNetwork_decl)
  note u = usable_interval [OF d(1-4,6)]
  note c = candidate_least [of "bumpLastByte base" start stop]
  show ?thesis
  proof (cases "k = 0")
    case True
    then have "\<not> endpointUsable n w" for w using u [of w] by (auto simp: word_less_nat_alt)
    moreover have "\<not> (contains net (V4 x) \<and> x < base OR mask k)" for x
      using True contains_interval [OF d(2)] by auto
    ultimately show ?thesis
      by (auto simp: derive_candidate [OF d(5,3,4,6)] split: option.splits)
  next
    case False
    from gateway_nat [OF d(2) this] have g: "bumpLastByte base < w \<longleftrightarrow> unat base + 1 < unat w" for w
      by (simp add: word_less_nat_alt)
    show ?thesis
    proof (cases "endpointCandidate (bumpLastByte base) start stop")
      case None
      with c g u show ?thesis by (auto simp: derive_candidate [OF d(5,3,4,6)])
    next
      case (Some x)
      have "contains net (V4 x) \<longleftrightarrow> x \<le> base OR mask k"
        using c Some g [of x] by (auto simp: contains_interval [OF d(2)] word_le_nat_alt)
      with Some c g u show ?thesis
        by (auto simp: derive_candidate [OF d(5,3,4,6)] not_less [symmetric] dest: less_trans)
    qed
  qed
qed

section \<open>Properties\<close>

text \<open>
  C19: the endpoint check accepts exactly what a managed network can carry. A host that is an IPv4
  address passes if and only if it is usable: in the subnet, not the network, first host or
  broadcast address, and outside the DHCP range. An IPv6 literal never passes; a host name always
  does, because the code leaves names to the operator.
\<close>

theorem validateEndpoint_exact:
  assumes "hc_managedNetwork hc = Some n" "networkDeclared n"
  shows "validateEndpointAgainstManagedNetwork hc = None \<longleftrightarrow>
    (case ParseIP (ep_host (hc_endpoint hc)) of
       None \<Rightarrow> True | Some (V4 w) \<Rightarrow> endpointUsable n w | Some (V6 _) \<Rightarrow> False)"
proof (cases "ParseIP (ep_host (hc_endpoint hc))")
  case None
  with assms show ?thesis by (simp add: validateEndpointAgainstManagedNetwork_def)
next
  case (Some a)
  show ?thesis
  proof (cases a)
    case (V4 w)
    with Some validate_usable [OF assms] show ?thesis by simp
  next
    case (V6 w)
    from assms(2) obtain a net base k where d: "ParseCIDR (hmn_subnet n) = Some (a, net)" "net4 net base k"
      by (rule managedNetwork_decl)
    then have "\<not> contains net (V6 w)" by (simp add: contains_def net4_def)
    with Some V6 assms(1) d(1) show ?thesis by (simp add: validateEndpointAgainstManagedNetwork_def)
  qed
qed

definition exampleNetwork :: HydraManagedNetwork where
  "exampleNetwork = \<lparr>hmn_name = ''capi'', hmn_subnet = ''10.10.10.0/28'',
     hmn_dhcpStart = ''10.10.10.2'', hmn_dhcpEnd = ''10.10.10.9''\<rparr>"

definition exampleHydraCluster :: HydraCluster where
  "exampleHydraCluster = \<lparr>hc_meta = \<lparr>om_name = ''hc'', om_namespace = ''ns'', om_uid = ''u2'', om_generation = 1,
       om_annotations = Map.empty, om_labels = Map.empty, om_ownerRefs = [], om_finalizers = [], om_deleting = False\<rparr>,
     hc_endpoint = \<lparr>ep_host = [], ep_port = 0\<rparr>, hc_storagePool = ''default'', hc_baseImage = None,
     hc_networks = [], hc_managedNetwork = Some exampleNetwork, hc_hypervisor = None, hc_provisioned = None,
     hc_conditions = [], hc_statusHypervisor = None\<rparr>"

lemma exampleNetwork_declared: "networkDeclared exampleNetwork"
  by code_simp

theorem validateEndpoint_exact_witness:
  "validateEndpointAgainstManagedNetwork
     (exampleHydraCluster\<lparr>hc_endpoint := \<lparr>ep_host = ''10.10.10.9'', ep_port = 6443\<rparr>\<rparr>) \<noteq> None
   \<and> validateEndpointAgainstManagedNetwork
     (exampleHydraCluster\<lparr>hc_endpoint := \<lparr>ep_host = ''10.10.10.10'', ep_port = 6443\<rparr>\<rparr>) = None"
proof -
  have "ParseIP ''10.10.10.9'' = Some (V4 168430089)" "ParseIP ''10.10.10.10'' = Some (V4 168430090)"
    "\<not> endpointUsable exampleNetwork 168430089" "endpointUsable exampleNetwork 168430090"
    by code_simp+
  then show ?thesis
    by (simp add: validateEndpoint_exact [OF _ exampleNetwork_declared] exampleHydraCluster_def)
qed

text \<open>
  C20: the derived control-plane endpoint. For a declared managed network the derivation returns the
  text of the least usable address, which the endpoint check then accepts; it fails, with a terminal
  error, exactly when the network has no usable address. The walk through the addresses therefore
  never overshoots, wraps around or lands in the DHCP range.
\<close>

theorem deriveEndpointHost_least:
  assumes "networkDeclared n"
  shows "case deriveEndpointHost n of
      Inr host \<Rightarrow> (\<exists>c. host = v4String c \<and> endpointUsable n c \<and> (\<forall>w. endpointUsable n w \<longrightarrow> c \<le> w))
        \<and> (\<forall>hc. hc_managedNetwork hc = Some n \<longrightarrow> ep_host (hc_endpoint hc) = host
              \<longrightarrow> validateEndpointAgainstManagedNetwork hc = None)
    | Inl e \<Rightarrow> errorsIs e ErrTerminal \<and> (\<forall>w. \<not> endpointUsable n w)"
  using derive_least [OF assms] validate_usable [OF _ assms]
  by (auto simp: ParseIP_v4String split: sum.splits)

theorem deriveEndpointHost_least_witness:
  "\<exists>c. deriveEndpointHost exampleNetwork = Inr (v4String c) \<and> endpointUsable exampleNetwork c \<and> c \<le> 168430090
     \<and> validateEndpointAgainstManagedNetwork
         (exampleHydraCluster\<lparr>hc_endpoint := \<lparr>ep_host = v4String c, ep_port = 6443\<rparr>\<rparr>) = None"
proof -
  have u: "endpointUsable exampleNetwork 168430090" by code_simp
  have hc: "hc_managedNetwork exampleHydraCluster = Some exampleNetwork" by (simp add: exampleHydraCluster_def)
  show ?thesis
  proof (cases "deriveEndpointHost exampleNetwork")
    case (Inl e)
    with u deriveEndpointHost_least [OF exampleNetwork_declared] show ?thesis by simp
  next
    case (Inr host)
    with u hc deriveEndpointHost_least [OF exampleNetwork_declared] show ?thesis by auto
  qed
qed

end
