(* ===== verification/Cluster_Props.thy ===== *)
theory Cluster_Props
  imports Endpoint_Props Ref_World
begin

text \<open>
  The HydraCluster reconciler: what its verdicts mean to the machines' create gate, what must have
  been seen on a hypervisor before it is confirmed and recorded on machines, and what a paused or
  failing cluster leaves alone.
\<close>

section \<open>Specification\<close>

text \<open>The machine a HydraMachine stands for is there: under its name, with the id it records.\<close>

definition foundThere :: "(string \<rightharpoonup> string) \<Rightarrow> 'b MachineProvider \<Rightarrow> HydraMachine \<Rightarrow> bool" where
  "foundThere there prov m = (case ParseProviderID (providerIDOf m) of
     Inl e \<Rightarrow> False
   | Inr (backend, ident) \<Rightarrow> backend = prov_name prov \<and> there (backendName m) = Some ident)"

text \<open>A machine that exists, and says nothing of where.\<close>

definition unplaced :: "HydraMachine \<Rightarrow> bool" where
  "unplaced m \<longleftrightarrow> \<not> deleting m \<and> annotation m HypervisorAnnotation = [] \<and> providerIDOf m \<noteq> []"

text \<open>
  What confirming a hypervisor asks of each machine of the cluster: it is going away, or records
  that hypervisor, or exists there, or was not made yet and will not be made anywhere else.
\<close>

definition accountedFor :: "(string \<rightharpoonup> string) \<Rightarrow> 'b MachineProvider \<Rightarrow> string \<Rightarrow> HydraMachine \<Rightarrow> bool" where
  "accountedFor there prov address m \<longleftrightarrow> deleting m \<or> annotation m HypervisorAnnotation = address
     \<or> (annotation m HypervisorAnnotation = []
        \<and> (if providerIDOf m = [] then \<not> mayBeMadeOnFlags m else foundThere there prov m))"

section \<open>Looking at the machines\<close>

context machine_provider
begin

lemma machineOnHypervisor_sound:
  assumes "inv b" "machineOnHypervisor prov m b = (res, b')"
  shows "inv b' \<and> vm b' = vm b \<and> rest b' = rest b \<and> (res = Inr [] \<longrightarrow> foundThere (vm b) prov m)"
  using assms find_frame [OF assms(1)] find_ok [OF assms(1)]
  by (auto simp: machineOnHypervisor_def foundThere_def split: sum.splits prod.splits if_splits)

lemma checkMachines_frame:
  "inv b \<Longrightarrow> checkMachines prov address refused pending unrecorded ms b = (res, b')
    \<Longrightarrow> inv b' \<and> vm b' = vm b \<and> rest b' = rest b"
proof (induction ms arbitrary: refused pending unrecorded b)
  case (Cons m ms)
  obtain r1 b1 where m: "machineOnHypervisor prov m b = (r1, b1)" by fastforce
  note f = machineOnHypervisor_sound [OF Cons.prems(1) m]
  show ?case
    using Cons.prems Cons.IH [of b] Cons.IH [of b1] f
    by (auto simp: m Let_def split: if_splits sum.splits)
qed simp

lemma checkMachines_step:
  assumes "inv b" "address \<noteq> []"
    and "checkMachines prov address refused pending unrecorded (m # ms) b = (Inr found, b')"
  shows "\<exists>refused1 pending1 unrecorded1 b1.
      checkMachines prov address refused1 pending1 unrecorded1 ms b1 = (Inr found, b')
      \<and> inv b1 \<and> vm b1 = vm b
      \<and> (refused1 = [] \<and> pending1 = [] \<longrightarrow> refused = [] \<and> pending = []
           \<and> unrecorded1 = unrecorded @ filter unplaced [m] \<and> accountedFor (vm b) prov address m)"
proof -
  obtain r1 b1 where m: "machineOnHypervisor prov m b = (r1, b1)" by fastforce
  note f = machineOnHypervisor_sound [OF assms(1) m]
  show ?thesis
  proof (cases "unplaced m")
    case True
    then have step: "checkMachines prov address refused pending unrecorded (m # ms) b =
      (case r1 of Inl e \<Rightarrow> (Inl e, b1)
       | Inr refusal \<Rightarrow> if refusal \<noteq> []
           then checkMachines prov address (refused @ [refusal]) pending unrecorded ms b1
           else checkMachines prov address refused pending (unrecorded @ [m]) ms b1)"
      using assms(2) by (simp add: unplaced_def m)
    with assms(3) obtain refusal where r: "r1 = Inr refusal" by (cases r1) auto
    show ?thesis
    proof (cases "refusal = []")
      case e: True
      with r step assms(3) have "checkMachines prov address refused pending (unrecorded @ [m]) ms b1 = (Inr found, b')"
        by simp
      moreover have "accountedFor (vm b) prov address m"
        using f r e True by (simp add: accountedFor_def unplaced_def)
      ultimately show ?thesis using f True by fastforce
    next
      case False
      with r step assms(3) have "checkMachines prov address (refused @ [refusal]) pending unrecorded ms b1 = (Inr found, b')"
        by simp
      with f show ?thesis by fastforce
    qed
  next
    case False
    have "\<exists>refused1 pending1. checkMachines prov address refused1 pending1 unrecorded ms b = (Inr found, b')
      \<and> (refused1 = [] \<and> pending1 = [] \<longrightarrow> refused = [] \<and> pending = [] \<and> accountedFor (vm b) prov address m)"
      using False assms(2,3)
      by (simp add: unplaced_def accountedFor_def Let_def split: if_splits) blast+
    with False assms(1) show ?thesis by fastforce
  qed
qed

lemma checkMachines_sound:
  "inv b \<Longrightarrow> address \<noteq> []
    \<Longrightarrow> checkMachines prov address refused pending unrecorded ms b = (Inr ([], [], found), b')
    \<Longrightarrow> refused = [] \<and> pending = [] \<and> found = unrecorded @ filter unplaced ms
      \<and> (\<forall>m\<in>set ms. accountedFor (vm b) prov address m)"
proof (induction ms arbitrary: refused pending unrecorded b)
  case (Cons m ms)
  from checkMachines_step [OF Cons.prems] obtain refused1 pending1 unrecorded1 b1 where
    s: "checkMachines prov address refused1 pending1 unrecorded1 ms b1 = (Inr ([], [], found), b')"
      "inv b1" "vm b1 = vm b"
      "refused1 = [] \<and> pending1 = [] \<longrightarrow> refused = [] \<and> pending = []
           \<and> unrecorded1 = unrecorded @ filter unplaced [m] \<and> accountedFor (vm b) prov address m" by blast
  from Cons.IH [OF s(2) Cons.prems(2) s(1)] s(3,4) show ?case by simp
qed simp

end

section \<open>Recording the hypervisor\<close>

definition placeOn :: "string \<Rightarrow> HydraMachine \<Rightarrow> HydraMachine" where
  "placeOn address m = m\<lparr>hm_meta := (hm_meta m)\<lparr>om_annotations :=
     (om_annotations (hm_meta m))(HypervisorAnnotation \<mapsto> address)\<rparr>\<rparr>"

lemma placeOn_identity [simp]: "identity (placeOn address m) = identity m" "gone (placeOn address m) = gone m"
  "objectKey (hm_meta (placeOn address m)) = objectKey (hm_meta m)"
  by (simp_all add: placeOn_def identity_def gone_def objectKey_def)

abbreviation keysOf :: "HydraMachine list \<Rightarrow> NamespacedName list" where
  "keysOf ms \<equiv> map (\<lambda>m. objectKey (hm_meta m)) ms"

text \<open>
  A list as the API server has it: each object under its key, once. Together with the other writes
  of this reconciler keeping off machines, that is what the proofs need of the API server.
\<close>

definition listsStored :: "('k \<Rightarrow> NamespacedName \<Rightarrow> HydraMachine option) \<Rightarrow> 'k \<Rightarrow> HydraMachine list \<Rightarrow> bool" where
  "listsStored stored k ms \<longleftrightarrow> (\<forall>m\<in>set ms. stored k (objectKey (hm_meta m)) = Some m) \<and> distinct (keysOf ms)"

text \<open>What may have happened to the stored machines: some of the listed ones were placed.\<close>

definition placedSome ::
  "('k \<Rightarrow> NamespacedName \<Rightarrow> HydraMachine option) \<Rightarrow> string \<Rightarrow> HydraMachine list \<Rightarrow> 'k \<Rightarrow> 'k \<Rightarrow> bool" where
  "placedSome stored address ms k k' \<longleftrightarrow>
     (\<forall>key. stored k' key = stored k key
        \<or> (\<exists>m\<in>set ms. key = objectKey (hm_meta m) \<and> stored k key = Some m
             \<and> (\<exists>m'. stored k' key = Some m' \<and> core m' = core (placeOn address m))))"

lemma placedSome_refl [simp]: "placedSome stored address ms k k"
  by (simp add: placedSome_def)

lemma placedSome_other:
  assumes "placedSome stored address ms k k'" "key \<notin> set (keysOf ms)"
  shows "stored k' key = stored k key"
  using assms(1) [unfolded placedSome_def, THEN spec, of key] assms(2) by auto

lemma placedSome_Cons:
  assumes "placedSome stored address [m] k k1" "placedSome stored address ms k1 k'"
    and "objectKey (hm_meta m) \<notin> set (keysOf ms)"
  shows "placedSome stored address (m # ms) k k'"
  unfolding placedSome_def
proof
  fix key
  from assms show "stored k' key = stored k key
      \<or> (\<exists>m\<in>set (m # ms). key = objectKey (hm_meta m) \<and> stored k key = Some m
           \<and> (\<exists>m'. stored k' key = Some m' \<and> core m' = core (placeOn address m)))"
    unfolding placedSome_def
    by (cases "key = objectKey (hm_meta m)") (force dest!: spec [of _ key])+
qed

lemma placedSome_update:
  assumes "stored k (objectKey (hm_meta m)) = Some m" "stored k' = (stored k)(objectKey (hm_meta m) := v)"
    and "v = Some m \<or> (\<exists>m'. v = Some m' \<and> core m' = core (placeOn address m))"
  shows "placedSome stored address [m] k k'"
  unfolding placedSome_def
proof
  fix key
  show "stored k' key = stored k key
      \<or> (\<exists>m\<in>set [m]. key = objectKey (hm_meta m) \<and> stored k key = Some m
           \<and> (\<exists>m'. stored k' key = Some m' \<and> core m' = core (placeOn address m)))"
    using assms by (cases "key = objectKey (hm_meta m)") auto
qed

context api_server
begin

lemma patch_places:
  assumes "stored k (objectKey (hm_meta m)) = Some m" "\<not> deleting m"
    and "patchHydraMachine c True m (placeOn address m) k = (res, k')"
  shows "placedSome stored address [m] k k'
    \<and> (\<forall>m'. res = Inr m' \<longrightarrow> stored k' (objectKey (hm_meta m)) = Some m' \<and> core m' = core (placeOn address m))"
proof -
  have g: "\<not> gone (placeOn address m)" using assms(2) by (simp only: placeOn_identity) (simp add: gone_def)
  show ?thesis
  proof (cases res)
    case (Inl e)
    with patch_err [OF assms(1) refl _ assms(3) [unfolded Inl]] g show ?thesis
      by (auto simp: applied_def assms(1) intro: placedSome_update [of stored, OF assms(1)])
  next
    case (Inr m')
    with patch_ok [OF assms(1) refl _ assms(3) [unfolded Inr]] g show ?thesis
      by (auto intro: placedSome_update [of stored, OF assms(1)])
  qed
qed

lemma recordHypervisors_places:
  assumes "cr_client r = c"
  shows "listsStored stored (env_kube s) ms \<Longrightarrow> \<forall>m\<in>set ms. \<not> deleting m
    \<Longrightarrow> recordHypervisors r address conflicted ms s = (e, s')
    \<Longrightarrow> env_backend s' = env_backend s \<and> placedSome stored address ms (env_kube s) (env_kube s')
      \<and> (e = None \<longrightarrow> conflicted = [] \<and> (\<forall>m\<in>set ms. \<exists>m'. stored (env_kube s') (objectKey (hm_meta m)) = Some m'
           \<and> core m' = core (placeOn address m)))"
proof (induction ms arbitrary: conflicted s)
  case Nil
  then show ?case by (auto split: if_splits)
next
  case (Cons m ms)
  obtain res k1 where p: "patchHydraMachine c True m (placeOn address m) (env_kube s) = (res, k1)" by fastforce
  from Cons.prems have m: "stored (env_kube s) (objectKey (hm_meta m)) = Some m" "\<not> deleting m"
    "objectKey (hm_meta m) \<notin> set (keysOf ms)" by (auto simp: listsStored_def)
  note pl = patch_places [OF m(1,2) p]
  let ?s = "s\<lparr>env_kube := k1\<rparr>"
  have l1: "listsStored stored (env_kube ?s) ms"
    unfolding listsStored_def
  proof (intro conjI ballI)
    fix x assume x: "x \<in> set ms"
    have "stored (env_kube s) (objectKey (hm_meta x)) = Some x"
      using Cons.prems(1) x unfolding listsStored_def by (metis list.set_intros(2))
    moreover have "objectKey (hm_meta x) \<in> set (keysOf ms)" using x by simp
    with m(3) have "objectKey (hm_meta x) \<notin> set (keysOf [m])" by (metis empty_iff empty_set list.simps(8,9) set_ConsD)
    ultimately show "stored (env_kube ?s) (objectKey (hm_meta x)) = Some x"
      using placedSome_other [OF conjunct1 [OF pl], of "objectKey (hm_meta x)"] by simp
  qed (use Cons.prems(1) in \<open>simp add: listsStored_def\<close>)
  have d: "\<forall>m\<in>set ms. \<not> deleting m" using Cons.prems by simp
  note IH = Cons.IH [OF l1 d]
  have step: "recordHypervisors r address conflicted (m # ms) s = (case res of
      Inl e \<Rightarrow> if apiIsConflict e then recordHypervisors r address (conflicted @ [om_name (hm_meta m)]) ms ?s
               else (Some (WrapErr ''recording hypervisor on HydraMachine'' [address, om_name (hm_meta m)] e), ?s)
    | Inr _ \<Rightarrow> recordHypervisors r address conflicted ms ?s)"
    using p assms by (simp add: placeOn_def Let_def split: sum.splits)
  consider (stop) "e \<noteq> None" "s' = ?s"
    | (conflict) "recordHypervisors r address (conflicted @ [om_name (hm_meta m)]) ms ?s = (e, s')"
    | (onward) m' where "res = Inr m'" "recordHypervisors r address conflicted ms ?s = (e, s')"
  proof (cases res)
    case (Inl x)
    then show ?thesis
      using Cons.prems(3) that(1,2) unfolding step by (cases "apiIsConflict x") auto
  next
    case (Inr m')
    then show ?thesis using Cons.prems(3) that(3) unfolding step by simp
  qed
  then show ?case
  proof cases
    case stop
    have "placedSome stored address (m # ms) (env_kube s) (env_kube ?s)"
      using placedSome_Cons [OF conjunct1 [OF pl] _ m(3), of k1] by simp
    with stop show ?thesis by auto
  next
    case conflict
    from IH [OF this] placedSome_Cons [OF _ _ m(3)] pl show ?thesis by auto
  next
    case onward
    note h = IH [OF onward(2)]
    then have "stored (env_kube s') (objectKey (hm_meta m)) = stored k1 (objectKey (hm_meta m))"
      using placedSome_other [OF _ m(3)] by auto
    with h pl onward(1) placedSome_Cons [OF _ _ m(3)] show ?thesis by auto
  qed
qed

end

section \<open>The reconciler in its world\<close>

text \<open>
  The laws on top of those of the machine reconciler's world: a list shows the machines as they are
  stored, patching a HydraCluster changes no machine, and a patch under an optimistic lock that
  succeeds answers with the hypervisor that was sent.
\<close>

locale cluster_world =
  api_server "cr_client r" stored + fleet providerFor releaseOwner inv vms site
  for r :: "('k, 'b) HydraClusterReconciler"
    and stored :: "'k \<Rightarrow> NamespacedName \<Rightarrow> HydraMachine option"
    and providerFor :: "Owner \<Rightarrow> Hypervisor option \<Rightarrow> 'b \<Rightarrow> (goerr + 'b MachineProvider) \<times> 'b"
    and releaseOwner :: "Owner \<Rightarrow> 'b \<Rightarrow> 'b"
    and inv :: "'b \<Rightarrow> bool"
    and vms :: "'b \<Rightarrow> string \<Rightarrow> string \<rightharpoonup> string"
    and site :: "string \<Rightarrow> string" +
  assumes no_fixed_provider: "cr_provider r = None"
    and uses_providerFor: "cr_providerFor r = Some providerFor"
    and uses_release: "cr_releaseProvider r = Some releaseOwner"
    and list_stored: "listHydraMachines (cr_client r) ns l v k = Inr ms \<Longrightarrow> listsStored stored k ms"
    and cluster_frame: "patchHydraCluster (cr_client r) lock base hc k = (res, k') \<Longrightarrow> stored k' = stored k"
    and locked_patch: "patchHydraCluster (cr_client r) True base hc k = (Inr hc', k') \<Longrightarrow>
      hc_hypervisor hc' = hc_hypervisor hc"
    and cluster_status_frame:
      "patchHydraClusterStatus (cr_client r) lock base hc k = (res', k') \<Longrightarrow> stored k' = stored k"
begin

text \<open>The machines of every hypervisor and of the API server are as they were.\<close>

definition quiet :: "('k, 'b) env \<Rightarrow> ('k, 'b) env \<Rightarrow> bool" where
  "quiet s s' \<longleftrightarrow> (inv (env_backend s) \<longrightarrow> inv (env_backend s') \<and> vms (env_backend s') = vms (env_backend s))
     \<and> stored (env_kube s') = stored (env_kube s)"

lemma quiet_refl [simp]: "quiet s s"
  by (simp add: quiet_def)

lemma quiet_trans: "quiet s s1 \<Longrightarrow> quiet s1 s2 \<Longrightarrow> quiet s s2"
  by (simp add: quiet_def)

lemma patchClusterStatus_quiet: "patchClusterStatus r lock what base hc s = (e, hc', s') \<Longrightarrow> quiet s s'"
  by (auto simp: patchClusterStatus_def quiet_def split: prod.splits sum.splits dest: cluster_status_frame)

lemma unverified_quiet: "unverified r hc cause outcome s = (res, s') \<Longrightarrow> quiet s s'"
  by (auto simp: unverified_def recordUnverified_def Let_def split: prod.splits option.splits
      dest!: patchClusterStatus_quiet)

lemma recordVerified_quiet: "recordVerified r hc pending s = (e, hc', s') \<Longrightarrow> quiet s s'"
  unfolding recordVerified_def Let_def by (rule patchClusterStatus_quiet)

lemma setClusterPaused_quiet:
  assumes "setClusterPaused r hc reason s = (e, hc', s')"
  shows "quiet s s'"
  using setPausedCondition_result [OF assms [unfolded setClusterPaused_def]]
  by (auto simp: quiet_def Let_def split: prod.splits sum.splits dest: cluster_status_frame)

lemma releaseCluster_quiet: "quiet s (releaseCluster r key s)"
  using release_frame by (simp add: releaseCluster_def quiet_def uses_release)

lemma recordDerivedEndpoint_quiet: "recordDerivedEndpoint r hc cluster s = (res, hc', s') \<Longrightarrow> quiet s s'"
  by (auto simp: recordDerivedEndpoint_def quiet_def Let_def split: option.splits sum.splits prod.splits if_splits
      dest: cluster_frame)

lemma recordDerivedEndpoint_hypervisor:
  "recordDerivedEndpoint r hc cluster s = (res, hc', s') \<Longrightarrow> hc_hypervisor hc' = hc_hypervisor hc"
  by (auto simp: recordDerivedEndpoint_def Let_def split: option.splits sum.splits prod.splits if_splits
      dest: locked_patch)

text \<open>A cluster's provider reaches the hypervisor the cluster names, at its canonical address.\<close>

lemma clusterProvider_at:
  assumes "clusterProvider r hc s = (res, s1)"
  shows "quiet s s1" and "inv (env_backend s) \<Longrightarrow> res = Inr p \<Longrightarrow> \<exists>h.
      machine_provider p inv (\<lambda>b. vms b (site h)) (elsewhere vms (site h))
      \<and> (\<forall>x. hc_hypervisor hc = Some x \<longrightarrow> canonicalHypervisor (hh_address x) = Inr h)"
proof -
  let ?key = "objectKey (hc_meta hc)"
  have "quiet s s1 \<and> (inv (env_backend s) \<longrightarrow> res = Inr p \<longrightarrow> (\<exists>h.
      machine_provider p inv (\<lambda>b. vms b (site h)) (elsewhere vms (site h))
      \<and> (\<forall>x. hc_hypervisor hc = Some x \<longrightarrow> canonicalHypervisor (hh_address x) = Inr h)))"
  proof (cases "hypervisorOf (cr_lib r) (cr_apiReader r) (Some hc) (env_kube s)")
    case (Inl e)
    with assms show ?thesis by (auto simp: clusterProvider_def no_fixed_provider uses_providerFor)
  next
    case (Inr hv)
    define s0 where "s0 = (if hv = None then releaseCluster r ?key s else s)"
    have q0: "quiet s s0" using releaseCluster_quiet by (simp add: s0_def)
    obtain res1 b where c: "providerFor (clusterOwner ?key) hv (env_backend s0) = (res1, b)" by fastforce
    from assms Inr c have r: "s1 = s0\<lparr>env_backend := b\<rparr>" "res = Inr p \<Longrightarrow> res1 = Inr p"
      by (auto simp: clusterProvider_def no_fixed_provider uses_providerFor Let_def s0_def [symmetric] split: sum.splits)
    have h: "\<forall>x. hc_hypervisor hc = Some x \<longrightarrow> canonicalHypervisor (hh_address x) = Inr (hostOf hv)"
      using hypervisorOf_None [of "cr_lib r" "cr_apiReader r" "Some hc" "env_kube s"]
        hypervisorOf_address [of "cr_lib r" "cr_apiReader r" "Some hc" "env_kube s"] Inr
      by (cases hv) (auto simp: hostOf_def)
    have "quiet s s1" using connect_frame [OF _ c] q0 by (auto simp: quiet_def r)
    moreover have "machine_provider p inv (\<lambda>b. vms b (site (hostOf hv))) (elsewhere vms (site (hostOf hv)))"
      if "inv (env_backend s)" "res = Inr p"
      using connect_ok [of "env_backend s0"] c r(2) [OF that(2)] q0 that(1) by (auto simp: quiet_def)
    ultimately show ?thesis using h by blast
  qed
  then show "quiet s s1" and "inv (env_backend s) \<Longrightarrow> res = Inr p \<Longrightarrow> \<exists>h.
      machine_provider p inv (\<lambda>b. vms b (site h)) (elsewhere vms (site h))
      \<and> (\<forall>x. hc_hypervisor hc = Some x \<longrightarrow> canonicalHypervisor (hh_address x) = Inr h)" by blast+
qed

lemma provider_vms:
  assumes "vms b' h = vms b h" "elsewhere vms h b' = elsewhere vms h b"
  shows "vms b' = vms b"
proof
  fix h'
  have "h' \<noteq> h \<Longrightarrow> vms b' h' = vms b h'"
    using fun_cong [OF assms(2), of h'] by (simp add: elsewhere_def)
  with assms(1) show "vms b' h' = vms b h'" by (cases "h' = h") simp_all
qed

text \<open>Machines to record, as the check found them: existing ones that say nothing of where they are.\<close>

lemma checkHypervisor_sound:
  assumes "machine_provider prov inv (\<lambda>b. vms b (site h)) (elsewhere vms (site h))" "inv (env_backend s)"
    and "\<forall>x. hc_hypervisor hc = Some x \<longrightarrow> canonicalHypervisor (hh_address x) = Inr h"
    and "checkHypervisor r prov hc cluster s = (res, s1)"
  shows "quiet s s1" and "res = Inr (Some ck) \<Longrightarrow> hk_address ck = h \<and> h \<noteq> []
      \<and> (\<exists>ms. listsStored stored (env_kube s) ms \<and> hk_unrecorded ck = filter unplaced ms
           \<and> (\<forall>m\<in>set ms. accountedFor (vms (env_backend s) (site h)) prov h m))"
proof -
  have "quiet s s1 \<and> (res = Inr (Some ck) \<longrightarrow> hk_address ck = h \<and> h \<noteq> []
      \<and> (\<exists>ms. listsStored stored (env_kube s) ms \<and> hk_unrecorded ck = filter unplaced ms
           \<and> (\<forall>m\<in>set ms. accountedFor (vms (env_backend s) (site h)) prov h m)))"
  proof (cases "\<exists>x cl ms. hc_hypervisor hc = Some x \<and> cluster = Some cl
      \<and> listHydraMachines (cr_client r) (om_namespace (hc_meta hc)) ClusterNameLabel (om_name (cl_meta cl)) (env_kube s) = Inr ms")
    case False
    with assms(4) show ?thesis by (auto simp: checkHypervisor_def split: option.splits sum.splits)
  next
    case True
    then obtain x cl ms where t: "hc_hypervisor hc = Some x" "cluster = Some cl"
      "listHydraMachines (cr_client r) (om_namespace (hc_meta hc)) ClusterNameLabel (om_name (cl_meta cl)) (env_kube s) = Inr ms"
      by blast
    have h: "canonicalHypervisor (hh_address x) = Inr h" using assms(3) t(1) by blast
    then have ne: "h \<noteq> []" by (rule canonicalHypervisor_nonempty)
    obtain cres b where c: "checkMachines prov h [] [] [] ms (env_backend s) = (cres, b)" by fastforce
    from machine_provider.checkMachines_frame [OF assms(1,2) c]
    have q: "quiet s (s\<lparr>env_backend := b\<rparr>)" using provider_vms [of b "site h"] by (auto simp: quiet_def)
    show ?thesis
    proof (cases cres)
      case (Inl e)
      with assms(4) t h c q show ?thesis by (auto simp: checkHypervisor_def)
    next
      case (Inr found)
      obtain refused pending unrecorded where f: "found = (refused, pending, unrecorded)" by (cases found)
      from machine_provider.checkMachines_sound [OF assms(1,2) ne, of "[]" "[]" "[]" ms unrecorded b] c Inr f
      have "refused = [] \<Longrightarrow> pending = [] \<Longrightarrow> unrecorded = filter unplaced ms
          \<and> (\<forall>m\<in>set ms. accountedFor (vms (env_backend s) (site h)) prov h m)" by simp
      with assms(4) t h c q Inr f ne list_stored [OF t(3)] show ?thesis
        by (auto simp: checkHypervisor_def split: if_splits)
    qed
  qed
  then show "quiet s s1" and "res = Inr (Some ck) \<Longrightarrow> hk_address ck = h \<and> h \<noteq> []
      \<and> (\<exists>ms. listsStored stored (env_kube s) ms \<and> hk_unrecorded ck = filter unplaced ms
           \<and> (\<forall>m\<in>set ms. accountedFor (vms (env_backend s) (site h)) prov h m))" by blast+
qed

text \<open>What a step may have done: placed machines that were found at \<open>h\<close>, and nothing else.\<close>

definition placedFound :: "'b MachineProvider \<Rightarrow> string \<Rightarrow> ('k, 'b) env \<Rightarrow> ('k, 'b) env \<Rightarrow> bool" where
  "placedFound prov h s s' \<longleftrightarrow> inv (env_backend s') \<and> vms (env_backend s') = vms (env_backend s)
     \<and> (\<exists>ms. placedSome stored h ms (env_kube s) (env_kube s')
          \<and> (\<forall>m\<in>set ms. h \<noteq> [] \<and> unplaced m \<and> foundThere (vms (env_backend s) (site h)) prov m))"

lemma placedFound_quiet: "quiet s s' \<Longrightarrow> inv (env_backend s) \<Longrightarrow> placedFound prov h s s'"
  unfolding placedFound_def quiet_def placedSome_def by (metis empty_iff empty_set)

lemma placedSome_stored:
  "stored k = stored k1 \<Longrightarrow> stored k' = stored k1' \<Longrightarrow> placedSome stored h ms k k' = placedSome stored h ms k1 k1'"
  by (simp add: placedSome_def)

lemma placedFound_around:
  assumes "quiet s s1" "inv (env_backend s)" "placedFound prov h s1 s2" "quiet s2 s3"
  shows "placedFound prov h s s3"
  using assms placedSome_stored [of "env_kube s" "env_kube s1" "env_kube s3" "env_kube s2" h]
  unfolding placedFound_def quiet_def by auto

lemma commitHypervisor_places:
  assumes "inv (env_backend s)" "h \<noteq> []" "hk_address ck = h" "listsStored stored (env_kube s) ms"
    "hk_unrecorded ck = filter unplaced ms"
    "\<forall>m\<in>set ms. accountedFor (vms (env_backend s) (site h)) prov h m"
    and "commitHypervisor r hc ck s = (e, hc', s')"
  shows "placedFound prov h s s'"
proof -
  have un: "\<forall>m\<in>set (filter unplaced ms). h \<noteq> [] \<and> unplaced m \<and> foundThere (vms (env_backend s) (site h)) prov m"
    using assms(2,6) by (auto simp: unplaced_def accountedFor_def)
  have rec: "placedFound prov h s s2"
    if "stored (env_kube s1) = stored (env_kube s)" "env_backend s1 = env_backend s"
      "recordHypervisors r h [] (filter unplaced ms) s1 = (e2, s2)" for s1 s2 e2
  proof -
    have ls: "listsStored stored (env_kube s1) (filter unplaced ms)"
      using assms(4) that(1) by (auto simp: listsStored_def distinct_map inj_on_def)
    have "env_backend s2 = env_backend s1 \<and> placedSome stored h (filter unplaced ms) (env_kube s1) (env_kube s2)"
      using recordHypervisors_places [OF refl ls _ that(3)] by (auto simp: unplaced_def)
    with un that(1,2) assms(1) show ?thesis
      unfolding placedFound_def using placedSome_stored [of "env_kube s" "env_kube s1" "env_kube s2" "env_kube s2"] by metis
  qed
  show ?thesis
  proof (cases "confirmedHypervisor (Some hc)")
    case True
    obtain e1 s1 where "recordHypervisors r h [] (filter unplaced ms) s = (e1, s1)" by fastforce
    with True assms(3,5,7) rec [of s] show ?thesis by (simp add: commitHypervisor_def)
  next
    case False
    let ?hc1 = "hc\<lparr>hc_statusHypervisor := map_option hh_address (hc_hypervisor hc)\<rparr>"
    obtain res k where p: "patchHydraClusterStatus (cr_client r) True hc ?hc1 (env_kube s) = (res, k)" by fastforce
    note fr = cluster_status_frame [OF p]
    show ?thesis
    proof (cases res)
      case (Inl x)
      with False p assms(7) have "s' = s\<lparr>env_kube := k\<rparr>" by (simp add: commitHypervisor_def Let_def)
      with fr assms(1) show ?thesis by (intro placedFound_quiet) (simp_all add: quiet_def)
    next
      case (Inr hc2)
      obtain e1 s1 where "recordHypervisors r h [] (filter unplaced ms) (s\<lparr>env_kube := k\<rparr>) = (e1, s1)" by fastforce
      with False Inr p assms(3,5,7) fr rec [of "s\<lparr>env_kube := k\<rparr>"] show ?thesis
        by (simp add: commitHypervisor_def Let_def)
    qed
  qed
qed

lemma finishVerified_places:
  assumes "inv (env_backend s)" "finishVerified r hc check pending requeue s = (res, s')"
    and "\<And>ck. check = Some ck \<Longrightarrow> hk_address ck = h \<and> h \<noteq> []
      \<and> (\<exists>ms. listsStored stored (env_kube s) ms \<and> hk_unrecorded ck = filter unplaced ms
           \<and> (\<forall>m\<in>set ms. accountedFor (vms (env_backend s) (site h)) prov h m))"
  shows "placedFound prov h s s'"
proof -
  have rec: "quiet t s'" if "(case recordVerified r g pend t of
             (Some e, _, s2) \<Rightarrow> ((0, Some e), s2)
           | (None, _, s2) \<Rightarrow> ((req, None), s2)) = (res, s')" for g pend t and req :: Result
    using that by (auto split: prod.splits option.splits dest: recordVerified_quiet)
  show ?thesis
  proof (cases check)
    case None
    with assms(2) rec [where g = hc and pend = pending and t = s and req = requeue] have "quiet s s'" by (simp add: finishVerified_def)
    from this assms(1) show ?thesis by (rule placedFound_quiet)
  next
    case (Some ck)
    obtain e hc1 s1 where c: "commitHypervisor r hc ck s = (e, hc1, s1)" by (metis prod_cases3)
    from assms(3) [OF Some] commitHypervisor_places [OF assms(1) _ _ _ _ _ c] have p: "placedFound prov h s s1" by blast
    have "quiet s1 s'"
      using assms(2) Some c rec
      by (auto simp: finishVerified_def split: option.splits if_splits)
    with p show ?thesis using placedFound_around [of s s] assms(1) by simp
  qed
qed

lemma verifyInfrastructure_places:
  assumes mp: "machine_provider prov inv (\<lambda>b. vms b (site h)) (elsewhere vms (site h))" and i: "inv (env_backend s)"
    and hv: "\<forall>x. hc_hypervisor hc = Some x \<longrightarrow> canonicalHypervisor (hh_address x) = Inr h"
    and v: "verifyInfrastructure r prov hc cluster s = (res, s')"
  shows "placedFound prov h s s'"
proof -
  obtain chk s1 where c: "checkHypervisor r prov hc cluster s = (chk, s1)" by fastforce
  note q1 = checkHypervisor_sound(1) [OF mp i hv c]
  obtain eres b where e: "prov_ensureInfrastructure prov (infrastructureSpecFor hc) (env_backend s1) = (eres, b)"
    by fastforce
  let ?s2 = "s1\<lparr>env_backend := b\<rparr>"
  have q2: "quiet s ?s2"
    using q1 i machine_provider.ensure_frame [OF mp _ e] provider_vms [of b "site h" "env_backend s1"]
    by (auto simp: quiet_def)
  have i2: "inv (env_backend ?s2)" using q2 i by (simp add: quiet_def)
  consider (unv) cause out where "unverified r hc cause out s1 = (res, s')"
    | (unv2) cause out where "unverified r hc cause out ?s2 = (res, s')"
    | (fin) check pending requeue where "finishVerified r hc check pending requeue ?s2 = (res, s')"
        "check = None \<or> chk = Inr check"
    using v c e by (auto simp: verifyInfrastructure_def split: sum.splits option.splits if_splits)
  then show ?thesis
  proof cases
    case unv
    from quiet_trans [OF q1 unverified_quiet [OF this]] i show ?thesis by (rule placedFound_quiet)
  next
    case unv2
    from quiet_trans [OF q2 unverified_quiet [OF this]] i show ?thesis by (rule placedFound_quiet)
  next
    case fin
    have "placedFound prov h ?s2 s'"
    proof (rule finishVerified_places [OF i2 fin(1)])
      fix ck assume "check = Some ck"
      with fin(2) have "chk = Inr (Some ck)" by auto
      from checkHypervisor_sound(2) [OF mp i hv c this]
      show "hk_address ck = h \<and> h \<noteq> [] \<and> (\<exists>ms. listsStored stored (env_kube ?s2) ms
          \<and> hk_unrecorded ck = filter unplaced ms \<and> (\<forall>m\<in>set ms. accountedFor (vms (env_backend ?s2) (site h)) prov h m))"
        using q2 i by (simp add: quiet_def listsStored_def)
    qed
    then show ?thesis by (rule placedFound_around [OF q2 i _ quiet_refl])
  qed
qed

lemma reconcileClusterActive_places:
  assumes i: "inv (env_backend s)" and a: "reconcileClusterActive r hc cluster s = (res, s')"
  shows "\<exists>prov h. placedFound prov h s s'"
proof -
  obtain pres s1 where p: "clusterProvider r hc s = (pres, s1)" by fastforce
  note q1 = clusterProvider_at(1) [OF p]
  show ?thesis
  proof (cases pres)
    case (Inl e)
    with a p have "quiet s1 s'"
      by (auto simp: reconcileClusterActive_def split: if_splits dest: unverified_quiet)
    with q1 i show ?thesis using placedFound_quiet quiet_trans by blast
  next
    case (Inr prov)
    from clusterProvider_at(2) [OF p i Inr] obtain h where
      mp: "machine_provider prov inv (\<lambda>b. vms b (site h)) (elsewhere vms (site h))" and
      hv: "\<forall>x. hc_hypervisor hc = Some x \<longrightarrow> canonicalHypervisor (hh_address x) = Inr h" by blast
    obtain dres hc1 s2 where d: "recordDerivedEndpoint r hc cluster s1 = (dres, hc1, s2)" by (metis prod_cases3)
    note q2 = quiet_trans [OF q1 recordDerivedEndpoint_quiet [OF d]]
    have hv1: "\<forall>x. hc_hypervisor hc1 = Some x \<longrightarrow> canonicalHypervisor (hh_address x) = Inr h"
      using hv recordDerivedEndpoint_hypervisor [OF d] by simp
    have i2: "inv (env_backend s2)" using q2 i by (simp add: quiet_def)
    consider (q) "quiet s2 s'" | (v) "verifyInfrastructure r prov hc1 cluster s2 = (res, s')"
      using a p Inr d
      by (auto simp: reconcileClusterActive_def split: sum.splits if_splits option.splits dest: unverified_quiet)
    then show ?thesis
    proof cases
      case q
      with q2 i show ?thesis using placedFound_quiet quiet_trans by blast
    next
      case v
      from verifyInfrastructure_places [OF mp i2 hv1 v] show ?thesis
        using placedFound_around [OF q2 i _ quiet_refl] by blast
    qed
  qed
qed

lemma ReconcileCluster_places:
  assumes i: "inv (env_backend s)" and a: "ReconcileCluster r req s = (res, s')"
  shows "\<exists>prov h. placedFound prov h s s'"
proof -
  consider (q) "quiet s s'"
    | (act) hc cluster hc1 s1 where "setClusterPaused r hc [] s = (None, hc1, s1)"
        "reconcileClusterActive r hc1 cluster s1 = (res, s')"
    using a releaseCluster_quiet [of s req]
    by (auto simp: ReconcileCluster_def Let_def split: sum.splits if_splits option.splits prod.splits
        dest: setClusterPaused_quiet)
  then show ?thesis
  proof cases
    case q
    then show ?thesis using placedFound_quiet i by blast
  next
    case act
    note q1 = setClusterPaused_quiet [OF act(1)]
    then have "inv (env_backend s1)" using i by (simp add: quiet_def)
    from reconcileClusterActive_places [OF this act(2)] show ?thesis
      using placedFound_around [OF q1 i _ quiet_refl] by blast
  qed
qed

end

section \<open>A world to run in\<close>

text \<open>
  An API server with one HydraCluster beside the machines, which it lists by their known keys, and
  a reconciler over the fleet of in-memory backends.
\<close>

record refWorld =
  rf_machines :: refApi
  rf_keys :: "NamespacedName list"
  rf_cluster :: HydraCluster

fun refList :: "refApi \<Rightarrow> NamespacedName list \<Rightarrow> HydraMachine list" where
  "refList ms [] = []"
| "refList ms (key # keys) = (case ms key of
     None \<Rightarrow> refList ms keys
   | Some m \<Rightarrow> if objectKey (hm_meta m) = key then m # refList ms keys else refList ms keys)"

definition refOwner :: Cluster where
  "refOwner = \<lparr>cl_meta = \<lparr>om_name = ''c1'', om_namespace = ''ns'', om_uid = ''u3'', om_generation = 1,
       om_annotations = Map.empty, om_labels = Map.empty, om_ownerRefs = [], om_finalizers = [], om_deleting = False\<rparr>,
     cl_paused = None, cl_infraRef = \<lparr>ir_kind = hydraClusterKind, ir_apiGroup = hydraGroup, ir_name = ''hc''\<rparr>,
     cl_endpoint = \<lparr>ep_host = [], ep_port = 0\<rparr>, cl_infrastructureProvisioned = Some True\<rparr>"

definition refSecret :: Secret where
  "refSecret = \<lparr>sec_uid = ''u4'', sec_resourceVersion = ''1'',
     sec_data = [hypervisorCACertKey \<mapsto> [1], hypervisorClientCertKey \<mapsto> [2], hypervisorClientKeyKey \<mapsto> [2]]\<rparr>"

definition refClusterKube :: "refWorld kube" where
  "refClusterKube = \<lparr>
     getHydraMachine = (\<lambda>key k. getHydraMachine refKube key (rf_machines k)),
     getMachine = (\<lambda>_ _. Inl notFound), getCluster = (\<lambda>_ _. Inr refOwner),
     getHydraCluster = (\<lambda>key k. if objectKey (hc_meta (rf_cluster k)) = key then Inr (rf_cluster k) else Inl notFound),
     getTemplate = (\<lambda>_ _. Inl notFound),
     getSecret = (\<lambda>_ _. Inr refSecret), listHydraMachines = (\<lambda>_ _ _ k. Inr (refList (rf_machines k) (remdups (rf_keys k)))),
     listTemplates = (\<lambda>_ _. Inr []),
     patchHydraMachine = (\<lambda>lock base m k. let (res, ms) = refPatch lock base m (rf_machines k)
        in (res, k\<lparr>rf_machines := ms\<rparr>)),
     patchHydraMachineStatus = (\<lambda>base m k. let (res, ms) = refStatus base m (rf_machines k)
        in (res, k\<lparr>rf_machines := ms\<rparr>)),
     patchHydraCluster = (\<lambda>_ _ hc k. (Inr hc, k\<lparr>rf_cluster := hc\<rparr>)),
     patchHydraClusterStatus = (\<lambda>_ _ hc k. (Inr hc, k\<lparr>rf_cluster := hc\<rparr>)),
     patchTemplateStatus = (\<lambda>_ t k. (Inr t, k))\<rparr>"

lemma refPatch_lift:
  "patchHydraMachine refClusterKube lock base m k = (res, k') \<longleftrightarrow>
     (\<exists>ms. patchHydraMachine refKube lock base m (rf_machines k) = (res, ms) \<and> k' = k\<lparr>rf_machines := ms\<rparr>)"
  "patchHydraMachineStatus refClusterKube base m k = (res, k') \<longleftrightarrow>
     (\<exists>ms. patchHydraMachineStatus refKube base m (rf_machines k) = (res, ms) \<and> k' = k\<lparr>rf_machines := ms\<rparr>)"
  "getHydraMachine refClusterKube key k = getHydraMachine refKube key (rf_machines k)"
  by (auto simp: refClusterKube_def refKube_def split: prod.splits)

interpretation rca: api_server refClusterKube rf_machines
proof (unfold_locales, goal_cases)
  case 1 then show ?case using ra.get_stored by (simp add: refPatch_lift)
next
  case (2 k base cur m lock m' k')
  then obtain ms where "patchHydraMachine refKube lock base m (rf_machines k) = (Inr m', ms)"
    "k' = k\<lparr>rf_machines := ms\<rparr>" by (auto simp: refPatch_lift)
  with ra.patch_ok [of "rf_machines k", OF 2(1-3)] show ?case by simp
next
  case (3 k base cur m lock e k')
  then obtain ms where "patchHydraMachine refKube lock base m (rf_machines k) = (Inl e, ms)"
    "k' = k\<lparr>rf_machines := ms\<rparr>" by (auto simp: refPatch_lift)
  with ra.patch_err [of "rf_machines k", OF 3(1-3)] show ?case by simp
next
  case (4 base m k res k' key)
  then obtain ms where "patchHydraMachineStatus refKube base m (rf_machines k) = (res, ms)"
    "k' = k\<lparr>rf_machines := ms\<rparr>" by (auto simp: refPatch_lift)
  with ra.status_frame show ?case by simp
next
  case (5 base m k m' k')
  then obtain ms where "patchHydraMachineStatus refKube base m (rf_machines k) = (Inr m', ms)"
    "k' = k\<lparr>rf_machines := ms\<rparr>" by (auto simp: refPatch_lift)
  with ra.status_ok show ?case by simp
next
  case (6 base m k res k' key)
  then obtain ms where "patchHydraMachineStatus refKube base m (rf_machines k) = (res, ms)"
    "k' = k\<lparr>rf_machines := ms\<rparr>" by (auto simp: refPatch_lift)
  with ra.status_others 6(2) show ?case by simp
qed

lemma refList_keys: "keysOf (refList ms keys) = filter (\<lambda>key. \<exists>m. ms key = Some m \<and> objectKey (hm_meta m) = key) keys"
  by (induction keys) (auto split: option.splits)

lemma refList_in: "m \<in> set (refList ms keys) \<Longrightarrow> ms (objectKey (hm_meta m)) = Some m"
  by (induction keys) (auto split: option.splits if_splits)

lemma refList_stored: "listsStored rf_machines k (refList (rf_machines k) (remdups keys))"
  by (simp add: listsStored_def refList_keys refList_in)

definition refClusterReconciler :: "(refWorld, string \<Rightarrow> FakeProvider) HydraClusterReconciler" where
  "refClusterReconciler = \<lparr>cr_lib = refLib, cr_client = refClusterKube, cr_apiReader = Some refClusterKube,
     cr_provider = None, cr_providerFor = Some fakeFleet, cr_releaseProvider = Some (\<lambda>_ b. b)\<rparr>"

interpretation rc: cluster_world refClusterReconciler rf_machines fakeFleet "\<lambda>_ b. b"
  "\<lambda>b. \<forall>h. fake_inv (b h)" "\<lambda>b h. fake_vm (b h)" fakeSite
proof (intro_locales)
  show "api_server (cr_client refClusterReconciler) rf_machines"
    using rca.api_server_axioms by (simp add: refClusterReconciler_def)
  show "cluster_world_axioms refClusterReconciler rf_machines fakeFleet (\<lambda>_ b. b)"
    by unfold_locales (auto simp: refClusterReconciler_def refClusterKube_def refList_stored)
qed

definition exampleClusterWorld :: "(refWorld, string \<Rightarrow> FakeProvider) env" where
  "exampleClusterWorld = \<lparr>env_kube = \<lparr>rf_machines = [(''ns'', ''w1'') \<mapsto> exampleMachine], rf_keys = [(''ns'', ''w1'')],
     rf_cluster = exampleHydraCluster\<rparr>, env_backend = (\<lambda>_. newFake), env_metrics = []\<rparr>"

text \<open>
  A cluster that names the hypervisor of the flags, and a machine made there before it did. The
  reconcile finds the machine and records the address on it.
\<close>

definition namingCluster :: HydraCluster where
  "namingCluster = exampleHydraCluster\<lparr>
     hc_meta := (hc_meta exampleHydraCluster)\<lparr>om_ownerRefs := [\<lparr>ref_apiVersion = capiGroup @ ''/v1beta2'',
       ref_kind = clusterKind, ref_name = ''c1'', ref_uid = ''u3''\<rparr>]\<rparr>,
     hc_managedNetwork := None, hc_hypervisor := Some \<lparr>hh_address = ''hv1'', hh_credentialsSecret = ''creds''\<rparr>\<rparr>"

definition madeMachine :: HydraMachine where
  "madeMachine = examplePlaced\<lparr>hm_providerID := Some (ProviderID ''fake'' (fakeID 1))\<rparr>"

definition madeOnFlags :: "string \<Rightarrow> FakeProvider" where
  "madeOnFlags = (\<lambda>_. newFake)([] := snd (fakeCreate (nameOnlySpec (backendName madeMachine)) newFake))"

definition namingWorld :: "(refWorld, string \<Rightarrow> FakeProvider) env" where
  "namingWorld = \<lparr>env_kube = \<lparr>rf_machines = [(''ns'', ''w1'') \<mapsto> madeMachine], rf_keys = [(''ns'', ''w1'')],
     rf_cluster = namingCluster\<rparr>, env_backend = madeOnFlags, env_metrics = []\<rparr>"

abbreviation namingAfter :: "(refWorld, string \<Rightarrow> FakeProvider) env" where
  "namingAfter \<equiv> snd (ReconcileCluster refClusterReconciler (''ns'', ''hc'') namingWorld)"

lemma madeOnFlags_vm: "fake_vm (madeOnFlags h) n = (if h = [] \<and> n = backendName madeMachine then Some (fakeID 1) else None)"
  by (simp add: madeOnFlags_def fakeCreate_def newFake_def nameOnlySpec_def Let_def)

lemma madeOnFlags_inv: "\<forall>h. fake_inv (madeOnFlags h)"
proof -
  have "fake_inv (snd (fakeCreate spec newFake))" for spec
    using fk.create_frame [of newFake "[]" spec] by (cases "fakeCreate spec newFake") simp
  then show ?thesis by (simp add: madeOnFlags_def)
qed

lemma naming_parse: "ParseProviderID (providerIDOf madeMachine) = Inr (''fake'', fakeID 1)"
  by (simp add: madeMachine_def providerIDOf_def) code_simp

lemma naming_canonical: "canonicalHypervisor ''hv1'' = Inr ''hv1:16514''"
  by code_simp

abbreviation namingProvider :: "(string \<Rightarrow> FakeProvider) MachineProvider" where
  "namingProvider \<equiv> onHost [] (fakeProvider ''default'')"

definition namingHypervisor :: Hypervisor where
  "namingHypervisor = \<lparr>hv_address = ''hv1:16514'',
     hv_credentials = \<lparr>caCert = [1], clientCert = [2], clientKey = [2]\<rparr>, hv_credentialsVersion = ''u4/1''\<rparr>"

lemma naming_hypervisor:
  "hypervisorOf refLib (Some refClusterKube) (Some namingCluster) k = Inr (Some namingHypervisor)"
  by (simp add: hypervisorOf_def namingCluster_def naming_canonical refClusterKube_def refSecret_def namingHypervisor_def
      bytesAt_def checkCredentials_def hypervisorCACertKey_def hypervisorClientCertKey_def hypervisorClientKeyKey_def refLib_def Let_def)

lemma naming_owner: "ownerClusterOf refClusterKube (hc_meta namingCluster) k = Inr (Some refOwner)"
proof -
  have "ownerRefOfKind (om_ownerRefs (hc_meta namingCluster)) clusterKind = Some \<lparr>ref_apiVersion = capiGroup @ ''/v1beta2'',
       ref_kind = clusterKind, ref_name = ''c1'', ref_uid = ''u3''\<rparr>" by code_simp
  then show ?thesis by (simp add: ownerClusterOf_def refClusterKube_def refOwner_def)
qed

lemma naming_fields:
  "hc_conditions namingCluster = []" "om_annotations (hc_meta namingCluster) = Map.empty"
  "hc_managedNetwork namingCluster = None" "\<not> om_deleting (hc_meta namingCluster)"
  "objectKey (hc_meta namingCluster) = (''ns'', ''hc'')"
  by (simp_all add: namingCluster_def exampleHydraCluster_def objectKey_def)

lemma naming_start:
  "ReconcileCluster refClusterReconciler (''ns'', ''hc'') namingWorld
   = verifyInfrastructure refClusterReconciler namingProvider namingCluster (Some refOwner) namingWorld"
proof -
  have r: "cr_client refClusterReconciler = refClusterKube" "cr_lib refClusterReconciler = refLib"
    "cr_apiReader refClusterReconciler = Some refClusterKube" "cr_provider refClusterReconciler = None"
    "cr_providerFor refClusterReconciler = Some fakeFleet" by (simp_all add: refClusterReconciler_def)
  have get: "getHydraCluster refClusterKube (''ns'', ''hc'') (env_kube namingWorld) = Inr namingCluster"
    by (simp add: refClusterKube_def namingWorld_def naming_fields)
  have unpaused: "pausedReason Map.empty (Some refOwner) = []" by (simp add: pausedReason_def refOwner_def)
  have quiet: "setClusterPaused refClusterReconciler namingCluster [] namingWorld = (None, namingCluster, namingWorld)"
    by (simp add: setClusterPaused_def setPausedCondition_def naming_fields r refLib_def)
  have prov: "clusterProvider refClusterReconciler namingCluster namingWorld = (Inr namingProvider, namingWorld)"
    by (simp add: clusterProvider_def r naming_hypervisor fakeFleet_def hostOf_def namingHypervisor_def fakeSite_def)
  show ?thesis
    by (simp add: ReconcileCluster_def r get naming_owner unpaused quiet reconcileClusterActive_def prov
        recordDerivedEndpoint_def validateEndpointAgainstManagedNetwork_def naming_fields Let_def)
qed

lemma naming_found:
  "checkHypervisor refClusterReconciler namingProvider namingCluster (Some refOwner) namingWorld
   = (Inr (Some \<lparr>hk_address = ''hv1:16514'', hk_unrecorded = [madeMachine]\<rparr>), namingWorld)"
proof -
  have l: "listHydraMachines refClusterKube ns lb v (env_kube namingWorld) = Inr [madeMachine]" for ns lb v
    by (simp add: refClusterKube_def namingWorld_def madeMachine_def)
  have m: "machineOnHypervisor namingProvider madeMachine (env_backend namingWorld) = (Inr [], env_backend namingWorld)"
    by (simp add: machineOnHypervisor_def naming_parse onHost_def namingWorld_def madeOnFlags_def fakeFindByName_def
        fakeCreate_def newFake_def nameOnlySpec_def stateAt_def Let_def)
  have c: "checkMachines namingProvider ''hv1:16514'' [] [] [] [madeMachine] (env_backend namingWorld)
      = (Inr ([], [], [madeMachine]), env_backend namingWorld)"
    using m by (simp add: madeMachine_def examplePlaced_def lookupStr_def providerIDOf_def ProviderID_def Let_def)
  have h: "hc_hypervisor namingCluster = Some \<lparr>hh_address = ''hv1'', hh_credentialsSecret = ''creds''\<rparr>"
    by (simp add: namingCluster_def)
  show ?thesis
    by (simp add: checkHypervisor_def h naming_canonical refClusterReconciler_def l c del: checkMachines.simps)
qed

lemma naming_run:
  "rf_machines (env_kube namingAfter) = [(''ns'', ''w1'') \<mapsto> placeOn ''hv1:16514'' madeMachine]"
proof -
  have m: "\<not> gone madeMachine" "objectKey (hm_meta madeMachine) = (''ns'', ''w1'')"
    by (simp_all add: madeMachine_def gone_def)
  have p: "patchHydraMachine refClusterKube True madeMachine (placeOn ''hv1:16514'' madeMachine) k
      = (Inr (placeOn ''hv1:16514'' madeMachine), k\<lparr>rf_machines := [(''ns'', ''w1'') \<mapsto> placeOn ''hv1:16514'' madeMachine]\<rparr>)"
    if "rf_machines k = [(''ns'', ''w1'') \<mapsto> madeMachine]" for k
    using that m by (simp add: refClusterKube_def refPatch_def Let_def) (simp add: placeOn_def)
  obtain b where e: "prov_ensureInfrastructure namingProvider (infrastructureSpecFor namingCluster) (env_backend namingWorld) = (None, b)"
    by (simp add: onHost_def namingWorld_def madeOnFlags_def fakeEnsureInfrastructure_def fakeCreate_def newFake_def nameOnlySpec_def Let_def)
  have k: "rf_machines (env_kube namingWorld) = [(''ns'', ''w1'') \<mapsto> madeMachine]" by (simp add: namingWorld_def)
  have r: "recordHypervisors refClusterReconciler ''hv1:16514'' [] [madeMachine] s =
      (None, s\<lparr>env_kube := (env_kube s)\<lparr>rf_machines := [(''ns'', ''w1'') \<mapsto> placeOn ''hv1:16514'' madeMachine]\<rparr>\<rparr>)"
    if "rf_machines (env_kube s) = [(''ns'', ''w1'') \<mapsto> madeMachine]" for s
    using p [OF that] by (simp add: refClusterReconciler_def placeOn_def Let_def)
  have cs: "patchHydraClusterStatus (cr_client refClusterReconciler) lock base hc k = (Inr hc, k\<lparr>rf_cluster := hc\<rparr>)" for lock base hc k
    by (simp add: refClusterReconciler_def refClusterKube_def)
  have n: "\<not> confirmedHypervisor (Some namingCluster)"
    by (simp add: confirmedHypervisor_def namingCluster_def exampleHydraCluster_def)
  show ?thesis
    unfolding naming_start verifyInfrastructure_def naming_found
    using e k by (simp add: finishVerified_def commitHypervisor_def n r cs recordVerified_def patchClusterStatus_def Let_def
        del: recordHypervisors.simps)
qed

section \<open>Properties\<close>

text \<open>
  C21: a reconcile of a HydraCluster changes no machine on any hypervisor, and of the HydraMachines
  it changes at most the hypervisor record of some that existed without one: each of them was found
  on the hypervisor that is recorded, under its own name and with the id it reports.
\<close>

theorem ReconcileCluster_places_only_found:
  assumes "cluster_world r stored providerFor releaseOwner ok vms site"
    and "ok (env_backend s)"
    and "ReconcileCluster r req s = (res, s')"
  shows "vms (env_backend s') = vms (env_backend s)
    \<and> (\<forall>key. stored (env_kube s') key = stored (env_kube s) key
       \<or> (\<exists>m m' h backend ident. stored (env_kube s) key = Some m \<and> unplaced m \<and> h \<noteq> []
            \<and> ParseProviderID (providerIDOf m) = Inr (backend, ident)
            \<and> vms (env_backend s) (site h) (backendName m) = Some ident
            \<and> stored (env_kube s') key = Some m' \<and> core m' = core (placeOn h m)))"
proof -
  from cluster_world.ReconcileCluster_places [OF assms] obtain prov h where
    "cluster_world.placedFound stored ok vms site prov h s s'" by blast
  then obtain ms where v: "vms (env_backend s') = vms (env_backend s)"
    and p: "placedSome stored h ms (env_kube s) (env_kube s')"
    and f: "\<And>m. m \<in> set ms \<Longrightarrow> h \<noteq> [] \<and> unplaced m \<and> foundThere (vms (env_backend s) (site h)) prov m"
    unfolding cluster_world.placedFound_def [OF assms(1)] by blast
  have found: "\<exists>backend ident. ParseProviderID (providerIDOf m) = Inr (backend, ident)
      \<and> vms (env_backend s) (site h) (backendName m) = Some ident" if "m \<in> set ms" for m
    using f [OF that] by (auto simp: foundThere_def split: sum.splits)
  show ?thesis
    using v p f found unfolding placedSome_def by metis
qed

theorem ReconcileCluster_places_only_found_witness:
  "(\<lambda>h. fake_vm (env_backend namingAfter h)) = (\<lambda>h. fake_vm (env_backend namingWorld h))
   \<and> (\<exists>m' h backend ident. rf_machines (env_kube namingAfter) (''ns'', ''w1'') = Some m' \<and> h \<noteq> []
        \<and> ParseProviderID (providerIDOf madeMachine) = Inr (backend, ident)
        \<and> fake_vm (env_backend namingWorld (fakeSite h)) (backendName madeMachine) = Some ident
        \<and> core m' = core (placeOn h madeMachine))"
proof -
  have ok: "\<forall>h. fake_inv (env_backend namingWorld h)" using madeOnFlags_inv by (simp add: namingWorld_def)
  have run: "ReconcileCluster refClusterReconciler (''ns'', ''hc'') namingWorld
      = (fst (ReconcileCluster refClusterReconciler (''ns'', ''hc'') namingWorld), namingAfter)" by simp
  have before: "rf_machines (env_kube namingWorld) (''ns'', ''w1'') = Some madeMachine" by (simp add: namingWorld_def)
  have "om_annotations (hm_meta (placeOn ''hv1:16514'' madeMachine)) HypervisorAnnotation \<noteq> om_annotations (hm_meta madeMachine) HypervisorAnnotation"
    by (simp add: placeOn_def madeMachine_def examplePlaced_def)
  then have "rf_machines (env_kube namingAfter) (''ns'', ''w1'') \<noteq> rf_machines (env_kube namingWorld) (''ns'', ''w1'')"
    by (auto simp: naming_run before)
  with ReconcileCluster_places_only_found [OF rc.cluster_world_axioms _ run] ok before show ?thesis
    by (metis (no_types, lifting) option.inject)
qed

text \<open>
  C22: what the cluster reconciler's verdicts mean to the machines. The status written for verified
  infrastructure opens the create gate of every machine of the cluster whose Cluster reports its
  infrastructure provisioned; the status written for unverified infrastructure closes it, whatever
  else holds, keeps the provisioned milestone once it was reached, and reports a failed
  infrastructure exactly for a terminal cause. Neither touches the confirmed hypervisor.
\<close>

theorem cluster_verdicts:
  assumes "apimachinery (cr_lib r)"
  shows "(\<exists>hc'. recordVerified r hc pending s = patchClusterStatus r False ''recording verified infrastructure'' hc hc' s
      \<and> hc_statusHypervisor hc' = hc_statusHypervisor hc \<and> hc_provisioned hc' = Some True
      \<and> findStatusCondition (cr_lib r) (hc_conditions hc') InfrastructureFailedCondition = None
      \<and> (\<forall>link cl. lk_machine link \<noteq> None \<and> lk_cluster link = Some cl \<and> cl_infrastructureProvisioned cl = Some True
            \<and> lk_hydraCluster link = Some hc' \<longrightarrow> clusterReadyForCreate (cr_lib r) link = None))
    \<and> (\<exists>hc'. recordUnverified r hc cause s = patchClusterStatus r False ''recording unverified infrastructure'' hc hc' s
      \<and> hc_statusHypervisor hc' = hc_statusHypervisor hc \<and> hc_provisioned hc' = Some (hc_provisioned hc = Some True)
      \<and> (findStatusCondition (cr_lib r) (hc_conditions hc') InfrastructureFailedCondition = None
           \<longleftrightarrow> \<not> errorsIs cause ErrTerminal)
      \<and> (\<forall>link. lk_hydraCluster link = Some hc' \<and> clusterName link \<noteq> [] \<longrightarrow> clusterReadyForCreate (cr_lib r) link \<noteq> None))"
    (is "?V \<and> ?U")
proof
  note f = apimachinery.find_set [OF assms] apimachinery.find_remove [OF assms]
  show ?V
    by (rule exI, intro conjI, unfold recordVerified_def Let_def, rule refl)
       (auto simp: f clusterCondition_def clusterReadyForCreate_def)
  show ?U
    by (rule exI, intro conjI, unfold recordUnverified_def Let_def, rule refl)
       (auto simp: f clusterCondition_def clusterReadyForCreate_def split: option.splits)
qed

theorem cluster_verdicts_witness:
  "\<exists>hc'. recordVerified refClusterReconciler exampleHydraCluster None exampleClusterWorld
       = patchClusterStatus refClusterReconciler False ''recording verified infrastructure'' exampleHydraCluster hc' exampleClusterWorld
     \<and> hc_provisioned hc' = Some True"
proof -
  have a: "apimachinery (cr_lib refClusterReconciler)"
    using refl.apimachinery_axioms by (simp add: refClusterReconciler_def)
  show ?thesis using cluster_verdicts [OF a] by blast
qed

text \<open>
  a hypervisor is not confirmed, and recorded on no machine, by a reconcile whose infrastructure
  check fails: nothing was written before the check, and after it only the verdict is, which keeps
  the confirmed hypervisor as it was.
\<close>

theorem failed_infrastructure_confirms_nothing:
  assumes "checkHypervisor r prov hc cluster s = (chk, s1)"
    and "prov_ensureInfrastructure prov (infrastructureSpecFor hc) (env_backend s1) = (Some e, b)"
  shows "\<exists>cause hc' s2. hc_statusHypervisor hc' = hc_statusHypervisor hc \<and> env_kube s2 = env_kube s
    \<and> verifyInfrastructure r prov hc cluster s =
        (case patchClusterStatus r False ''recording unverified infrastructure'' hc hc' s2 of
           (Some statusErr, _, s') \<Rightarrow> ((0, Some statusErr), s')
         | (None, _, s') \<Rightarrow> ((slowIfTerminal cause, None), s'))"
proof -
  have k: "env_kube s1 = env_kube s"
    using assms(1) by (auto simp: checkHypervisor_def split: option.splits sum.splits prod.splits)
  have u: "\<exists>hc'. hc_statusHypervisor hc' = hc_statusHypervisor hc \<and> unverified r hc cause (q, None) t =
      (case patchClusterStatus r False ''recording unverified infrastructure'' hc hc' t of
           (Some statusErr, _, s') \<Rightarrow> ((0, Some statusErr), s')
         | (None, _, s') \<Rightarrow> ((q, None), s'))" for cause q t
    by (rule exI, rule conjI [rotated], unfold unverified_def recordUnverified_def Let_def, rule refl) simp
  have "\<exists>cause s2. env_kube s2 = env_kube s
      \<and> verifyInfrastructure r prov hc cluster s = unverified r hc cause (slowIfTerminal cause, None) s2"
  proof (cases "\<exists>x. chk = Inl x \<and> \<not> errorsIs x ErrHypervisorPending")
    case True
    then obtain x where "verifyInfrastructure r prov hc cluster s = unverified r hc x (slowIfTerminal x, None) s1"
      using assms(1) by (auto simp: verifyInfrastructure_def)
    with k show ?thesis by blast
  next
    case False
    then have "verifyInfrastructure r prov hc cluster s
        = unverified r hc e (slowIfTerminal e, None) (s1\<lparr>env_backend := b\<rparr>)"
      using assms by (cases chk) (auto simp: verifyInfrastructure_def)
    moreover have "env_kube (s1\<lparr>env_backend := b\<rparr>) = env_kube s" using k by simp
    ultimately show ?thesis by blast
  qed
  then obtain cause s2 where v: "env_kube s2 = env_kube s"
    "verifyInfrastructure r prov hc cluster s = unverified r hc cause (slowIfTerminal cause, None) s2" by blast
  from u [of cause "slowIfTerminal cause" s2] obtain hc' where
    "hc_statusHypervisor hc' = hc_statusHypervisor hc" and "unverified r hc cause (slowIfTerminal cause, None) s2 =
      (case patchClusterStatus r False ''recording unverified infrastructure'' hc hc' s2 of
           (Some statusErr, _, s') \<Rightarrow> ((0, Some statusErr), s')
         | (None, _, s') \<Rightarrow> ((slowIfTerminal cause, None), s'))" by blast
  with v show ?thesis by auto
qed

text \<open>A backend that has no storage pool of the cluster's name.\<close>

definition lacksPool :: "(string \<Rightarrow> FakeProvider) MachineProvider" where
  "lacksPool = exampleProvider\<lparr>prov_ensureInfrastructure := (\<lambda>_ b. (Some (marked ErrTerminal ''no such pool'' []), b))\<rparr>"

theorem failed_infrastructure_confirms_nothing_witness:
  "\<exists>cause hc' s2. hc_statusHypervisor hc' = None \<and> env_kube s2 = env_kube exampleClusterWorld
    \<and> verifyInfrastructure refClusterReconciler lacksPool exampleHydraCluster None exampleClusterWorld =
        (case patchClusterStatus refClusterReconciler False ''recording unverified infrastructure'' exampleHydraCluster hc' s2 of
           (Some statusErr, _, s') \<Rightarrow> ((0, Some statusErr), s')
         | (None, _, s') \<Rightarrow> ((slowIfTerminal cause, None), s'))"
proof -
  have c: "checkHypervisor refClusterReconciler lacksPool exampleHydraCluster None exampleClusterWorld
      = (Inr None, exampleClusterWorld)"
    by (simp add: checkHypervisor_def exampleHydraCluster_def)
  have n: "hc_statusHypervisor exampleHydraCluster = None" by (simp add: exampleHydraCluster_def)
  show ?thesis
    using failed_infrastructure_confirms_nothing [OF c, of "marked ErrTerminal ''no such pool'' []" "env_backend exampleClusterWorld"]
    by (simp add: lacksPool_def n)
qed

text \<open>
  A HydraCluster that is being deleted only gives its connection back, and one that is paused is
  left alone but for the pause condition: no backend call, no requeue.
\<close>

theorem paused_cluster_is_inert:
  assumes "getHydraCluster (cr_client r) req (env_kube s) = Inr hc"
    and "ownerClusterOf (cr_client r) (hc_meta hc) (env_kube s) = Inr cluster"
    and "om_deleting (hc_meta hc) \<or> pausedReason (om_annotations (hc_meta hc)) cluster \<noteq> []"
  shows "if om_deleting (hc_meta hc) then ReconcileCluster r req s = ((0, None), releaseCluster r req s)
    else env_backend (snd (ReconcileCluster r req s)) = env_backend s \<and> fst (fst (ReconcileCluster r req s)) = 0
      \<and> (env_kube (snd (ReconcileCluster r req s)) = env_kube s
         \<or> (\<exists>res conds. patchHydraClusterStatus (cr_client r) False hc (hc\<lparr>hc_conditions := conds\<rparr>) (env_kube s)
              = (res, env_kube (snd (ReconcileCluster r req s)))))"
proof (cases "om_deleting (hc_meta hc)")
  case True
  with assms(1) show ?thesis by (simp add: ReconcileCluster_def)
next
  case False
  let ?why = "pausedReason (om_annotations (hc_meta hc)) cluster"
  obtain e hc' s' where p: "setClusterPaused r hc ?why s = (e, hc', s')" by (metis prod_cases3)
  with False assms have run: "ReconcileCluster r req s = ((0, e), s')" by (simp add: ReconcileCluster_def Let_def)
  from setPausedCondition_result [OF p [unfolded setClusterPaused_def]]
  have "s' = s \<or> (\<exists>res k conds. patchHydraClusterStatus (cr_client r) False hc (hc\<lparr>hc_conditions := conds\<rparr>) (env_kube s) = (res, k)
      \<and> s' = s\<lparr>env_kube := k\<rparr>)"
    by (auto simp: Let_def split: prod.splits sum.splits)
  then show ?thesis using False by (auto simp: run)
qed

definition pausedClusterWorld :: "(refWorld, string \<Rightarrow> FakeProvider) env" where
  "pausedClusterWorld = exampleClusterWorld\<lparr>env_kube := (env_kube exampleClusterWorld)\<lparr>rf_cluster :=
     exampleHydraCluster\<lparr>hc_meta := (hc_meta exampleHydraCluster)\<lparr>om_annotations := [PausedAnnotation \<mapsto> []]\<rparr>\<rparr>\<rparr>\<rparr>"

theorem paused_cluster_is_inert_witness:
  "env_backend (snd (ReconcileCluster refClusterReconciler (''ns'', ''hc'') pausedClusterWorld)) = env_backend pausedClusterWorld
   \<and> fst (fst (ReconcileCluster refClusterReconciler (''ns'', ''hc'') pausedClusterWorld)) = 0"
  using paused_cluster_is_inert [where r = refClusterReconciler and req = "(''ns'', ''hc'')" and s = pausedClusterWorld
      and hc = "rf_cluster (env_kube pausedClusterWorld)" and cluster = None]
  by (simp add: refClusterReconciler_def refClusterKube_def pausedClusterWorld_def exampleClusterWorld_def
      exampleHydraCluster_def objectKey_def ownerClusterOf_def pausedReason_def)

end
