(* ===== verification/Template_Controller.thy ===== *)
theory Template_Controller
  imports Machine_Controller
begin

text \<open>
  \<^verbatim>\<open>internal/controller/hydramachinetemplate_controller.go\<close>: the reconciler that publishes the
  capacity and the platform of the node a machine of a template becomes. It calls no backend; it
  watches its own kind, so a write that repeats would be a loop, and it is proved that it does not.
\<close>

section \<open>The reconciler\<close>

record NodePlatform =
  np_architecture :: string
  np_operatingSystem :: string

record 'k HydraMachineTemplateReconciler =
  tr_lib :: lib
  tr_client :: "'k kube"
  tr_platform :: NodePlatform

text \<open>
  The capacity map, as a list of resource names and quantities. \<^verbatim>\<open>int64(spec.VCPUs)\<close> extends
  the sign.
\<close>

definition capacityFor :: "lib \<Rightarrow> HydraMachineTemplate \<Rightarrow> (string \<times> quantity) list" where
  "capacityFor L template =
     [(''cpu'', newQuantity L (scast (tm_vcpus template))),
      (''memory'', tm_memory template),
      (''ephemeral-storage'', tm_diskSize template)]"

text \<open>The loop over the wanted quantities, in any order: it only ever leaves with false.\<close>

fun capacityLoop :: "lib \<Rightarrow> (string \<times> quantity) list \<Rightarrow> (string \<times> quantity) list \<Rightarrow> bool" where
  "capacityLoop L a [] = True"
| "capacityLoop L a ((name, want) # b) =
     (case map_of a name of
        None \<Rightarrow> False
      | Some got \<Rightarrow> if quantityCmp L got want \<noteq> 0 then False else capacityLoop L a b)"

definition capacityEqual :: "lib \<Rightarrow> (string \<times> quantity) list \<Rightarrow> (string \<times> quantity) list \<Rightarrow> bool" where
  "capacityEqual L a b = (if length a \<noteq> length b then False else capacityLoop L a b)"

definition setTemplatePaused ::
  "'k HydraMachineTemplateReconciler \<Rightarrow> HydraMachineTemplate \<Rightarrow> string \<Rightarrow> 'k
    \<Rightarrow> goerr option \<times> HydraMachineTemplate \<times> 'k" where
  "setTemplatePaused r template reason k =
     setPausedCondition (tr_lib r)
       (\<lambda>conds k. let t' = template\<lparr>tm_conditions := conds\<rparr> in
          case patchTemplateStatus (tr_client r) template t' k of
            (Inl e, k') \<Rightarrow> (Some e, t', k')
          | (Inr t'', k') \<Rightarrow> (None, t'', k'))
       template (tm_conditions template) (om_generation (tm_meta template)) PausedCondition reason k"

text \<open>The part of \<^verbatim>\<open>Reconcile\<close> after the pause check.\<close>

definition publishCapacity ::
  "'k HydraMachineTemplateReconciler \<Rightarrow> HydraMachineTemplate \<Rightarrow> 'k \<Rightarrow> goerr option \<times> 'k" where
  "publishCapacity r template k =
     (let capacity = capacityFor (tr_lib r) template;
          nodeInfo = \<lparr>ni_architecture = np_architecture (tr_platform r),
                      ni_operatingSystem = np_operatingSystem (tr_platform r)\<rparr>
      in if capacityEqual (tr_lib r) (tm_capacity template) capacity \<and> tm_nodeInfo template = nodeInfo then (None, k)
         else (case patchTemplateStatus (tr_client r) template
                      (template\<lparr>tm_capacity := capacity, tm_nodeInfo := nodeInfo\<rparr>) k of
             (Inl e, k') \<Rightarrow> (Some (WrapErr ''publishing template capacity'' [] e), k')
           | (Inr _, k') \<Rightarrow> (None, k')))"

text \<open>Every result is the zero \<^verbatim>\<open>ctrl.Result\<close>, so only the error is returned.\<close>

definition ReconcileTemplate ::
  "'k HydraMachineTemplateReconciler \<Rightarrow> NamespacedName \<Rightarrow> 'k \<Rightarrow> goerr option \<times> 'k" where
  "ReconcileTemplate r req k =
     (case getTemplate (tr_client r) req k of
        Inl e \<Rightarrow> (ignoreNotFound e, k)
      | Inr template \<Rightarrow>
          if om_deleting (tm_meta template) then (None, k)
          else (case ownerClusterOf (tr_client r) (tm_meta template) k of
              Inl e \<Rightarrow> (Some e, k)
            | Inr cluster \<Rightarrow>
                let reason = pausedReason (om_annotations (tm_meta template)) cluster in
                if reason \<noteq> [] then (case setTemplatePaused r template reason k of (e, _, k') \<Rightarrow> (e, k'))
                else (case setTemplatePaused r template [] k of
                    (Some e, _, k') \<Rightarrow> (Some e, k')
                  | (None, t', k') \<Rightarrow> publishCapacity r t' k')))"

definition clusterToHydraMachineTemplates :: "'k kube \<Rightarrow> Cluster \<Rightarrow> 'k \<Rightarrow> NamespacedName list" where
  "clusterToHydraMachineTemplates c cluster k =
     (case listTemplates c (om_namespace (cl_meta cluster)) k of
        Inl e \<Rightarrow> []
      | Inr templates \<Rightarrow>
          map (\<lambda>t. objectKey (tm_meta t))
            (filter (\<lambda>t. case ownerRefOfKind (om_ownerRefs (tm_meta t)) clusterKind of
                 None \<Rightarrow> False
               | Some ref \<Rightarrow> ref_name ref = om_name (cl_meta cluster)
                   \<and> (ref_uid ref = [] \<or> ref_uid ref = om_uid (cl_meta cluster))) templates))"

section \<open>Comparing capacities\<close>

lemma capacityLoop_iff:
  "capacityLoop L a b \<longleftrightarrow> (\<forall>(name, want)\<in>set b. \<exists>got. map_of a name = Some got \<and> quantityCmp L got want = 0)"
  by (induction L a b rule: capacityLoop.induct) (auto split: option.splits)

lemma capacityEqual_iff:
  assumes "distinct (map fst a)" "distinct (map fst b)"
  shows "capacityEqual L a b \<longleftrightarrow> fst ` set a = fst ` set b
     \<and> (\<forall>name got want. map_of a name = Some got \<longrightarrow> map_of b name = Some want \<longrightarrow> quantityCmp L got want = 0)"
    (is "_ \<longleftrightarrow> ?same \<and> ?values")
proof
  have len: "length x = card (fst ` set x)" if "distinct (map fst x)" for x :: "(string \<times> quantity) list"
    using that distinct_card [of "map fst x"] by simp
  assume "capacityEqual L a b"
  then have l: "length a = length b" and c: "capacityLoop L a b" by (auto simp: capacityEqual_def split: if_splits)
  have "fst ` set b \<subseteq> fst ` set a"
  proof
    fix name assume "name \<in> fst ` set b"
    then obtain want where "(name, want) \<in> set b" by auto
    from bspec [OF c [unfolded capacityLoop_iff] this] obtain got where "map_of a name = Some got" by auto
    then show "name \<in> fst ` set a" using map_of_SomeD by force
  qed
  then have "fst ` set b = fst ` set a"
    using l len [OF assms(1)] len [OF assms(2)] by (intro card_subset_eq) simp_all
  moreover have "quantityCmp L got want = 0" if "map_of a name = Some got" "map_of b name = Some want" for name got want
    using bspec [OF c [unfolded capacityLoop_iff] map_of_SomeD [OF that(2)]] that(1) by simp
  ultimately show "?same \<and> ?values" by blast
next
  have len: "length x = card (fst ` set x)" if "distinct (map fst x)" for x :: "(string \<times> quantity) list"
    using that distinct_card [of "map fst x"] by simp
  assume s: "?same \<and> ?values"
  have "\<exists>got. map_of a name = Some got \<and> quantityCmp L got want = 0" if "(name, want) \<in> set b" for name want
  proof -
    have "map_of b name = Some want" using that assms(2) by simp
    moreover have "name \<in> fst ` set b" using imageI [OF that, of fst] by simp
    then have "name \<in> fst ` set a" by (simp only: conjunct1 [OF s])
    then obtain got where "map_of a name = Some got" by (metis domD dom_map_of_conv_image_fst)
    ultimately show ?thesis using s by blast
  qed
  then show "capacityEqual L a b"
    using s len [OF assms(1)] len [OF assms(2)] by (auto simp: capacityEqual_def capacityLoop_iff)
qed

lemma capacityFor_distinct [simp]: "distinct (map fst (capacityFor L t))"
  by (simp add: capacityFor_def)

section \<open>The store of templates\<close>

text \<open>
  What the reconciler relies on of the API server: a read gives the stored template, and a status
  patch made from the stored template stores what was sent and leaves the Clusters alone.
\<close>

locale template_store = apimachinery "tr_lib r"
  for r :: "'k HydraMachineTemplateReconciler" +
  fixes tmpl :: "'k \<Rightarrow> NamespacedName \<Rightarrow> HydraMachineTemplate option"
  assumes get_template: "getTemplate (tr_client r) key k = Inr t \<longleftrightarrow> tmpl k key = Some t"
    and template_key: "tmpl k key = Some t \<Longrightarrow> objectKey (tm_meta t) = key"
    and patch_template: "patchTemplateStatus (tr_client r) base t k = (Inr t', k')
      \<Longrightarrow> tmpl k (objectKey (tm_meta base)) = Some base \<Longrightarrow> tm_meta t = tm_meta base
      \<Longrightarrow> t' = t \<and> tmpl k' = (tmpl k)(objectKey (tm_meta base) \<mapsto> t)"
    and patch_clusters: "patchTemplateStatus (tr_client r) base t k = (res, k')
      \<Longrightarrow> getCluster (tr_client r) key k' = getCluster (tr_client r) key k"
begin

text \<open>A template whose pause condition says what it should.\<close>

definition pauseShown :: "HydraMachineTemplate \<Rightarrow> string \<Rightarrow> bool" where
  "pauseShown t reason \<longleftrightarrow>
    (case findStatusCondition (tr_lib r) (tm_conditions t) PausedCondition of
       None \<Rightarrow> reason = []
     | Some e \<Rightarrow> c_status e = c_status (pausedCondition PausedCondition reason (om_generation (tm_meta t)))
         \<and> c_message e = c_message (pausedCondition PausedCondition reason (om_generation (tm_meta t))))"

lemma pauseShown_inert: "pauseShown t reason \<Longrightarrow> setTemplatePaused r t reason k = (None, t, k)"
  by (auto simp: pauseShown_def setTemplatePaused_def setPausedCondition_def Let_def split: option.splits)

lemma setTemplatePaused_writes:
  assumes "\<not> pauseShown t reason" "setTemplatePaused r t reason k = (None, t', k')"
  shows "patchTemplateStatus (tr_client r) t (t\<lparr>tm_conditions := setStatusCondition (tr_lib r) (tm_conditions t)
      (pausedCondition PausedCondition reason (om_generation (tm_meta t)))\<rparr>) k = (Inr t', k')"
  using assms
  by (auto simp: pauseShown_def setTemplatePaused_def setPausedCondition_def Let_def
      split: option.splits prod.splits sum.splits if_splits)

lemma setTemplatePaused_ok:
  assumes "setTemplatePaused r t reason k = (None, t', k')" "tmpl k key = Some t"
  shows "tmpl k' key = Some t' \<and> t' = t\<lparr>tm_conditions := tm_conditions t'\<rparr> \<and> pauseShown t' reason
    \<and> (\<forall>x. getCluster (tr_client r) x k' = getCluster (tr_client r) x k)"
proof -
  let ?cond = "pausedCondition PausedCondition reason (om_generation (tm_meta t))"
  let ?t = "t\<lparr>tm_conditions := setStatusCondition (tr_lib r) (tm_conditions t) ?cond\<rparr>"
  have key: "objectKey (tm_meta t) = key" using template_key [OF assms(2)] .
  show ?thesis
  proof (cases "pauseShown t reason")
    case True
    with pauseShown_inert [OF True, of k] assms show ?thesis by simp
  next
    case False
    note wrote = setTemplatePaused_writes [OF False assms(1)]
    from patch_template [OF wrote] assms(2) key have p: "t' = ?t" "tmpl k' = (tmpl k)(key \<mapsto> ?t)" by simp_all
    have "pauseShown ?t reason" by (simp add: pauseShown_def find_set)
    with p patch_clusters [OF wrote] show ?thesis by simp
  qed
qed

lemma ownerClusterOf_cong:
  assumes "\<forall>x. getCluster c x k' = getCluster c x k"
  shows "ownerClusterOf c meta k' = ownerClusterOf c meta k"
proof -
  have "(\<lambda>x. getCluster c x k') = (\<lambda>x. getCluster c x k)" using assms by blast
  then show ?thesis by (simp add: ownerClusterOf_def fun_eq_iff split: option.split)
qed

lemma capacityEqual_refl: "capacityEqual (tr_lib r) (capacityFor (tr_lib r) t) (capacityFor (tr_lib r) t)"
  by (auto simp: capacityEqual_iff quantityCmp_refl)

text \<open>What publishing leaves: a template that asks for no further write.\<close>

definition published :: "HydraMachineTemplate \<Rightarrow> bool" where
  "published t \<longleftrightarrow> capacityEqual (tr_lib r) (tm_capacity t) (capacityFor (tr_lib r) t)
     \<and> tm_nodeInfo t = \<lparr>ni_architecture = np_architecture (tr_platform r),
                       ni_operatingSystem = np_operatingSystem (tr_platform r)\<rparr>"

lemma publishCapacity_published: "published t \<Longrightarrow> publishCapacity r t k = (None, k)"
  by (simp add: published_def publishCapacity_def)

lemma publishCapacity_ok:
  assumes "publishCapacity r t k = (None, k')" "tmpl k key = Some t"
  shows "\<exists>t'. tmpl k' key = Some t' \<and> published t' \<and> tm_meta t' = tm_meta t \<and> tm_conditions t' = tm_conditions t
    \<and> (\<forall>x. getCluster (tr_client r) x k' = getCluster (tr_client r) x k)"
proof (cases "published t")
  case True
  with assms publishCapacity_published show ?thesis by auto
next
  case False
  let ?t = "t\<lparr>tm_capacity := capacityFor (tr_lib r) t, tm_nodeInfo := \<lparr>ni_architecture = np_architecture (tr_platform r),
      ni_operatingSystem = np_operatingSystem (tr_platform r)\<rparr>\<rparr>"
  from False assms(1) obtain t' where p: "patchTemplateStatus (tr_client r) t ?t k = (Inr t', k')"
    by (auto simp: published_def publishCapacity_def Let_def split: if_splits prod.splits sum.splits)
  have "capacityFor (tr_lib r) ?t = capacityFor (tr_lib r) t" by (simp add: capacityFor_def)
  then have "published ?t" using capacityEqual_refl by (simp add: published_def)
  with patch_template [OF p] patch_clusters [OF p] template_key [OF assms(2)] assms(2) show ?thesis by auto
qed

lemma pauseShown_conditions:
  "tm_meta t' = tm_meta t \<Longrightarrow> tm_conditions t' = tm_conditions t \<Longrightarrow> pauseShown t reason \<Longrightarrow> pauseShown t' reason"
  by (auto simp: pauseShown_def split: option.splits)

lemma ReconcileTemplate_settles:
  assumes "ReconcileTemplate r req k = (None, k')"
  shows "ReconcileTemplate r req k' = (None, k')"
proof (cases "tmpl k req")
  case None
  then have "\<forall>t. getTemplate (tr_client r) req k \<noteq> Inr t" by (simp add: get_template)
  with assms show ?thesis by (cases "getTemplate (tr_client r) req k") (auto simp: ReconcileTemplate_def)
next
  case (Some t)
  then have g: "getTemplate (tr_client r) req k = Inr t" by (simp add: get_template)
  show ?thesis
  proof (cases "om_deleting (tm_meta t)")
    case True
    with g assms show ?thesis by (simp add: ReconcileTemplate_def)
  next
    case live: False
    with g assms obtain cluster where c: "ownerClusterOf (tr_client r) (tm_meta t) k = Inr cluster"
      by (cases "ownerClusterOf (tr_client r) (tm_meta t) k") (auto simp: ReconcileTemplate_def)
    let ?why = "pausedReason (om_annotations (tm_meta t)) cluster"
    obtain e t1 k1 where sp: "setTemplatePaused r t ?why k = (e, t1, k1)" by (metis prod_cases3)
    with g live c assms have e: "e = None"
      by (cases "?why = []") (auto simp: ReconcileTemplate_def Let_def split: option.splits)
    note p = setTemplatePaused_ok [OF sp [unfolded e] Some]
    have run: "ReconcileTemplate r req k = (if ?why \<noteq> [] then (None, k1) else publishCapacity r t1 k1)"
      using g live c sp e by (auto simp: ReconcileTemplate_def Let_def)
    have again: "ReconcileTemplate r req x = (if ?why \<noteq> [] then (None, x) else publishCapacity r t2 x)"
      if "tmpl x req = Some t2" "pauseShown t2 ?why" "tm_meta t2 = tm_meta t"
        "\<forall>y. getCluster (tr_client r) y x = getCluster (tr_client r) y k" for x t2
      using that live c ownerClusterOf_cong [OF that(4), of "tm_meta t"] pauseShown_inert [OF that(2), of x]
      by (auto simp: ReconcileTemplate_def get_template [THEN iffD2, OF that(1)] Let_def)
    have m1: "tm_meta t1 = tm_meta t" using p by (metis HydraMachineTemplate.ext_inject HydraMachineTemplate.surjective HydraMachineTemplate.update_convs(7))
    show ?thesis
    proof (cases "?why = []")
      case False
      with run assms again [of k1 t1] p m1 show ?thesis by simp
    next
      case True
      with run assms have pub: "publishCapacity r t1 k1 = (None, k')" by simp
      from publishCapacity_ok [OF this] p obtain t2 where t2: "tmpl k' req = Some t2" "published t2"
        "tm_meta t2 = tm_meta t1" "tm_conditions t2 = tm_conditions t1"
        "\<forall>x. getCluster (tr_client r) x k' = getCluster (tr_client r) x k1" by blast
      have "pauseShown t2 ?why" using pauseShown_conditions [OF t2(3,4)] p by blast
      with again [of k' t2] t2 m1 p True publishCapacity_published [OF t2(2), of k'] show ?thesis by simp
    qed
  qed
qed

end

end
