(* ===== verification/Template_Props.thy ===== *)
theory Template_Props
  imports Template_Controller Ref_World
begin

text \<open>
  The template reconciler publishes once and then is quiet, and compares capacities by value; with a
  store of templates it runs against.
\<close>

section \<open>A store\<close>

definition refTemplates :: "(NamespacedName \<rightharpoonup> HydraMachineTemplate) kube" where
  "refTemplates = \<lparr>
     getHydraMachine = (\<lambda>_ _. Inl notFound), getMachine = (\<lambda>_ _. Inl notFound), getCluster = (\<lambda>_ _. Inl notFound),
     getHydraCluster = (\<lambda>_ _. Inl notFound),
     getTemplate = (\<lambda>key k. case k key of None \<Rightarrow> Inl notFound
        | Some t \<Rightarrow> if objectKey (tm_meta t) = key then Inr t else Inl notFound),
     getSecret = (\<lambda>_ _. Inl notFound), listHydraMachines = (\<lambda>_ _ _ _. Inr []), listTemplates = (\<lambda>_ _. Inr []),
     patchHydraMachine = (\<lambda>_ _ m k. (Inr m, k)), patchHydraMachineStatus = (\<lambda>_ m k. (Inr m, k)),
     patchHydraCluster = (\<lambda>_ _ c k. (Inr c, k)), patchHydraClusterStatus = (\<lambda>_ _ c k. (Inr c, k)),
     patchTemplateStatus = (\<lambda>_ t k. (Inr t, k(objectKey (tm_meta t) \<mapsto> t)))\<rparr>"

definition refTemplateReconciler :: "(NamespacedName \<rightharpoonup> HydraMachineTemplate) HydraMachineTemplateReconciler" where
  "refTemplateReconciler = \<lparr>tr_lib = refLib, tr_client = refTemplates,
     tr_platform = \<lparr>np_architecture = ''amd64'', np_operatingSystem = ''linux''\<rparr>\<rparr>"

definition keptTemplate :: "(NamespacedName \<rightharpoonup> HydraMachineTemplate) \<Rightarrow> NamespacedName \<Rightarrow> HydraMachineTemplate option" where
  "keptTemplate k key = (case k key of None \<Rightarrow> None
     | Some t \<Rightarrow> if objectKey (tm_meta t) = key then Some t else None)"

lemma keptTemplate_patch: "keptTemplate (k(objectKey (tm_meta t) \<mapsto> t)) = (keptTemplate k)(objectKey (tm_meta t) \<mapsto> t)"
proof
  fix key
  show "keptTemplate (k(objectKey (tm_meta t) \<mapsto> t)) key = ((keptTemplate k)(objectKey (tm_meta t) \<mapsto> t)) key"
    by (cases "key = objectKey (tm_meta t)") (simp_all add: keptTemplate_def)
qed

interpretation rt: template_store refTemplateReconciler keptTemplate
proof (intro_locales)
  show "apimachinery (tr_lib refTemplateReconciler)"
    using refl.apimachinery_axioms by (simp add: refTemplateReconciler_def)
  show "template_store_axioms refTemplateReconciler keptTemplate"
  proof (unfold_locales, unfold refTemplateReconciler_def refTemplates_def, goal_cases)
    case 1 show ?case by (simp add: keptTemplate_def split: option.splits)
  next
    case 2 then show ?case by (auto simp: keptTemplate_def split: option.splits if_splits)
  next
    case (3 base t k t' k')
    then show ?case using keptTemplate_patch [of k t] by auto
  next
    case 4 show ?case by simp
  qed
qed

definition exampleTemplate :: HydraMachineTemplate where
  "exampleTemplate = \<lparr>tm_meta = \<lparr>om_name = ''t'', om_namespace = ''ns'', om_uid = ''u3'', om_generation = 1,
       om_annotations = Map.empty, om_labels = Map.empty, om_ownerRefs = [], om_finalizers = [], om_deleting = False\<rparr>,
     tm_vcpus = 2, tm_memory = ''4Gi'', tm_diskSize = ''20Gi'', tm_capacity = [],
     tm_nodeInfo = \<lparr>ni_architecture = [], ni_operatingSystem = []\<rparr>, tm_conditions = []\<rparr>"

lemma example_published:
  "fst (ReconcileTemplate refTemplateReconciler (''ns'', ''t'') [(''ns'', ''t'') \<mapsto> exampleTemplate]) = None"
  by (simp add: ReconcileTemplate_def refTemplateReconciler_def refTemplates_def exampleTemplate_def objectKey_def
      ownerClusterOf_def pausedReason_def setTemplatePaused_def setPausedCondition_def publishCapacity_def
      capacityFor_def capacityEqual_def refLib_def Let_def)

section \<open>Properties\<close>

text \<open>
  C23: the template reconciler does not feed itself. It watches the objects whose status it writes;
  a reconcile that succeeded leaves a store in which the reconcile its own write triggers succeeds
  without writing, whether the template is paused, gone, being deleted or published.
\<close>

theorem template_writes_once:
  assumes "template_store r tmpl" "ReconcileTemplate r req k = (None, k')"
  shows "ReconcileTemplate r req k' = (None, k')"
  using template_store.ReconcileTemplate_settles [OF assms] .

theorem template_writes_once_witness:
  "ReconcileTemplate refTemplateReconciler (''ns'', ''t'')
      (snd (ReconcileTemplate refTemplateReconciler (''ns'', ''t'') [(''ns'', ''t'') \<mapsto> exampleTemplate]))
   = (None, snd (ReconcileTemplate refTemplateReconciler (''ns'', ''t'') [(''ns'', ''t'') \<mapsto> exampleTemplate]))"
  by (rule template_writes_once [OF rt.template_store_axioms, where k = "[(''ns'', ''t'') \<mapsto> exampleTemplate]"])
    (simp add: example_published prod_eq_iff)

text \<open>
  Capacities are compared as maps of quantities: equal exactly when they have the same resource
  names and each quantity compares equal, whatever its notation and whatever the order of iteration.
\<close>

theorem capacityEqual_exact:
  assumes "distinct (map fst a)" "distinct (map fst b)"
  shows "capacityEqual L a b \<longleftrightarrow>
     (\<forall>name. rel_option (\<lambda>got want. quantityCmp L got want = 0) (map_of a name) (map_of b name))"
    (is "?lhs \<longleftrightarrow> ?rhs")
proof
  assume ?lhs
  then have d: "dom (map_of a) = dom (map_of b)"
    and v: "map_of a name = Some got \<Longrightarrow> map_of b name = Some want \<Longrightarrow> quantityCmp L got want = 0" for name got want
    using capacityEqual_iff [OF assms, of L] unfolding dom_map_of_conv_image_fst by blast+
  show ?rhs
  proof
    fix name
    have "map_of a name = None \<longleftrightarrow> map_of b name = None" using d by (metis domIff)
    then show "rel_option (\<lambda>got want. quantityCmp L got want = 0) (map_of a name) (map_of b name)"
      using v [of name] by (cases "map_of a name"; cases "map_of b name") simp_all
  qed
next
  assume r: ?rhs
  have "map_of a name = None \<longleftrightarrow> map_of b name = None" for name
    using r [THEN spec, of name] by (cases "map_of a name"; cases "map_of b name") simp_all
  then have "dom (map_of a) = dom (map_of b)" by (auto simp: dom_def)
  moreover have "quantityCmp L got want = 0" if "map_of a name = Some got" "map_of b name = Some want" for name got want
    using r [THEN spec, of name] that by simp
  ultimately show ?lhs using capacityEqual_iff [OF assms, of L] unfolding dom_map_of_conv_image_fst by blast
qed

theorem capacityEqual_exact_witness:
  "capacityEqual refLib [(''cpu'', ''2''), (''memory'', ''4Gi'')] [(''memory'', ''4Gi''), (''cpu'', ''2'')]"
proof -
  have "rel_option (\<lambda>got want. quantityCmp refLib got want = 0)
      (map_of [(''cpu'', ''2''), (''memory'', ''4Gi'')] name) (map_of [(''memory'', ''4Gi''), (''cpu'', ''2'')] name)" for name
    by (cases "name = ''cpu''"; cases "name = ''memory''") (simp_all add: refLib_def)
  then show ?thesis by (subst capacityEqual_exact) simp_all
qed

end
