(* ===== verification/Conn_Pool.thy ===== *)
theory Conn_Pool
  imports Provider_Api
begin

text \<open>
  \<^verbatim>\<open>internal/providers/pool.go\<close>: the pool of backend connections. Its methods run
  concurrently, so a call of \<^verbatim>\<open>Get\<close> is a little program of its own: each stretch the source
  runs under \<^verbatim>\<open>p.mu\<close> is one definition, and the step relation at the end interleaves those
  stretches, the waits between them, the releases and the background closes of any number of calls.

  Entries and \<^verbatim>\<open>ownerGets\<close> are shared through pointers, so they live in heaps, lists indexed by
  address. A connection is a value of type \<open>'c\<close>; the function that closes it is the connection
  itself, or none when the opener returned no such function. The counter of the
  \<^verbatim>\<open>sync.WaitGroup\<close> and the gauge of open connections are integers; what is being closed in the
  background, what was opened after the pool closed, and what has been opened and closed so far are
  kept in lists. The maps a new pool has not made yet are empty. The hooks for tests are left out.
\<close>

section \<open>State\<close>

definition maxHypervisorLabels :: nat where "maxHypervisorLabels = 16"
definition OtherHypervisor :: string where "OtherHypervisor = ''other''"

definition noOwner :: Owner where
  "noOwner = \<lparr>own_kind = [], own_namespace = [], own_name = []\<rparr>"

record 'c poolEntry =
  pe_name :: string
  pe_label :: string
  pe_open :: bool
  pe_prov :: "'c option"
  pe_release :: "'c option"
  pe_owners :: "Owner list"
  pe_pinned :: bool
  pe_pending :: int

record ownerGets =
  og_inFlight :: int
  og_releases :: int

record 'c Pool =
  pl_conns :: "(string \<times> nat) list"
  pl_owners :: "Owner \<rightharpoonup> string"
  pl_labels :: "(string \<times> int) list"
  pl_closed :: bool
  pl_getting :: "Owner \<rightharpoonup> nat"
  pl_closes :: int
  pl_labelLimit :: nat
  pl_entries :: "'c poolEntry list"
  pl_gets :: "ownerGets list"
  pl_gauge :: int
  pl_closing :: "'c list"
  pl_stray :: "'c list"
  pl_opened :: "'c list"
  pl_done :: "'c list"

definition newPool :: "nat \<Rightarrow> 'c Pool" where
  "newPool lim = \<lparr>pl_conns = [], pl_owners = Map.empty, pl_labels = [], pl_closed = False,
     pl_getting = Map.empty, pl_closes = 0, pl_labelLimit = lim, pl_entries = [], pl_gets = [],
     pl_gauge = 0, pl_closing = [], pl_stray = [], pl_opened = [], pl_done = []\<rparr>"

abbreviation entry :: "'c Pool \<Rightarrow> nat \<Rightarrow> 'c poolEntry" where
  "entry p a \<equiv> pl_entries p ! a"

definition setEntry :: "nat \<Rightarrow> 'c poolEntry \<Rightarrow> 'c Pool \<Rightarrow> 'c Pool" where
  "setEntry a e p = p\<lparr>pl_entries := (pl_entries p)[a := e]\<rparr>"

section \<open>Labels\<close>

definition labelCount :: "(string \<times> int) list \<Rightarrow> string \<Rightarrow> int" where
  "labelCount ls l = (case map_of ls l of None \<Rightarrow> 0 | Some n \<Rightarrow> n)"

fun setLabel :: "string \<Rightarrow> int \<Rightarrow> (string \<times> int) list \<Rightarrow> (string \<times> int) list" where
  "setLabel l n [] = [(l, n)]"
| "setLabel l n ((k, m) # ls) = (if k = l then (l, n) # ls else (k, m) # setLabel l n ls)"

definition dropLabel :: "string \<Rightarrow> (string \<times> int) list \<Rightarrow> (string \<times> int) list" where
  "dropLabel l ls = filter (\<lambda>x. fst x \<noteq> l) ls"

definition limit :: "'c Pool \<Rightarrow> nat" where
  "limit p = (if pl_labelLimit p > 0 then pl_labelLimit p else maxHypervisorLabels)"

definition namedLabelsLocked :: "'c Pool \<Rightarrow> int" where
  "namedLabelsLocked p = (let n = int (length (pl_labels p)) in
     if labelCount (pl_labels p) OtherHypervisor > 0 then n - 1 else n)"

definition acquireLabelLocked :: "string \<Rightarrow> 'c Pool \<Rightarrow> string \<times> 'c Pool" where
  "acquireLabelLocked name p =
     (let label = (if labelCount (pl_labels p) name = 0 \<and> namedLabelsLocked p \<ge> int (limit p)
                   then OtherHypervisor else name)
      in (label, p\<lparr>pl_labels := setLabel label (labelCount (pl_labels p) label + 1) (pl_labels p)\<rparr>))"

section \<open>Entries\<close>

definition idleLocked :: "'c poolEntry \<Rightarrow> bool" where
  "idleLocked e \<longleftrightarrow> pe_owners e = [] \<and> \<not> pe_pinned e \<and> pe_pending e = 0"

text \<open>
  \<^verbatim>\<open>removeLocked\<close> and the \<^verbatim>\<open>closeInBackground\<close> every caller passes its result to: the
  connection, if it has one that can be closed, is being closed from here on.
\<close>

definition removeLocked :: "string \<Rightarrow> nat \<Rightarrow> 'c Pool \<Rightarrow> 'c Pool" where
  "removeLocked key a p =
     (let e = entry p a;
          n = labelCount (pl_labels p) (pe_label e) - 1;
          ls = (if n \<le> 0 then dropLabel (pe_label e) (pl_labels p) else setLabel (pe_label e) n (pl_labels p));
          p1 = p\<lparr>pl_conns := filter (\<lambda>x. fst x \<noteq> key) (pl_conns p),
                 pl_closes := (if pe_release e \<noteq> None then pl_closes p + 1 else pl_closes p),
                 pl_gauge := (if pe_prov e \<noteq> None then pl_gauge p - 1 else pl_gauge p),
                 pl_labels := ls,
                 pl_closing := (case pe_release e of None \<Rightarrow> pl_closing p | Some c \<Rightarrow> c # pl_closing p)\<rparr>
      in setEntry a (e\<lparr>pe_prov := None, pe_release := None\<rparr>) p1)"

definition unbindLocked :: "Owner \<Rightarrow> string \<Rightarrow> 'c Pool \<Rightarrow> 'c Pool" where
  "unbindLocked owner key p =
     (case map_of (pl_conns p) key of
        None \<Rightarrow> p
      | Some a \<Rightarrow>
          let e = (entry p a)\<lparr>pe_owners := removeAll owner (pe_owners (entry p a))\<rparr>;
              p1 = setEntry a e p
          in if \<not> idleLocked e then p1 else removeLocked key a p1)"

definition bindLocked :: "Owner \<Rightarrow> string \<Rightarrow> nat \<Rightarrow> 'c Pool \<Rightarrow> 'c Pool" where
  "bindLocked owner key a p =
     (let e = entry p a; bound = setEntry a (e\<lparr>pe_owners := List.insert owner (pe_owners e)\<rparr>) p in
      if owner = noOwner then setEntry a (e\<lparr>pe_pinned := True\<rparr>) p
      else case pl_owners p owner of
          None \<Rightarrow> bound\<lparr>pl_owners := (pl_owners p)(owner \<mapsto> key)\<rparr>
        | Some previous \<Rightarrow>
            if previous = key then bound
            else unbindLocked owner previous (bound\<lparr>pl_owners := (pl_owners p)(owner \<mapsto> key)\<rparr>))"

section \<open>Calls of Get\<close>

text \<open>
  Where a call is: queued for the entry's \<^verbatim>\<open>open\<close> channel, holding it, dialling, back from
  \<^verbatim>\<open>ensureOpen\<close> with its result, or finished.
\<close>

datatype 'c phase = Queued | Holding | Dialling | Returned "goerr + 'c" | Finished "goerr + 'c"

record 'c getCall =
  gc_owner :: Owner
  gc_key :: string
  gc_entry :: nat
  gc_gets :: "nat option"
  gc_before :: int
  gc_phase :: "'c phase"

definition startGetLocked :: "Owner \<Rightarrow> 'c Pool \<Rightarrow> (nat option \<times> int) \<times> 'c Pool" where
  "startGetLocked owner p =
     (if owner = noOwner then ((None, 0), p)
      else
        let (g, p1) = (case pl_getting p owner of
              Some g \<Rightarrow> (g, p)
            | None \<Rightarrow> (length (pl_gets p),
                 p\<lparr>pl_gets := pl_gets p @ [\<lparr>og_inFlight = 0, og_releases = 0\<rparr>],
                   pl_getting := (pl_getting p)(owner \<mapsto> length (pl_gets p))\<rparr>));
            og = pl_gets p1 ! g
        in ((Some g, og_releases og), p1\<lparr>pl_gets := (pl_gets p1)[g := og\<lparr>og_inFlight := og_inFlight og + 1\<rparr>]\<rparr>))"

definition endGetLocked :: "Owner \<Rightarrow> nat option \<Rightarrow> int \<Rightarrow> 'c Pool \<Rightarrow> bool \<times> 'c Pool" where
  "endGetLocked owner gets before p =
     (case gets of
        None \<Rightarrow> (False, p)
      | Some g \<Rightarrow>
          let og = (pl_gets p ! g)\<lparr>og_inFlight := og_inFlight (pl_gets p ! g) - 1\<rparr>;
              p1 = p\<lparr>pl_gets := (pl_gets p)[g := og]\<rparr>
          in (og_releases og \<noteq> before,
              if og_inFlight og = 0 \<and> pl_getting p owner = Some g
              then p1\<lparr>pl_getting := (pl_getting p1)(owner := None)\<rparr> else p1))"

text \<open>The first stretch of \<^verbatim>\<open>get\<close>, up to its first unlock: the entry is reserved.\<close>

definition reserveGet :: "Owner \<Rightarrow> string \<Rightarrow> string \<Rightarrow> 'c Pool \<Rightarrow> (goerr + 'c getCall) \<times> 'c Pool" where
  "reserveGet owner key name p =
     (if pl_closed p then (Inl (Sentinel ErrPoolClosed), p)
      else
        let (a, p1) = (case map_of (pl_conns p) key of
              Some a \<Rightarrow> (a, p)
            | None \<Rightarrow> let (label, p0) = acquireLabelLocked name p; a = length (pl_entries p0) in
                (a, p0\<lparr>pl_entries := pl_entries p0 @ [\<lparr>pe_name = name, pe_label = label, pe_open = False,
                       pe_prov = None, pe_release = None, pe_owners = [], pe_pinned = False, pe_pending = 0\<rparr>],
                     pl_conns := (key, a) # pl_conns p0\<rparr>));
            p2 = setEntry a ((entry p1 a)\<lparr>pe_pending := pe_pending (entry p1 a) + 1\<rparr>) p1;
            ((gets, before), p3) = startGetLocked owner p2
        in (Inr \<lparr>gc_owner = owner, gc_key = key, gc_entry = a, gc_gets = gets, gc_before = before,
                 gc_phase = Queued\<rparr>, p3))"

definition Get :: "Owner \<Rightarrow> string \<Rightarrow> string \<Rightarrow> 'c Pool \<Rightarrow> (goerr + 'c getCall) \<times> 'c Pool" where
  "Get owner key name p =
     (if own_kind owner = [] \<or> own_name owner = [] then (Inl (Sentinel ErrNoOwner), p)
      else reserveGet owner key name p)"

definition GetPinned :: "string \<Rightarrow> string \<Rightarrow> 'c Pool \<Rightarrow> (goerr + 'c getCall) \<times> 'c Pool" where
  "GetPinned key name p = reserveGet noOwner key name p"

text \<open>\<^verbatim>\<open>ensureOpen\<close> with the channel in hand: what the first look under the lock decides.\<close>

definition lookOpen :: "'c getCall \<Rightarrow> 'c Pool \<Rightarrow> 'c getCall \<times> 'c Pool" where
  "lookOpen c p =
     (let e = entry p (gc_entry c); p1 = setEntry (gc_entry c) (e\<lparr>pe_open := False\<rparr>) p in
      if pl_closed p then (c\<lparr>gc_phase := Returned (Inl (Sentinel ErrPoolClosed))\<rparr>, p1)
      else case pe_prov e of
          Some prov \<Rightarrow> (c\<lparr>gc_phase := Returned (Inr prov)\<rparr>, p1)
        | None \<Rightarrow> (c\<lparr>gc_phase := Dialling\<rparr>, p))"

text \<open>What the dial returned: an error, or a connection and whether it can be closed.\<close>

definition openedConn :: "'c getCall \<Rightarrow> goerr + ('c \<times> bool) \<Rightarrow> 'c Pool \<Rightarrow> 'c getCall \<times> 'c Pool" where
  "openedConn c res p =
     (let e = (entry p (gc_entry c))\<lparr>pe_open := False\<rparr> in
      case res of
        Inl err \<Rightarrow> (c\<lparr>gc_phase := Returned (Inl err)\<rparr>, setEntry (gc_entry c) e p)
      | Inr (prov, closable) \<Rightarrow>
          let release = (if closable then Some prov else None);
              p1 = p\<lparr>pl_opened := (if closable then prov # pl_opened p else pl_opened p)\<rparr>
          in if pl_closed p
             then (c\<lparr>gc_phase := Returned (Inl (Sentinel ErrPoolClosed))\<rparr>,
                   setEntry (gc_entry c) e (p1\<lparr>pl_stray := (if closable then prov # pl_stray p else pl_stray p)\<rparr>))
             else (c\<lparr>gc_phase := Returned (Inr prov)\<rparr>,
                   setEntry (gc_entry c) (e\<lparr>pe_prov := Some prov, pe_release := release\<rparr>)
                     (p1\<lparr>pl_gauge := pl_gauge p + 1\<rparr>)))"

text \<open>The last stretch of \<^verbatim>\<open>get\<close>.\<close>

definition bindGet :: "'c getCall \<Rightarrow> goerr + 'c \<Rightarrow> 'c Pool \<Rightarrow> 'c getCall \<times> 'c Pool" where
  "bindGet c res p =
     (let a = gc_entry c;
          p1 = setEntry a ((entry p a)\<lparr>pe_pending := pe_pending (entry p a) - 1\<rparr>) p;
          (overtaken, p2) = endGetLocked (gc_owner c) (gc_gets c) (gc_before c) p1
      in if pl_closed p2 then (c\<lparr>gc_phase := Finished (Inl (Sentinel ErrPoolClosed))\<rparr>, p2)
         else if overtaken
         then (c\<lparr>gc_phase := Finished (Inl (Sentinel ErrOwnerReleased))\<rparr>,
               if idleLocked (entry p2 a) then removeLocked (gc_key c) a p2 else p2)
         else (c\<lparr>gc_phase := Finished res\<rparr>, bindLocked (gc_owner c) (gc_key c) a p2))"

section \<open>Release and CloseAll\<close>

definition Release :: "Owner \<Rightarrow> 'c Pool \<Rightarrow> 'c Pool" where
  "Release owner p =
     (let p1 = (case pl_getting p owner of
            None \<Rightarrow> p
          | Some g \<Rightarrow> p\<lparr>pl_gets := (pl_gets p)[g := (pl_gets p ! g)\<lparr>og_releases := og_releases (pl_gets p ! g) + 1\<rparr>]\<rparr>)
      in case pl_owners p1 owner of
           None \<Rightarrow> p1
         | Some key \<Rightarrow> unbindLocked owner key (p1\<lparr>pl_owners := (pl_owners p1)(owner := None)\<rparr>))"

text \<open>The loop of \<^verbatim>\<open>CloseAll\<close> over the entries there were, and its first stretch.\<close>

fun removeAllLocked :: "(string \<times> nat) list \<Rightarrow> 'c Pool \<Rightarrow> 'c Pool" where
  "removeAllLocked [] p = p"
| "removeAllLocked ((key, a) # cs) p = removeAllLocked cs (removeLocked key a p)"

definition CloseAll :: "'c Pool \<Rightarrow> 'c Pool" where
  "CloseAll p = (removeAllLocked (pl_conns p) (p\<lparr>pl_closed := True\<rparr>))\<lparr>pl_owners := Map.empty\<rparr>"

text \<open>\<^verbatim>\<open>closes.Wait\<close> lets \<^verbatim>\<open>CloseAll\<close> return.\<close>

definition closeAllReturns :: "'c Pool \<Rightarrow> bool" where
  "closeAllReturns p \<longleftrightarrow> pl_closed p \<and> pl_closes p = 0"

section \<open>Interleaving\<close>

record 'c poolSystem =
  sy_pool :: "'c Pool"
  sy_calls :: "'c getCall list"

definition newSystem :: "nat \<Rightarrow> 'c poolSystem" where
  "newSystem lim = \<lparr>sy_pool = newPool lim, sy_calls = []\<rparr>"

abbreviation updCall :: "nat \<Rightarrow> 'c getCall \<times> 'c Pool \<Rightarrow> 'c poolSystem \<Rightarrow> 'c poolSystem" where
  "updCall i cp s \<equiv> \<lparr>sy_pool = snd cp, sy_calls = (sy_calls s)[i := fst cp]\<rparr>"

text \<open>
  The steps of the calls: a new call reserves its entry; a queued one gives up when its context
  ends, or takes the channel when it is free; then it looks, dials, and binds. A connection that is
  dialled is a new one.
\<close>

inductive call_step :: "'c poolSystem \<Rightarrow> 'c poolSystem \<Rightarrow> bool" where
  give_up: "i < length (sy_calls s) \<Longrightarrow> gc_phase (sy_calls s ! i) = Queued \<Longrightarrow>
    e \<in> {Sentinel ContextCanceled, Sentinel ContextDeadlineExceeded} \<Longrightarrow>
    call_step s (updCall i ((sy_calls s ! i)\<lparr>gc_phase := Returned (Inl e)\<rparr>, sy_pool s) s)"
| take_turn: "i < length (sy_calls s) \<Longrightarrow> gc_phase (sy_calls s ! i) = Queued \<Longrightarrow>
    a = gc_entry (sy_calls s ! i) \<Longrightarrow> \<not> pe_open (entry (sy_pool s) a) \<Longrightarrow>
    call_step s (updCall i ((sy_calls s ! i)\<lparr>gc_phase := Holding\<rparr>,
      setEntry a ((entry (sy_pool s) a)\<lparr>pe_open := True\<rparr>) (sy_pool s)) s)"
| look: "i < length (sy_calls s) \<Longrightarrow> gc_phase (sy_calls s ! i) = Holding \<Longrightarrow>
    call_step s (updCall i (lookOpen (sy_calls s ! i) (sy_pool s)) s)"
| dial: "i < length (sy_calls s) \<Longrightarrow> gc_phase (sy_calls s ! i) = Dialling \<Longrightarrow>
    (\<And>c closable. res = Inr (c, closable) \<Longrightarrow> c \<notin> set (pl_opened (sy_pool s))) \<Longrightarrow>
    call_step s (updCall i (openedConn (sy_calls s ! i) res (sy_pool s)) s)"
| bind: "i < length (sy_calls s) \<Longrightarrow> gc_phase (sy_calls s ! i) = Returned res \<Longrightarrow>
    call_step s (updCall i (bindGet (sy_calls s ! i) res (sy_pool s)) s)"

text \<open>What arrives from outside, and the closes that finish in the background.\<close>

inductive pool_step :: "'c poolSystem \<Rightarrow> 'c poolSystem \<Rightarrow> bool" where
  call: "call_step s s' \<Longrightarrow> pool_step s s'"
| start_get: "Get owner key name (sy_pool s) = (Inr c, p) \<Longrightarrow>
    pool_step s \<lparr>sy_pool = p, sy_calls = sy_calls s @ [c]\<rparr>"
| start_pinned: "GetPinned key name (sy_pool s) = (Inr c, p) \<Longrightarrow>
    pool_step s \<lparr>sy_pool = p, sy_calls = sy_calls s @ [c]\<rparr>"
| release: "pool_step s (s\<lparr>sy_pool := Release owner (sy_pool s)\<rparr>)"
| close_all: "pool_step s (s\<lparr>sy_pool := CloseAll (sy_pool s)\<rparr>)"
| close_done: "c \<in> set (pl_closing (sy_pool s)) \<Longrightarrow>
    pool_step s (s\<lparr>sy_pool := (sy_pool s)\<lparr>pl_closing := remove1 c (pl_closing (sy_pool s)),
      pl_closes := pl_closes (sy_pool s) - 1, pl_done := c # pl_done (sy_pool s)\<rparr>\<rparr>)"
| stray_done: "c \<in> set (pl_stray (sy_pool s)) \<Longrightarrow>
    pool_step s (s\<lparr>sy_pool := (sy_pool s)\<lparr>pl_stray := remove1 c (pl_stray (sy_pool s)),
      pl_done := c # pl_done (sy_pool s)\<rparr>\<rparr>)"

end
