(* ===== verification/Pool_Inv.thy ===== *)
theory Pool_Inv
  imports Conn_Pool "HOL-Library.Multiset"
begin

text \<open>
  The invariant of the connection pool, over every interleaving of its calls. Sums over the entries
  of the pool (users of a label, open connections, connections to close) are one definition, with a
  lemma for each way an entry changes.
\<close>

section \<open>Sums over the entries\<close>

definition tally :: "('e \<Rightarrow> 'm :: comm_monoid_add) \<Rightarrow> 'e list \<Rightarrow> (string \<times> nat) list \<Rightarrow> 'm" where
  "tally f es cs = (\<Sum>x\<leftarrow>cs. f (es ! snd x))"

lemma tally_simps [simp]: "tally f es [] = 0" "tally f es (x # cs) = f (es ! snd x) + tally f es cs"
  by (simp_all add: tally_def)

lemma tally_cong: "(\<And>x. x \<in> set cs \<Longrightarrow> f (es ! snd x) = f (es' ! snd x)) \<Longrightarrow> tally f es cs = tally f es' cs"
  unfolding tally_def by (intro arg_cong [where f = sum_list] map_cong) simp_all

lemma tally_out: "a \<notin> snd ` set cs \<Longrightarrow> tally f (es[a := e]) cs = tally f es cs"
  by (rule tally_cong) (metis imageI nth_list_update_neq)

lemma tally_update:
  "distinct (map snd cs) \<Longrightarrow> (k, a) \<in> set cs \<Longrightarrow> a < length es \<Longrightarrow>
   tally f (es[a := e]) cs + f (es ! a) = tally f es cs + f e"
proof (induction cs)
  case (Cons x cs)
  show ?case
  proof (cases "x = (k, a)")
    case True
    with Cons.prems have "tally f (es[a := e]) cs = tally f es cs" by (intro tally_out) auto
    with True Cons.prems(3) show ?thesis by (simp add: add.commute add.left_commute)
  next
    case False
    with Cons.prems have i: "(k, a) \<in> set cs" "distinct (map snd cs)" by auto
    then have "a \<in> snd ` set cs" using imageI [of "(k, a)" "set cs" snd] by simp
    with Cons.prems(1) have "snd x \<noteq> a" by auto
    note i = i this
    from Cons.IH [OF i(2,1) Cons.prems(3)] i(3) show ?thesis by (simp add: add.assoc)
  qed
qed simp

lemma tally_remove:
  "distinct (map fst cs) \<Longrightarrow> (k, a) \<in> set cs \<Longrightarrow>
   tally f es (filter (\<lambda>x. fst x \<noteq> k) cs) + f (es ! a) = tally f es cs"
proof (induction cs)
  case (Cons x cs)
  show ?case
  proof (cases "x = (k, a)")
    case True
    with Cons.prems have "k \<notin> fst ` set cs" by simp
    then have "filter (\<lambda>x. fst x \<noteq> k) cs = cs" by (intro filter_True) (metis imageI)
    with True show ?thesis by (simp add: add.commute)
  next
    case False
    with Cons.prems have i: "(k, a) \<in> set cs" "distinct (map fst cs)" by auto
    then have "k \<in> fst ` set cs" using imageI [of "(k, a)" "set cs" fst] by simp
    with Cons.prems(1) have "fst x \<noteq> k" by auto
    note i = i this
    from Cons.IH [OF i(2,1)] i(3) show ?thesis by (simp add: add.assoc)
  qed
qed simp

lemma tally_append: "\<forall>x\<in>set cs. snd x < length es \<Longrightarrow> tally f (es @ [e]) cs = tally f es cs"
  by (rule tally_cong) (auto simp: nth_append)

lemma tally_same:
  assumes "a < length es \<Longrightarrow> f e = f (es ! a)"
  shows "tally f (es[a := e]) cs = tally f es cs"
proof (rule tally_cong)
  fix x show "f (es[a := e] ! snd x) = f (es ! snd x)"
    using assms by (cases "snd x = a"; cases "a < length es") (simp_all add: list_update_beyond)
qed

lemma nth_update_field: "f e = f (es ! a) \<Longrightarrow> f (es[a := e] ! b) = f (es ! b)"
  by (cases "a < length es"; cases "b = a") (simp_all add: list_update_beyond)

lemma nth_update_all: "\<forall>b<length es. P (es ! b) \<Longrightarrow> P e \<Longrightarrow> \<forall>b<length es. P (es[a := e] ! b)"
  by (metis nth_list_update_eq nth_list_update_neq)

text \<open>How many calls there are of a kind.\<close>

definition cnt :: "('a \<Rightarrow> bool) \<Rightarrow> 'a list \<Rightarrow> int" where
  "cnt P xs = int (length (filter P xs))"

lemma cnt_nonneg [simp]: "0 \<le> cnt P xs"
  by (simp add: cnt_def)

lemma cnt_simps [simp]: "cnt P [] = 0" "cnt P (xs @ [x]) = cnt P xs + of_bool (P x)"
  by (simp_all add: cnt_def)

lemma cnt_update:
  "i < length xs \<Longrightarrow> cnt P (xs[i := y]) = cnt P xs - of_bool (P (xs ! i)) + of_bool (P y)"
proof (induction xs arbitrary: i)
  case (Cons x xs)
  then show ?case by (cases i) (auto simp: cnt_def)
qed simp

lemma cnt_zero_iff: "cnt P xs = 0 \<longleftrightarrow> (\<forall>x\<in>set xs. \<not> P x)"
  by (simp add: cnt_def filter_empty_conv)

lemma cnt_pos: "x \<in> set xs \<Longrightarrow> P x \<Longrightarrow> 0 < cnt P xs"
  using cnt_zero_iff [of P xs] cnt_nonneg [of P xs] by (smt (verit))

lemma cnt_one_unique:
  assumes "cnt P xs = 1" "i < length xs" "j < length xs" "P (xs ! i)" "P (xs ! j)"
  shows "i = j"
proof (rule ccontr)
  assume "i \<noteq> j"
  have l: "{i, j} \<subseteq> {k. k < length xs \<and> P (xs ! k)}" using assms by simp
  have "card {i, j} = 2" using \<open>i \<noteq> j\<close> by simp
  moreover have "card {i, j} \<le> card {k. k < length xs \<and> P (xs ! k)}" by (rule card_mono [OF _ l]) simp
  moreover have "card {k. k < length xs \<and> P (xs ! k)} = length (filter P xs)" by (simp add: length_filter_conv_card)
  ultimately show False using assms(1) by (simp add: cnt_def)
qed

section \<open>The pool by itself\<close>

text \<open>
  The table of entries: one entry per target and one target per entry, none once the pool is closed.
\<close>

definition tableOK :: "'c Pool \<Rightarrow> bool" where
  "tableOK p \<longleftrightarrow> distinct (map fst (pl_conns p)) \<and> distinct (map snd (pl_conns p))
     \<and> (\<forall>x\<in>set (pl_conns p). snd x < length (pl_entries p))
     \<and> (pl_closed p \<longrightarrow> pl_conns p = [] \<and> pl_owners p = Map.empty)"

text \<open>An owner is bound to a target when it is in the owners of the target's entry.\<close>

definition boundTo :: "'c Pool \<Rightarrow> Owner \<Rightarrow> string \<Rightarrow> bool" where
  "boundTo p o' key \<longleftrightarrow> (\<exists>a. (key, a) \<in> set (pl_conns p) \<and> o' \<in> set (pe_owners (entry p a)))"

definition ownersOK :: "'c Pool \<Rightarrow> bool" where
  "ownersOK p \<longleftrightarrow> (\<forall>o' key. pl_owners p o' = Some key \<longleftrightarrow> boundTo p o' key) \<and> pl_owners p noOwner = None"

definition wantedOK :: "'c Pool \<Rightarrow> bool" where
  "wantedOK p \<longleftrightarrow> (\<forall>x\<in>set (pl_conns p). \<not> idleLocked (entry p (snd x)))"

text \<open>Each label counts the entries that use it, and the named ones stay within the limit.\<close>

definition labelUsers :: "'c Pool \<Rightarrow> string \<Rightarrow> int" where
  "labelUsers p l = tally (\<lambda>e. of_bool (pe_label e = l)) (pl_entries p) (pl_conns p)"

definition labelsOK :: "'c Pool \<Rightarrow> bool" where
  "labelsOK p \<longleftrightarrow> distinct (map fst (pl_labels p)) \<and> (\<forall>x\<in>set (pl_labels p). 0 < snd x)
     \<and> (\<forall>l. labelCount (pl_labels p) l = labelUsers p l) \<and> namedLabelsLocked p \<le> int (limit p)"

text \<open>
  Every connection that was opened and can be closed is in the pool, or being closed, or closed,
  and nowhere twice.
\<close>

definition heldConns :: "'c Pool \<Rightarrow> 'c multiset" where
  "heldConns p = tally (\<lambda>e. case pe_release e of None \<Rightarrow> {#} | Some c \<Rightarrow> {#c#}) (pl_entries p) (pl_conns p)"

definition connsOK :: "'c Pool \<Rightarrow> bool" where
  "connsOK p \<longleftrightarrow> mset (pl_opened p) = heldConns p + mset (pl_closing p) + mset (pl_stray p) + mset (pl_done p)
     \<and> distinct (pl_opened p) \<and> pl_closes p = int (length (pl_closing p))
     \<and> pl_gauge p = tally (\<lambda>e. of_bool (pe_prov e \<noteq> None)) (pl_entries p) (pl_conns p)
     \<and> (\<forall>a<length (pl_entries p). pe_release (entry p a) \<in> {None, pe_prov (entry p a)})"

lemmas poolOK_defs = tableOK_def ownersOK_def wantedOK_def labelsOK_def connsOK_def

subsection \<open>Labels\<close>

lemma labelCount_set: "labelCount (setLabel l n ls) k = (if k = l then n else labelCount ls k)"
  by (induction ls) (auto simp: labelCount_def)

lemma labelCount_drop: "labelCount (dropLabel l ls) k = (if k = l then 0 else labelCount ls k)"
  by (induction ls) (auto simp: labelCount_def dropLabel_def)

lemma setLabel_keys: "fst ` set (setLabel l n ls) = insert l (fst ` set ls)"
proof (induction ls)
  case (Cons x ls)
  then show ?case by (cases x) (simp add: insert_commute)
qed simp

lemma setLabel_distinct: "distinct (map fst ls) \<Longrightarrow> distinct (map fst (setLabel l n ls))"
proof (induction ls)
  case (Cons x ls)
  then show ?case by (cases x) (auto simp: setLabel_keys)
qed simp

lemma setLabel_pos: "\<forall>x\<in>set ls. 0 < snd x \<Longrightarrow> 0 < n \<Longrightarrow> \<forall>x\<in>set (setLabel l n ls). 0 < snd x"
proof (induction ls)
  case (Cons x ls)
  then show ?case by (cases x) simp
qed simp

lemma setLabel_length: "length (setLabel l n ls) = (if l \<in> fst ` set ls then length ls else length ls + 1)"
proof (induction ls)
  case (Cons x ls)
  then show ?case by (cases x) simp
qed simp

lemma dropLabel_ok: "distinct (map fst ls) \<Longrightarrow> distinct (map fst (dropLabel l ls))"
  "\<forall>x\<in>set ls. 0 < snd x \<Longrightarrow> \<forall>x\<in>set (dropLabel l ls). 0 < snd x"
  "l \<in> fst ` set ls \<Longrightarrow> distinct (map fst ls) \<Longrightarrow> length (dropLabel l ls) + 1 = length ls"
proof -
  show "distinct (map fst ls) \<Longrightarrow> distinct (map fst (dropLabel l ls))"
    by (simp add: dropLabel_def distinct_map_filter)
  show "\<forall>x\<in>set ls. 0 < snd x \<Longrightarrow> \<forall>x\<in>set (dropLabel l ls). 0 < snd x"
    by (simp add: dropLabel_def)
  show "l \<in> fst ` set ls \<Longrightarrow> distinct (map fst ls) \<Longrightarrow> length (dropLabel l ls) + 1 = length ls"
  proof (induction ls)
    case (Cons x ls)
    show ?case
    proof (cases "fst x = l")
      case True
      with Cons.prems have "l \<notin> fst ` set ls" by simp
      then have "filter (\<lambda>x. fst x \<noteq> l) ls = ls" by (intro filter_True) (metis imageI)
      with True show ?thesis by (simp add: dropLabel_def)
    next
      case False
      with Cons show ?thesis by (simp add: dropLabel_def)
    qed
  qed simp
qed

lemma labelCount_key:
  assumes "\<forall>x\<in>set ls. 0 < snd x"
  shows "l \<in> fst ` set ls \<longleftrightarrow> 0 < labelCount ls l" and "0 \<le> labelCount ls l"
proof -
  show "l \<in> fst ` set ls \<longleftrightarrow> 0 < labelCount ls l"
    using assms by (induction ls) (auto simp: labelCount_def)
  show "0 \<le> labelCount ls l"
    using assms by (induction ls) (auto simp: labelCount_def)
qed

subsection \<open>Changing an entry\<close>

lemma setEntry_simps [simp]:
  "pl_conns (setEntry a e p) = pl_conns p" "pl_owners (setEntry a e p) = pl_owners p"
  "pl_labels (setEntry a e p) = pl_labels p" "pl_closed (setEntry a e p) = pl_closed p"
  "pl_getting (setEntry a e p) = pl_getting p" "pl_closes (setEntry a e p) = pl_closes p"
  "pl_labelLimit (setEntry a e p) = pl_labelLimit p" "pl_gets (setEntry a e p) = pl_gets p"
  "pl_gauge (setEntry a e p) = pl_gauge p" "pl_closing (setEntry a e p) = pl_closing p"
  "pl_stray (setEntry a e p) = pl_stray p" "pl_opened (setEntry a e p) = pl_opened p"
  "pl_done (setEntry a e p) = pl_done p" "pl_entries (setEntry a e p) = (pl_entries p)[a := e]"
  "limit (setEntry a e p) = limit p" "namedLabelsLocked (setEntry a e p) = namedLabelsLocked p"
  "tableOK (setEntry a e p) = tableOK p"
  by (simp_all add: setEntry_def limit_def namedLabelsLocked_def tableOK_def)

lemma labelsOK_same:
  assumes "pl_labels p' = pl_labels p" "pl_labelLimit p' = pl_labelLimit p" "\<And>l. labelUsers p' l = labelUsers p l"
  shows "labelsOK p' = labelsOK p"
proof -
  have "namedLabelsLocked p' = namedLabelsLocked p" "limit p' = limit p"
    using assms(1,2) by (simp_all add: namedLabelsLocked_def limit_def)
  with assms show ?thesis by (simp add: labelsOK_def)
qed

lemma setEntry_labels: "pe_label e = pe_label (entry p a) \<Longrightarrow> labelsOK (setEntry a e p) = labelsOK p"
  by (simp add: labelsOK_def labelUsers_def tally_same)

lemma setEntry_conns:
  assumes "pe_prov e = pe_prov (entry p a)" "pe_release e = pe_release (entry p a)" "connsOK p"
  shows "connsOK (setEntry a e p)"
proof -
  have "\<forall>b<length (pl_entries p). pe_release ((pl_entries p)[a := e] ! b) \<in> {None, pe_prov ((pl_entries p)[a := e] ! b)}"
    using assms unfolding connsOK_def by (simp add: nth_update_field [of pe_release] nth_update_field [of pe_prov])
  with assms show ?thesis by (simp add: connsOK_def heldConns_def tally_same)
qed

lemma setEntry_bound:
  assumes "pe_owners e = pe_owners (entry p a)"
  shows "boundTo (setEntry a e p) = boundTo p"
proof -
  have "pe_owners (entry (setEntry a e p) b) = pe_owners (entry p b)" for b
    unfolding setEntry_simps by (rule nth_update_field [where f = pe_owners, OF assms])
  then show ?thesis by (simp add: boundTo_def fun_eq_iff del: setEntry_simps(14))
qed

lemma table_unique:
  assumes "tableOK p" "(k, a) \<in> set (pl_conns p)" "(k', a') \<in> set (pl_conns p)"
  shows "k = k' \<longleftrightarrow> a = a'"
  using assms by (auto simp: tableOK_def dest: eq_key_imp_eq_value) (metis eq_snd_iff inj_onD distinct_map prod.inject)

lemma table_lookup:
  assumes "tableOK p"
  shows "map_of (pl_conns p) k = Some a \<longleftrightarrow> (k, a) \<in> set (pl_conns p)"
  using assms by (simp add: tableOK_def)

lemma table_addr: "tableOK p \<Longrightarrow> (k, a) \<in> set (pl_conns p) \<Longrightarrow> a < length (pl_entries p)"
  by (auto simp: tableOK_def)

lemma bound_at:
  assumes "tableOK p" "(k, a) \<in> set (pl_conns p)"
  shows "boundTo p q k \<longleftrightarrow> q \<in> set (pe_owners (entry p a))"
proof
  assume "boundTo p q k"
  then obtain b where b: "(k, b) \<in> set (pl_conns p)" "q \<in> set (pe_owners (entry p b))" by (auto simp: boundTo_def)
  with table_unique [OF assms, of k b] show "q \<in> set (pe_owners (entry p a))" by simp
qed (use assms(2) in \<open>auto simp: boundTo_def\<close>)

lemma bound_setEntry_other:
  assumes "tableOK p" "(k, a) \<in> set (pl_conns p)" "k' \<noteq> k"
  shows "boundTo (setEntry a e p) q k' \<longleftrightarrow> boundTo p q k'"
proof -
  have "b \<noteq> a" if "(k', b) \<in> set (pl_conns p)" for b using table_unique [OF assms(1,2) that] assms(3) by auto
  then show ?thesis unfolding boundTo_def setEntry_simps by (metis nth_list_update_neq)
qed

subsection \<open>Removing an entry\<close>

lemma removeLocked_simps [simp]:
  "pl_conns (removeLocked k a p) = filter (\<lambda>x. fst x \<noteq> k) (pl_conns p)"
  "pl_owners (removeLocked k a p) = pl_owners p" "pl_closed (removeLocked k a p) = pl_closed p"
  "pl_getting (removeLocked k a p) = pl_getting p" "pl_gets (removeLocked k a p) = pl_gets p"
  "pl_labelLimit (removeLocked k a p) = pl_labelLimit p" "limit (removeLocked k a p) = limit p"
  "pl_stray (removeLocked k a p) = pl_stray p" "pl_opened (removeLocked k a p) = pl_opened p"
  "pl_done (removeLocked k a p) = pl_done p"
  "pl_entries (removeLocked k a p) = (pl_entries p)[a := (entry p a)\<lparr>pe_prov := None, pe_release := None\<rparr>]"
  by (simp_all add: removeLocked_def Let_def limit_def)

lemma removeLocked_table: "tableOK p \<Longrightarrow> tableOK (removeLocked k a p)"
  by (auto simp: tableOK_def distinct_map_filter)

lemma removeLocked_bound:
  "boundTo (removeLocked k a p) o' k' \<longleftrightarrow> boundTo p o' k' \<and> k' \<noteq> k"
proof -
  have "pe_owners ((pl_entries p)[a := (entry p a)\<lparr>pe_prov := None, pe_release := None\<rparr>] ! b) = pe_owners (entry p b)" for b
    by (cases "a < length (pl_entries p)"; cases "b = a") (simp_all add: list_update_beyond)
  then show ?thesis by (auto simp: boundTo_def)
qed

lemma removeLocked_wanted:
  assumes "\<And>x. x \<in> set (pl_conns p) \<Longrightarrow> fst x \<noteq> k \<Longrightarrow> \<not> idleLocked (entry p (snd x))"
  shows "wantedOK (removeLocked k a p)"
proof -
  have "idleLocked ((pl_entries p)[a := (entry p a)\<lparr>pe_prov := None, pe_release := None\<rparr>] ! b) = idleLocked (entry p b)" for b
    by (cases "a < length (pl_entries p)"; cases "b = a") (simp_all add: list_update_beyond idleLocked_def)
  with assms show ?thesis by (auto simp: wantedOK_def)
qed

lemma removeLocked_conns:
  assumes t: "tableOK p" and i: "(k, a) \<in> set (pl_conns p)" and c: "connsOK p"
  shows "connsOK (removeLocked k a p)"
proof -
  let ?e = "(entry p a)\<lparr>pe_prov := None, pe_release := None\<rparr>"
  let ?cs = "filter (\<lambda>x. fst x \<noteq> k) (pl_conns p)"
  have out: "a \<notin> snd ` set ?cs"
  proof
    assume "a \<in> snd ` set ?cs"
    then obtain k' where "(k', a) \<in> set (pl_conns p)" "k' \<noteq> k" by auto
    with table_unique [OF t i] show False by blast
  qed
  have d: "distinct (map fst (pl_conns p))" using t by (simp add: tableOK_def)
  note tr = tally_out [OF out] tally_remove [OF d i]
  have held: "heldConns (removeLocked k a p) + (case pe_release (entry p a) of None \<Rightarrow> {#} | Some c \<Rightarrow> {#c#}) = heldConns p"
    using tr(2) [of "\<lambda>e. case pe_release e of None \<Rightarrow> {#} | Some c \<Rightarrow> {#c#}"] by (simp add: heldConns_def tr(1))
  have gauge: "tally (\<lambda>e. of_bool (pe_prov e \<noteq> None)) ((pl_entries p)[a := ?e]) ?cs + of_bool (pe_prov (entry p a) \<noteq> None)
      = (tally (\<lambda>e. of_bool (pe_prov e \<noteq> None)) (pl_entries p) (pl_conns p) :: int)"
    unfolding tr(1) by (rule tr(2))
  have rel: "\<forall>b<length (pl_entries p). pe_release ((pl_entries p)[a := ?e] ! b) \<in> {None, pe_prov ((pl_entries p)[a := ?e] ! b)}"
    by (rule nth_update_all [where P = "\<lambda>e. pe_release e \<in> {None, pe_prov e}"]) (use c in \<open>simp_all add: connsOK_def\<close>)
  have proj: "pl_closes (removeLocked k a p) = (if pe_release (entry p a) \<noteq> None then pl_closes p + 1 else pl_closes p)"
    "pl_gauge (removeLocked k a p) = (if pe_prov (entry p a) \<noteq> None then pl_gauge p - 1 else pl_gauge p)"
    "pl_closing (removeLocked k a p) = (case pe_release (entry p a) of None \<Rightarrow> pl_closing p | Some c \<Rightarrow> c # pl_closing p)"
    by (simp_all add: removeLocked_def Let_def)
  show ?thesis
    using c held gauge rel unfolding connsOK_def proj by (auto split: option.splits)
qed

lemma removeLocked_labels:
  assumes t: "tableOK p" and i: "(k, a) \<in> set (pl_conns p)" and l: "labelsOK p"
  shows "labelsOK (removeLocked k a p)"
proof -
  let ?l = "pe_label (entry p a)" and ?ls = "pl_labels p"
  let ?n = "labelCount ?ls ?l - 1"
  have d: "distinct (map fst (pl_conns p))" using t by (simp add: tableOK_def)
  have users: "labelUsers (removeLocked k a p) x = labelUsers p x - of_bool (x = ?l)" for x
    using tally_remove [OF d i, of "\<lambda>e. of_bool (pe_label e = x) :: int" "pl_entries p"]
    by (auto simp: labelUsers_def tally_same)
  have ls: "pl_labels (removeLocked k a p) = (if ?n \<le> 0 then dropLabel ?l ?ls else setLabel ?l ?n ?ls)"
    by (simp add: removeLocked_def Let_def)
  have pos: "\<forall>x\<in>set ?ls. 0 < snd x" and dl: "distinct (map fst ?ls)"
    and cu: "\<And>x. labelCount ?ls x = labelUsers p x" and lim: "namedLabelsLocked p \<le> int (limit p)"
    using l by (simp_all add: labelsOK_def)
  have used: "0 < labelCount ?ls ?l"
  proof -
    have "tally (\<lambda>e. of_bool (pe_label e = ?l)) (pl_entries p) (filter (\<lambda>x. fst x \<noteq> k) (pl_conns p)) \<ge> (0 :: int)"
      unfolding tally_def by (intro sum_list_nonneg) auto
    with users [of ?l] cu [of ?l] show ?thesis by (simp add: labelUsers_def tally_same)
  qed
  then have key: "?l \<in> fst ` set ?ls" using labelCount_key(1) [OF pos] by blast
  have count: "labelCount (pl_labels (removeLocked k a p)) x = labelUsers (removeLocked k a p) x" for x
    using users [of x] cu [of x] cu [of ?l] used unfolding ls by (auto simp: labelCount_set labelCount_drop)
  have len: "int (length (pl_labels (removeLocked k a p))) = int (length ?ls) - of_bool (?n \<le> 0)"
    unfolding ls using dropLabel_ok(3) [OF key dl] key by (auto simp: setLabel_length)
  have "namedLabelsLocked (removeLocked k a p) \<le> namedLabelsLocked p"
  proof (cases "?l = OtherHypervisor")
    case True
    then show ?thesis using len used unfolding namedLabelsLocked_def Let_def
      by (auto simp: ls labelCount_set labelCount_drop)
  next
    case False
    then have "labelCount (pl_labels (removeLocked k a p)) OtherHypervisor = labelCount ?ls OtherHypervisor"
      unfolding ls by (auto simp: labelCount_set labelCount_drop)
    then show ?thesis using len unfolding namedLabelsLocked_def Let_def by (auto simp: of_bool_def split: if_splits)
  qed
  moreover have "distinct (map fst (pl_labels (removeLocked k a p)))" "\<forall>x\<in>set (pl_labels (removeLocked k a p)). 0 < snd x"
    unfolding ls using dl pos dropLabel_ok(1,2) setLabel_distinct setLabel_pos [OF pos, of ?n] by auto
  ultimately show ?thesis using count lim by (simp add: labelsOK_def)
qed

subsection \<open>What the calls rely on\<close>

text \<open>
  A stretch that binds or unbinds leaves the reservations and the channels alone, keeps every entry
  someone has reserved, and closes nothing that stays.
\<close>

definition frame :: "'c Pool \<Rightarrow> 'c Pool \<Rightarrow> bool" where
  "frame p p' \<longleftrightarrow> length (pl_entries p') = length (pl_entries p) \<and> pl_closed p' = pl_closed p
     \<and> pl_getting p' = pl_getting p \<and> pl_gets p' = pl_gets p \<and> pl_labelLimit p' = pl_labelLimit p
     \<and> (\<forall>b. pe_pending (entry p' b) = pe_pending (entry p b) \<and> pe_open (entry p' b) = pe_open (entry p b))
     \<and> set (pl_conns p') \<subseteq> set (pl_conns p)
     \<and> (\<forall>x\<in>set (pl_conns p). pe_pending (entry p (snd x)) \<noteq> 0 \<longrightarrow> x \<in> set (pl_conns p'))
     \<and> (\<forall>x\<in>set (pl_conns p'). pe_prov (entry p' (snd x)) = pe_prov (entry p (snd x)))"

lemma frame_refl [simp]: "frame p p"
  by (simp add: frame_def)

lemma frame_trans: "frame p p1 \<Longrightarrow> frame p1 p2 \<Longrightarrow> frame p p2"
  unfolding frame_def by (metis (no_types, lifting) subset_iff)

lemma frame_setEntry:
  assumes "pe_pending e = pe_pending (entry p a)" "pe_open e = pe_open (entry p a)" "pe_prov e = pe_prov (entry p a)"
  shows "frame p (setEntry a e p)"
  using assms by (simp add: frame_def nth_update_field [where f = pe_pending]
      nth_update_field [where f = pe_open] nth_update_field [where f = pe_prov])

lemma frame_removeLocked:
  assumes "tableOK p" "(k, a) \<in> set (pl_conns p)" "pe_pending (entry p a) = 0"
  shows "frame p (removeLocked k a p)"
proof -
  let ?es = "(pl_entries p)[a := (entry p a)\<lparr>pe_prov := None, pe_release := None\<rparr>]"
  have "fst x \<noteq> k \<or> pe_pending (entry p (snd x)) = 0" if "x \<in> set (pl_conns p)" for x
    using that assms table_unique [OF assms(1,2), of "fst x" "snd x"] by auto
  moreover have "pe_prov (?es ! snd x) = pe_prov (entry p (snd x))" if "x \<in> set (pl_conns p)" "fst x \<noteq> k" for x
    using that table_unique [OF assms(1,2), of "fst x" "snd x"] by auto
  ultimately show ?thesis
    by (auto simp: frame_def nth_update_field [where f = pe_pending] nth_update_field [where f = pe_open])
qed

subsection \<open>Binding and unbinding\<close>

lemma unbindLocked_simps [simp]:
  "pl_owners (unbindLocked o' key p) = pl_owners p" "pl_closed (unbindLocked o' key p) = pl_closed p"
  by (simp_all add: unbindLocked_def Let_def split: option.split)

lemma unbindLocked_ok:
  assumes t: "tableOK p" and l: "labelsOK p" and c: "connsOK p"
    and w: "\<And>x. x \<in> set (pl_conns p) \<Longrightarrow> fst x \<noteq> key \<Longrightarrow> \<not> idleLocked (entry p (snd x))"
  shows "tableOK (unbindLocked o' key p) \<and> labelsOK (unbindLocked o' key p) \<and> connsOK (unbindLocked o' key p)
    \<and> wantedOK (unbindLocked o' key p) \<and> frame p (unbindLocked o' key p)
    \<and> (\<forall>q k. boundTo (unbindLocked o' key p) q k \<longleftrightarrow> boundTo p q k \<and> \<not> (q = o' \<and> k = key))"
proof (cases "map_of (pl_conns p) key")
  case None
  then have n: "\<forall>x\<in>set (pl_conns p). fst x \<noteq> key" by (auto simp: map_of_eq_None_iff)
  then have "\<not> boundTo p q key" for q by (auto simp: boundTo_def)
  with None n t l c w show ?thesis by (auto simp: unbindLocked_def wantedOK_def)
next
  case (Some a)
  then have i: "(key, a) \<in> set (pl_conns p)" using table_lookup [OF t] by simp
  then have a: "a < length (pl_entries p)" using table_addr [OF t] by blast
  define e where "e = (entry p a)\<lparr>pe_owners := removeAll o' (pe_owners (entry p a))\<rparr>"
  define p1 where "p1 = setEntry a e p"
  have f1: "pe_prov e = pe_prov (entry p a)" "pe_release e = pe_release (entry p a)" "pe_label e = pe_label (entry p a)"
    "pe_pending e = pe_pending (entry p a)" "pe_open e = pe_open (entry p a)"
    by (simp_all add: e_def)
  have p1: "tableOK p1" "labelsOK p1" "connsOK p1" "frame p p1" "(key, a) \<in> set (pl_conns p1)" "entry p1 a = e"
    using t l c f1 i a setEntry_labels [of e p a] setEntry_conns [of e p a] frame_setEntry [of e p a]
    by (simp_all add: p1_def)
  have b1: "boundTo p1 q k \<longleftrightarrow> boundTo p q k \<and> \<not> (q = o' \<and> k = key)" for q k
  proof (cases "k = key")
    case True
    show ?thesis unfolding True bound_at [OF p1(1,5)] bound_at [OF t i] p1(6) by (auto simp: e_def)
  next
    case False
    with bound_setEntry_other [OF t i False] show ?thesis by (simp add: p1_def)
  qed
  have w1: "\<not> idleLocked (entry p1 (snd x))" if "x \<in> set (pl_conns p1)" "fst x \<noteq> key" for x
  proof -
    have "snd x \<noteq> a" using that table_unique [OF t i, of "fst x" "snd x"] by (auto simp: p1_def)
    with w [of x] that show ?thesis by (simp add: p1_def)
  qed
  show ?thesis
  proof (cases "idleLocked e")
    case False
    then have u: "unbindLocked o' key p = p1" using Some by (simp add: unbindLocked_def e_def p1_def Let_def)
    have "wantedOK p1"
      unfolding wantedOK_def
    proof
      fix x assume x: "x \<in> set (pl_conns p1)"
      show "\<not> idleLocked (entry p1 (snd x))"
      proof (cases "fst x = key")
        case True
        then have "snd x = a" using x table_unique [OF p1(1,5), of "fst x" "snd x"] by (cases x) simp
        with False p1(6) show ?thesis by simp
      qed (use w1 x in blast)
    qed
    with u p1 b1 show ?thesis by simp
  next
    case True
    then have u: "unbindLocked o' key p = removeLocked key a p1" using Some
      by (simp add: unbindLocked_def e_def p1_def Let_def)
    have "pe_pending (entry p1 a) = 0" "pe_owners (entry p1 a) = []" using True p1(6) by (simp_all add: idleLocked_def)
    note fr = frame_removeLocked [OF p1(1,5) this(1)]
    have "\<not> boundTo p1 q key" for q
      using \<open>pe_owners (entry p1 a) = []\<close> unfolding bound_at [OF p1(1,5)] by simp
    then have "boundTo (removeLocked key a p1) q k \<longleftrightarrow> boundTo p q k \<and> \<not> (q = o' \<and> k = key)" for q k
      using b1 removeLocked_bound [of key a p1 q k] by blast
    with u removeLocked_table [OF p1(1)] removeLocked_labels [OF p1(1,5,2)] removeLocked_conns [OF p1(1,5,3)]
      removeLocked_wanted [of p1 key a, OF w1] frame_trans [OF p1(4) fr]
    show ?thesis by simp
  qed
qed

lemma owners_update [simp]:
  "labelsOK (p\<lparr>pl_owners := m\<rparr>) = labelsOK p" "connsOK (p\<lparr>pl_owners := m\<rparr>) = connsOK p"
  "wantedOK (p\<lparr>pl_owners := m\<rparr>) = wantedOK p" "boundTo (p\<lparr>pl_owners := m\<rparr>) = boundTo p"
  "frame q (p\<lparr>pl_owners := m\<rparr>) = frame q p" "frame (p\<lparr>pl_owners := m\<rparr>) q = frame p q"
  by (simp_all add: labelsOK_def labelUsers_def namedLabelsLocked_def limit_def connsOK_def heldConns_def
      wantedOK_def frame_def boundTo_def fun_eq_iff cong: if_cong)

lemma bindLocked_ok:
  assumes t: "tableOK p" and l: "labelsOK p" and c: "connsOK p" and w: "ownersOK p" "\<not> pl_closed p"
    and i: "(key, a) \<in> set (pl_conns p)"
    and idle: "\<And>x. x \<in> set (pl_conns p) \<Longrightarrow> fst x \<noteq> key \<Longrightarrow> \<not> idleLocked (entry p (snd x))"
    and pend: "0 \<le> pe_pending (entry p a)"
  shows "tableOK (bindLocked o' key a p) \<and> labelsOK (bindLocked o' key a p) \<and> connsOK (bindLocked o' key a p)
    \<and> wantedOK (bindLocked o' key a p) \<and> ownersOK (bindLocked o' key a p) \<and> frame p (bindLocked o' key a p)"
proof -
  have a: "a < length (pl_entries p)" by (rule table_addr [OF t i])
  let ?e = "entry p a"
  define pin where "pin = setEntry a (?e\<lparr>pe_pinned := True\<rparr>) p"
  define bound where "bound = setEntry a (?e\<lparr>pe_owners := List.insert o' (pe_owners ?e)\<rparr>) p"
  have only: "snd x = a" if "x \<in> set (pl_conns p)" "fst x = key" for x
    using that table_unique [OF t i, of "fst x" "snd x"] by (metis prod.collapse)
  have other: "snd x \<noteq> a" if "x \<in> set (pl_conns p)" "fst x \<noteq> key" for x
    using that table_unique [OF t i, of "fst x" "snd x"] by (metis prod.collapse)
  have set: "tableOK (setEntry a e p) \<and> labelsOK (setEntry a e p) \<and> connsOK (setEntry a e p)
      \<and> wantedOK (setEntry a e p) \<and> frame p (setEntry a e p)"
    if "pe_prov e = pe_prov ?e" "pe_release e = pe_release ?e" "pe_label e = pe_label ?e"
      "pe_pending e = pe_pending ?e" "pe_open e = pe_open ?e" "\<not> idleLocked e" for e
  proof -
    have "\<not> idleLocked ((pl_entries p)[a := e] ! snd x)" if "x \<in> set (pl_conns p)" for x
      using that only [of x] other [of x] idle [of x] \<open>\<not> idleLocked e\<close> a
      by (cases "fst x = key") simp_all
    then have "wantedOK (setEntry a e p)" by (simp add: wantedOK_def)
    with that t l c setEntry_labels [of e p a] setEntry_conns [of e p a] frame_setEntry [of e p a] show ?thesis by simp
  qed
  have pinOK: "tableOK pin \<and> labelsOK pin \<and> connsOK pin \<and> wantedOK pin \<and> frame p pin"
    unfolding pin_def by (rule set) (simp_all add: idleLocked_def)
  have boundOK: "tableOK bound \<and> labelsOK bound \<and> connsOK bound \<and> wantedOK bound \<and> frame p bound"
    unfolding bound_def by (rule set) (auto simp: idleLocked_def List.insert_def)
  have bi: "(key, a) \<in> set (pl_conns bound)" using i by (simp add: bound_def)
  have bt: "boundTo bound q k \<longleftrightarrow> boundTo p q k \<or> (q = o' \<and> k = key)" for q k
  proof (cases "k = key")
    case True
    have t': "tableOK bound" using boundOK by blast
    show ?thesis unfolding True bound_at [OF t' bi] bound_at [OF t i] using a by (auto simp: bound_def)
  next
    case False
    with bound_setEntry_other [OF t i False] show ?thesis by (simp add: bound_def)
  qed
  show ?thesis
  proof (cases "o' = noOwner")
    case True
    have "ownersOK pin" using w(1) setEntry_bound [of "?e\<lparr>pe_pinned := True\<rparr>" p a]
      by (simp add: ownersOK_def pin_def)
    with True pinOK show ?thesis by (simp add: bindLocked_def pin_def Let_def)
  next
    case False
    let ?upd = "bound\<lparr>pl_owners := (pl_owners p)(o' \<mapsto> key)\<rparr>"
    have updOK: "tableOK ?upd" "labelsOK ?upd" "connsOK ?upd" "wantedOK ?upd" "frame p ?upd"
      "boundTo ?upd q k \<longleftrightarrow> boundTo bound q k" for q k
      using boundOK w(2) by (simp_all add: tableOK_def bound_def)
    show ?thesis
    proof (cases "pl_owners p o'")
      case None
      then have "\<not> boundTo p o' k" for k using w(1) unfolding ownersOK_def by (metis option.distinct(1))
      then have "ownersOK ?upd" using w(1) bt False by (auto simp: ownersOK_def)
      with None False updOK show ?thesis by (simp add: bindLocked_def bound_def Let_def)
    next
      case (Some previous)
      show ?thesis
      proof (cases "previous = key")
        case True
        then have "ownersOK bound" using w(1) bt Some by (auto simp: ownersOK_def bound_def)
        with True Some False boundOK show ?thesis by (simp add: bindLocked_def bound_def Let_def)
      next
        case ne: False
        have "\<not> idleLocked (entry ?upd (snd x))" if "x \<in> set (pl_conns ?upd)" for x
          using updOK(4) that unfolding wantedOK_def by blast
        note ub = unbindLocked_ok [OF updOK(1-3) this, of previous o']
        have b: "bindLocked o' key a p = unbindLocked o' previous ?upd"
          using Some ne False by (simp add: bindLocked_def bound_def Let_def)
        have prev: "boundTo p o' k \<longleftrightarrow> k = previous" for k
          using w(1) Some unfolding ownersOK_def by (metis option.inject)
        have "pl_owners ?upd q = Some k \<longleftrightarrow> boundTo (unbindLocked o' previous ?upd) q k" for q k
          using ub bt [of q k] w(1) prev [of k] ne unfolding ownersOK_def by (cases "q = o'") auto
        then have "ownersOK (unbindLocked o' previous ?upd)" using w(1) False by (simp add: ownersOK_def)
        with b ub frame_trans [OF updOK(5)] show ?thesis by simp
      qed
    qed
  qed
qed

section \<open>The calls\<close>

definition activeCall :: "'c getCall \<Rightarrow> bool" where
  "activeCall c \<longleftrightarrow> (case gc_phase c of Finished _ \<Rightarrow> False | _ \<Rightarrow> True)"

definition holding :: "'c getCall \<Rightarrow> bool" where
  "holding c \<longleftrightarrow> (case gc_phase c of Holding \<Rightarrow> True | Dialling \<Rightarrow> True | _ \<Rightarrow> False)"

text \<open>
  A call that is not finished has reserved its entry, and its target stays in the pool until the
  pool closes; the channel of an entry is taken exactly while one call holds it; and nobody dials a
  target that has a connection.
\<close>

definition callsOK :: "'c Pool \<Rightarrow> 'c getCall list \<Rightarrow> bool" where
  "callsOK p cs \<longleftrightarrow>
     (\<forall>c\<in>set cs. gc_entry c < length (pl_entries p)
        \<and> (activeCall c \<and> \<not> pl_closed p \<longrightarrow> (gc_key c, gc_entry c) \<in> set (pl_conns p))
        \<and> (gc_phase c = Dialling \<and> \<not> pl_closed p \<longrightarrow> pe_prov (entry p (gc_entry c)) = None))
   \<and> (\<forall>a<length (pl_entries p).
        pe_pending (entry p a) = cnt (\<lambda>c. activeCall c \<and> gc_entry c = a) cs
        \<and> cnt (\<lambda>c. holding c \<and> gc_entry c = a) cs = of_bool (pe_open (entry p a)))"

text \<open>
  The count of an owner's calls in flight is right, and every one of them shares it; it goes when the
  last of them ends.
\<close>

definition gettingOK :: "'c Pool \<Rightarrow> 'c getCall list \<Rightarrow> bool" where
  "gettingOK p cs \<longleftrightarrow>
     (\<forall>o' g. pl_getting p o' = Some g \<longrightarrow> g < length (pl_gets p) \<and> o' \<noteq> noOwner
        \<and> og_inFlight (pl_gets p ! g) = cnt (\<lambda>c. activeCall c \<and> gc_owner c = o') cs
        \<and> 0 < og_inFlight (pl_gets p ! g)
        \<and> (\<forall>o2. pl_getting p o2 = Some g \<longrightarrow> o2 = o'))
   \<and> (\<forall>c\<in>set cs. activeCall c \<longrightarrow>
        (if gc_owner c = noOwner then gc_gets c = None
         else \<exists>g. gc_gets c = Some g \<and> pl_getting p (gc_owner c) = Some g \<and> gc_before c \<le> og_releases (pl_gets p ! g)))"

definition poolOK :: "'c Pool \<Rightarrow> bool" where
  "poolOK p \<longleftrightarrow> tableOK p \<and> ownersOK p \<and> wantedOK p \<and> labelsOK p \<and> connsOK p"

definition systemOK :: "'c poolSystem \<Rightarrow> bool" where
  "systemOK s \<longleftrightarrow> poolOK (sy_pool s) \<and> callsOK (sy_pool s) (sy_calls s) \<and> gettingOK (sy_pool s) (sy_calls s)"

lemma gettingD:
  assumes "gettingOK p cs" "pl_getting p q = Some m"
  shows "m < length (pl_gets p)" "q \<noteq> noOwner"
    "og_inFlight (pl_gets p ! m) = cnt (\<lambda>c. activeCall c \<and> gc_owner c = q) cs"
    "0 < og_inFlight (pl_gets p ! m)" "\<And>o2. pl_getting p o2 = Some m \<Longrightarrow> o2 = q"
  using assms unfolding gettingOK_def by blast+

lemma gettingCallD:
  assumes "gettingOK p cs" "c \<in> set cs" "activeCall c"
  shows "if gc_owner c = noOwner then gc_gets c = None
     else \<exists>g. gc_gets c = Some g \<and> pl_getting p (gc_owner c) = Some g \<and> gc_before c \<le> og_releases (pl_gets p ! g)"
  using assms unfolding gettingOK_def by blast

lemma active_pending:
  assumes "callsOK p cs" "c \<in> set cs" "activeCall c"
  shows "0 < pe_pending (entry p (gc_entry c))"
proof -
  have "0 < cnt (\<lambda>d. activeCall d \<and> gc_entry d = gc_entry c) cs" using assms(2,3) by (intro cnt_pos) simp_all
  with assms(1,2) show ?thesis by (simp add: callsOK_def)
qed

lemma pending_nonneg: "callsOK p cs \<Longrightarrow> a < length (pl_entries p) \<Longrightarrow> 0 \<le> pe_pending (entry p a)"
  by (simp add: callsOK_def)

lemma frame_calls:
  assumes "frame p p'" "callsOK p cs"
  shows "callsOK p' cs"
proof -
  have f: "length (pl_entries p') = length (pl_entries p)" "pl_closed p' = pl_closed p"
    "\<And>b. pe_pending (entry p' b) = pe_pending (entry p b)" "\<And>b. pe_open (entry p' b) = pe_open (entry p b)"
    using assms(1) by (simp_all add: frame_def)
  have "gc_entry c < length (pl_entries p')
      \<and> (activeCall c \<and> \<not> pl_closed p' \<longrightarrow> (gc_key c, gc_entry c) \<in> set (pl_conns p'))
      \<and> (gc_phase c = Dialling \<and> \<not> pl_closed p' \<longrightarrow> pe_prov (entry p' (gc_entry c)) = None)" if "c \<in> set cs" for c
  proof -
    have 1: "gc_entry c < length (pl_entries p')" using assms(2) that f by (simp add: callsOK_def)
    have 2: "(gc_key c, gc_entry c) \<in> set (pl_conns p')" if a: "activeCall c" "\<not> pl_closed p'"
    proof -
      have "(gc_key c, gc_entry c) \<in> set (pl_conns p)" using assms(2) \<open>c \<in> set cs\<close> a f by (simp add: callsOK_def)
      moreover have "pe_pending (entry p (gc_entry c)) \<noteq> 0" using active_pending [OF assms(2) \<open>c \<in> set cs\<close> a(1)] by simp
      ultimately show ?thesis using assms(1) by (auto simp: frame_def)
    qed
    have 3: "pe_prov (entry p' (gc_entry c)) = None" if a: "gc_phase c = Dialling" "\<not> pl_closed p'"
    proof -
      have "pe_prov (entry p (gc_entry c)) = None" using assms(2) \<open>c \<in> set cs\<close> a f by (simp add: callsOK_def)
      moreover have "(gc_key c, gc_entry c) \<in> set (pl_conns p')" using 2 a by (simp add: activeCall_def)
      ultimately show ?thesis using assms(1) unfolding frame_def by (metis snd_conv)
    qed
    from 1 2 3 show ?thesis by blast
  qed
  with assms(2) f show ?thesis by (simp add: callsOK_def)
qed

lemma frame_getting: "frame p p' \<Longrightarrow> gettingOK p' cs = gettingOK p cs"
  by (simp add: frame_def gettingOK_def)

end
