(* ===== verification/Pool_Steps.thy ===== *)
theory Pool_Steps
  imports Pool_Inv
begin

text \<open>Every step of the pool keeps its invariant, so it holds in every state the pool can reach.\<close>

section \<open>Steps inside a call\<close>

lemma set_update_other: "x \<in> set (xs[i := y]) \<Longrightarrow> x = y \<or> x \<in> set xs"
  using set_update_subset_insert by fastforce

lemma callsOK_phase:
  assumes c: "callsOK p cs" and i: "i < length cs" and ph: "c' = (cs ! i)\<lparr>gc_phase := ph\<rparr>"
    and act: "activeCall (cs ! i)" "activeCall c'"
    and same: "length (pl_entries p') = length (pl_entries p)" "pl_closed p' = pl_closed p" "pl_conns p' = pl_conns p"
      "\<And>b. pe_pending (entry p' b) = pe_pending (entry p b)"
    and op: "\<And>b. b < length (pl_entries p) \<Longrightarrow> (of_bool (pe_open (entry p' b)) :: int) =
        of_bool (pe_open (entry p b)) + (if b = gc_entry (cs ! i) then of_bool (holding c') - of_bool (holding (cs ! i)) else 0)"
    and di: "\<And>d. d \<in> set (cs[i := c']) \<Longrightarrow> gc_phase d = Dialling \<Longrightarrow> \<not> pl_closed p \<Longrightarrow> pe_prov (entry p' (gc_entry d)) = None"
  shows "callsOK p' (cs[i := c'])"
proof -
  have refs: "gc_entry d < length (pl_entries p')
      \<and> (activeCall d \<and> \<not> pl_closed p' \<longrightarrow> (gc_key d, gc_entry d) \<in> set (pl_conns p'))" if "d \<in> set (cs[i := c'])" for d
  proof -
    have r: "gc_entry x < length (pl_entries p') \<and> (activeCall x \<and> \<not> pl_closed p' \<longrightarrow> (gc_key x, gc_entry x) \<in> set (pl_conns p'))"
      if "x \<in> set cs" for x using c that same by (simp add: callsOK_def)
    have "gc_entry c' = gc_entry (cs ! i)" "gc_key c' = gc_key (cs ! i)" using ph by simp_all
    with r [OF nth_mem [OF i]] act r set_update_other [OF that] show ?thesis by auto
  qed
  have "cnt (\<lambda>c. activeCall c \<and> gc_entry c = a) (cs[i := c']) = cnt (\<lambda>c. activeCall c \<and> gc_entry c = a) cs" for a
    using cnt_update [OF i] act ph by simp
  moreover have "cnt (\<lambda>c. holding c \<and> gc_entry c = a) (cs[i := c']) = of_bool (pe_open (entry p' a))" if "a < length (pl_entries p)" for a
    using cnt_update [OF i, of "\<lambda>c. holding c \<and> gc_entry c = a" c'] op [OF that] c that ph
    by (auto simp: callsOK_def)
  ultimately show ?thesis
    using refs di c same by (simp add: callsOK_def)
qed

lemma gettingOK_phase:
  assumes "gettingOK p cs" "i < length cs" "c' = (cs ! i)\<lparr>gc_phase := ph\<rparr>" "activeCall (cs ! i)" "activeCall c'"
    and "pl_getting p' = pl_getting p" "pl_gets p' = pl_gets p"
  shows "gettingOK p' (cs[i := c'])"
proof -
  have n: "cnt (\<lambda>c. activeCall c \<and> gc_owner c = q) (cs[i := c']) = cnt (\<lambda>c. activeCall c \<and> gc_owner c = q) cs" for q
    using cnt_update [OF assms(2)] assms(3-5) by simp
  have m: "if gc_owner d = noOwner then gc_gets d = None
      else \<exists>g. gc_gets d = Some g \<and> pl_getting p (gc_owner d) = Some g \<and> gc_before d \<le> og_releases (pl_gets p ! g)"
    if "d \<in> set (cs[i := c'])" "activeCall d" for d
  proof -
    have r: "if gc_owner x = noOwner then gc_gets x = None
      else \<exists>g. gc_gets x = Some g \<and> pl_getting p (gc_owner x) = Some g \<and> gc_before x \<le> og_releases (pl_gets p ! g)"
      if "x \<in> set cs" "activeCall x" for x using assms(1) that by (simp add: gettingOK_def)
    show ?thesis
      using set_update_other [OF that(1)] r [OF nth_mem [OF assms(2)] assms(4)] r [OF _ that(2)] assms(3) by auto
  qed
  show ?thesis
    unfolding gettingOK_def assms(6,7) n using conjunct1 [OF assms(1) [unfolded gettingOK_def]] m by blast
qed

lemma poolOK_open: "poolOK (setEntry a ((entry p a)\<lparr>pe_open := b\<rparr>) p) = poolOK p"
proof -
  let ?e = "(entry p a)\<lparr>pe_open := b\<rparr>"
  have "idleLocked ?e = idleLocked (entry p a)" by (simp add: idleLocked_def)
  note nth_update_field [where f = idleLocked, OF this]
  then have w: "wantedOK (setEntry a ?e p) = wantedOK p" by (simp add: wantedOK_def)
  have restored: "setEntry a ((entry (setEntry a ?e p) a)\<lparr>pe_open := pe_open (entry p a)\<rparr>) (setEntry a ?e p) = p"
    by (cases "a < length (pl_entries p)") (simp_all add: setEntry_def list_update_beyond)
  have c: "connsOK (setEntry a ?e p) = connsOK p"
    using setEntry_conns [of ?e p a]
      setEntry_conns [of "(entry (setEntry a ?e p) a)\<lparr>pe_open := pe_open (entry p a)\<rparr>" "setEntry a ?e p" a] restored by auto
  show ?thesis
    using setEntry_labels [of ?e p a] setEntry_bound [of ?e p a] w c
    by (simp add: poolOK_def ownersOK_def)
qed

lemma holder_open:
  assumes "callsOK p cs" "i < length cs" "holding (cs ! i)"
  shows "pe_open (entry p (gc_entry (cs ! i)))" "gc_entry (cs ! i) < length (pl_entries p)"
    "\<And>j. j < length cs \<Longrightarrow> holding (cs ! j) \<Longrightarrow> gc_entry (cs ! j) = gc_entry (cs ! i) \<Longrightarrow> j = i"
proof -
  let ?a = "gc_entry (cs ! i)" and ?P = "\<lambda>c. holding c \<and> gc_entry c = gc_entry (cs ! i)"
  show a: "?a < length (pl_entries p)" using assms by (simp add: callsOK_def)
  have pos: "0 < cnt ?P cs" using assms(3) nth_mem [OF assms(2)] by (intro cnt_pos) simp_all
  with assms(1) a show "pe_open (entry p ?a)" by (auto simp: callsOK_def)
  have "cnt ?P cs = 1" using assms(1) a pos by (cases "pe_open (entry p ?a)") (auto simp: callsOK_def)
  then show "j = i" if "j < length cs" "holding (cs ! j)" "gc_entry (cs ! j) = ?a" for j
    using cnt_one_unique [of ?P cs j i] that assms(2,3) by simp
qed

lemma setEntry_open:
  "b < length (pl_entries p) \<Longrightarrow> pe_open (entry (setEntry a ((entry p a)\<lparr>pe_open := v\<rparr>) p) b) =
     (if b = a then v else pe_open (entry p b))"
  by simp

lemma give_up_ok:
  assumes "systemOK s" "i < length (sy_calls s)" "gc_phase (sy_calls s ! i) = Queued"
  shows "systemOK (updCall i ((sy_calls s ! i)\<lparr>gc_phase := Returned (Inl e)\<rparr>, sy_pool s) s)"
proof -
  let ?c = "(sy_calls s ! i)\<lparr>gc_phase := Returned (Inl e)\<rparr>"
  have a: "activeCall (sy_calls s ! i)" "activeCall ?c" "\<not> holding (sy_calls s ! i)" "\<not> holding ?c"
    using assms(3) by (simp_all add: activeCall_def holding_def)
  have c: "callsOK (sy_pool s) (sy_calls s)" and g: "gettingOK (sy_pool s) (sy_calls s)"
    using assms(1) by (simp_all add: systemOK_def)
  have "callsOK (sy_pool s) ((sy_calls s)[i := ?c])"
  proof (rule callsOK_phase [OF c assms(2) refl a(1,2)])
    fix d assume "d \<in> set ((sy_calls s)[i := ?c])" "gc_phase d = Dialling" "\<not> pl_closed (sy_pool s)"
    then show "pe_prov (entry (sy_pool s) (gc_entry d)) = None"
      using c set_update_other by (fastforce simp: callsOK_def)
  qed (simp_all add: a)
  with assms(1) gettingOK_phase [OF g assms(2) refl a(1,2) refl refl] show ?thesis by (simp add: systemOK_def)
qed

lemma take_turn_ok:
  assumes "systemOK s" "i < length (sy_calls s)" "gc_phase (sy_calls s ! i) = Queued" "a = gc_entry (sy_calls s ! i)"
    "\<not> pe_open (entry (sy_pool s) a)"
  shows "systemOK (updCall i ((sy_calls s ! i)\<lparr>gc_phase := Holding\<rparr>,
      setEntry a ((entry (sy_pool s) a)\<lparr>pe_open := True\<rparr>) (sy_pool s)) s)"
proof -
  let ?c = "(sy_calls s ! i)\<lparr>gc_phase := Holding\<rparr>"
    and ?p = "setEntry a ((entry (sy_pool s) a)\<lparr>pe_open := True\<rparr>) (sy_pool s)"
  have act: "activeCall (sy_calls s ! i)" "activeCall ?c" "\<not> holding (sy_calls s ! i)" "holding ?c"
    using assms(3) by (simp_all add: activeCall_def holding_def)
  have c: "callsOK (sy_pool s) (sy_calls s)" and g: "gettingOK (sy_pool s) (sy_calls s)" and p: "poolOK (sy_pool s)"
    using assms(1) by (simp_all add: systemOK_def)
  have "callsOK ?p ((sy_calls s)[i := ?c])"
  proof (rule callsOK_phase [OF c assms(2) refl act(1,2)])
    fix d assume "d \<in> set ((sy_calls s)[i := ?c])" "gc_phase d = Dialling" "\<not> pl_closed (sy_pool s)"
    then have "pe_prov (entry (sy_pool s) (gc_entry d)) = None"
      using c set_update_other by (fastforce simp: callsOK_def)
    then show "pe_prov (entry ?p (gc_entry d)) = None"
      by (simp add: nth_update_field [where f = pe_prov])
  next
    fix b assume "b < length (pl_entries (sy_pool s))"
    with assms(4,5) act show "(of_bool (pe_open (entry ?p b)) :: int) = of_bool (pe_open (entry (sy_pool s) b))
        + (if b = gc_entry (sy_calls s ! i) then of_bool (holding ?c) - of_bool (holding (sy_calls s ! i)) else 0)" by simp
  qed (simp_all add: nth_update_field [where f = pe_pending])
  moreover have "gettingOK ?p ((sy_calls s)[i := ?c])"
    by (rule gettingOK_phase [OF g assms(2) refl act(1,2)]) simp_all
  ultimately show ?thesis using p by (simp add: systemOK_def poolOK_open)
qed

text \<open>A holder that gives the channel back, or keeps it to dial, with the entry otherwise as it was.\<close>

lemma holder_moves:
  assumes "systemOK s" "i < length (sy_calls s)" "holding (sy_calls s ! i)"
    and "activeCall ((sy_calls s ! i)\<lparr>gc_phase := ph\<rparr>)" "\<not> holding ((sy_calls s ! i)\<lparr>gc_phase := ph\<rparr>)"
    and a: "a = gc_entry (sy_calls s ! i)"
    and p: "poolOK p" "length (pl_entries p) = length (pl_entries (sy_pool s))" "pl_closed p = pl_closed (sy_pool s)"
      "pl_conns p = pl_conns (sy_pool s)" "pl_getting p = pl_getting (sy_pool s)" "pl_gets p = pl_gets (sy_pool s)"
      "\<And>b. pe_pending (entry p b) = pe_pending (entry (sy_pool s) b)"
      "\<And>b. b < length (pl_entries (sy_pool s)) \<Longrightarrow> pe_open (entry p b) = (if b = a then False else pe_open (entry (sy_pool s) b))"
      "\<And>b. b \<noteq> a \<Longrightarrow> pe_prov (entry p b) = pe_prov (entry (sy_pool s) b)"
  shows "systemOK (updCall i ((sy_calls s ! i)\<lparr>gc_phase := ph\<rparr>, p) s)"
proof -
  let ?c = "(sy_calls s ! i)\<lparr>gc_phase := ph\<rparr>" and ?cs = "sy_calls s"
  have act: "activeCall (?cs ! i)" using assms(3) by (auto simp: activeCall_def holding_def split: phase.splits)
  have c: "callsOK (sy_pool s) ?cs" and g: "gettingOK (sy_pool s) ?cs"
    using assms(1) by (simp_all add: systemOK_def)
  note ho = holder_open [OF c assms(2,3)]
  have "callsOK p (?cs[i := ?c])"
  proof (rule callsOK_phase [OF c assms(2) refl act assms(4) p(2,3,4,7)])
    fix d assume d: "d \<in> set (?cs[i := ?c])" "gc_phase d = Dialling" "\<not> pl_closed (sy_pool s)"
    then obtain j where j: "j < length ?cs" "?cs[i := ?c] ! j = d" by (auto simp: in_set_conv_nth)
    have hd: "holding d" using d(2) by (simp add: holding_def)
    then have ji: "j \<noteq> i" using j assms(2,5) by auto
    then have dj: "?cs ! j = d" using j by simp
    then have "gc_entry d \<noteq> a" using ho(3) [OF j(1)] hd ji a by auto
    moreover have "pe_prov (entry (sy_pool s) (gc_entry d)) = None"
      using c d(2,3) nth_mem [OF j(1)] dj by (auto simp: callsOK_def)
    ultimately show "pe_prov (entry p (gc_entry d)) = None" using p(9) by simp
  next
    fix b assume b: "b < length (pl_entries (sy_pool s))"
    show "(of_bool (pe_open (entry p b)) :: int) = of_bool (pe_open (entry (sy_pool s) b))
        + (if b = gc_entry (?cs ! i) then of_bool (holding ?c) - of_bool (holding (?cs ! i)) else 0)"
      using p(8) [OF b] ho(1) assms(3,5) a by simp
  qed
  moreover have "gettingOK p (?cs[i := ?c])"
    by (rule gettingOK_phase [OF g assms(2) refl act assms(4) p(5,6)])
  ultimately show ?thesis using p(1) by (simp add: systemOK_def)
qed

lemma look_ok:
  assumes "systemOK s" "i < length (sy_calls s)" "gc_phase (sy_calls s ! i) = Holding"
  shows "systemOK (updCall i (lookOpen (sy_calls s ! i) (sy_pool s)) s)"
proof -
  let ?c = "sy_calls s ! i" and ?p = "sy_pool s"
  let ?a = "gc_entry ?c"
  let ?p1 = "setEntry ?a ((entry ?p ?a)\<lparr>pe_open := False\<rparr>) ?p"
  have h: "holding ?c" using assms(3) by (simp add: holding_def)
  have c: "callsOK ?p (sy_calls s)" and g: "gettingOK ?p (sy_calls s)" and p: "poolOK ?p"
    using assms(1) by (simp_all add: systemOK_def)
  note ho = holder_open [OF c assms(2) h]
  have returned: "systemOK (updCall i (?c\<lparr>gc_phase := Returned r\<rparr>, ?p1) s)" for r
    by (rule holder_moves [OF assms(1,2) h, of "Returned r" ?a])
      (simp_all add: activeCall_def holding_def poolOK_open p ho(2) nth_update_field [where f = pe_pending])
  show ?thesis
  proof (cases "pl_closed ?p \<or> pe_prov (entry ?p ?a) \<noteq> None")
    case True
    with returned show ?thesis by (auto simp: lookOpen_def Let_def)
  next
    case False
    let ?d = "?c\<lparr>gc_phase := Dialling\<rparr>"
    have act: "activeCall ?c" "activeCall ?d" "holding ?d" using assms(3) by (simp_all add: activeCall_def holding_def)
    have "callsOK ?p ((sy_calls s)[i := ?d])"
    proof (rule callsOK_phase [OF c assms(2) refl act(1,2)])
      fix d assume "d \<in> set ((sy_calls s)[i := ?d])" "gc_phase d = Dialling" "\<not> pl_closed ?p"
      then show "pe_prov (entry ?p (gc_entry d)) = None"
        using c False set_update_other [of d "sy_calls s" i ?d] by (auto simp: callsOK_def)
    qed (simp_all add: h act(3))
    moreover have "gettingOK ?p ((sy_calls s)[i := ?d])" by (rule gettingOK_phase [OF g assms(2) refl act(1,2)]) simp_all
    ultimately have "systemOK (updCall i (?d, ?p) s)" using p by (simp add: systemOK_def)
    with False show ?thesis by (simp add: lookOpen_def Let_def)
  qed
qed

lemma opened_conn_ok:
  assumes p: "poolOK p" and i: "(k, a) \<in> set (pl_conns p)" and n: "pe_prov (entry p a) = None"
    and e: "pe_label e = pe_label (entry p a)" "pe_owners e = pe_owners (entry p a)" "pe_pinned e = pe_pinned (entry p a)"
      "pe_pending e = pe_pending (entry p a)" "pe_prov e = Some c" "pe_release e = (if closable then Some c else None)"
    and new: "c \<notin> set (pl_opened p)"
  shows "poolOK (setEntry a e (p\<lparr>pl_opened := (if closable then c # pl_opened p else pl_opened p), pl_gauge := pl_gauge p + 1\<rparr>))"
    (is "poolOK (setEntry a e ?q)")
proof -
  have t: "tableOK p" and cn: "connsOK p" using p by (simp_all add: poolOK_def)
  have a: "a < length (pl_entries p)" by (rule table_addr [OF t i])
  have d: "distinct (map snd (pl_conns p))" using t by (simp add: tableOK_def)
  have rel: "pe_release (entry p a) = None" using cn a n by (auto simp: connsOK_def)
  note tu = tally_update [OF d i a, of _ e]
  have held: "heldConns (setEntry a e ?q) = heldConns p + (if closable then {#c#} else {#})"
    using tu [of "\<lambda>e. case pe_release e of None \<Rightarrow> {#} | Some c \<Rightarrow> {#c#}"] rel e(6)
    by (simp add: heldConns_def split: if_splits)
  have gauge: "tally (\<lambda>e. of_bool (pe_prov e \<noteq> None)) ((pl_entries p)[a := e]) (pl_conns p)
      = tally (\<lambda>e. of_bool (pe_prov e \<noteq> None)) (pl_entries p) (pl_conns p) + (1 :: int)"
    using tu [of "\<lambda>e. of_bool (pe_prov e \<noteq> None) :: int"] n e(5) by simp
  have rels: "\<forall>b<length (pl_entries p). pe_release ((pl_entries p)[a := e] ! b) \<in> {None, pe_prov ((pl_entries p)[a := e] ! b)}"
    by (rule nth_update_all [where P = "\<lambda>e. pe_release e \<in> {None, pe_prov e}"]) (use cn e(5,6) in \<open>auto simp: connsOK_def\<close>)
  have "connsOK (setEntry a e ?q)"
    using cn held gauge rels new by (simp add: connsOK_def)
  moreover have "labelsOK (setEntry a e ?q)"
    using p labelsOK_same [of "setEntry a e ?q" p] e(1) by (simp add: poolOK_def labelUsers_def tally_same)
  moreover have "idleLocked e = idleLocked (entry p a)" using e by (simp add: idleLocked_def)
  note nth_update_field [where f = idleLocked, OF this]
  then have "wantedOK (setEntry a e ?q)" using p by (simp add: poolOK_def wantedOK_def)
  moreover have "boundTo (setEntry a e ?q) = boundTo p"
    using setEntry_bound [of e p a] e(2) by (simp add: boundTo_def fun_eq_iff)
  then have "ownersOK (setEntry a e ?q)" using p by (simp add: poolOK_def ownersOK_def)
  moreover have "tableOK (setEntry a e ?q)" using t by (simp add: tableOK_def)
  ultimately show ?thesis by (simp add: poolOK_def)
qed

lemma stray_conn_ok:
  assumes "poolOK p" "c \<notin> set (pl_opened p)"
  shows "poolOK (p\<lparr>pl_opened := (if closable then c # pl_opened p else pl_opened p),
      pl_stray := (if closable then c # pl_stray p else pl_stray p)\<rparr>)" (is "poolOK ?q")
proof -
  have "labelsOK ?q = labelsOK p" by (rule labelsOK_same) (simp_all add: labelUsers_def)
  with assms show ?thesis
    by (simp add: poolOK_def tableOK_def ownersOK_def boundTo_def wantedOK_def connsOK_def heldConns_def)
qed

lemma dial_ok:
  assumes "systemOK s" "i < length (sy_calls s)" "gc_phase (sy_calls s ! i) = Dialling"
    and new: "\<And>c closable. res = Inr (c, closable) \<Longrightarrow> c \<notin> set (pl_opened (sy_pool s))"
  shows "systemOK (updCall i (openedConn (sy_calls s ! i) res (sy_pool s)) s)"
proof -
  let ?c = "sy_calls s ! i" and ?p = "sy_pool s"
  let ?a = "gc_entry ?c"
  let ?e = "(entry ?p ?a)\<lparr>pe_open := False\<rparr>"
  have h: "holding ?c" and act: "activeCall ?c" using assms(3) by (simp_all add: holding_def activeCall_def)
  have c: "callsOK ?p (sy_calls s)" and p: "poolOK ?p" using assms(1) by (simp_all add: systemOK_def)
  note ho = holder_open [OF c assms(2) h]
  note moves = holder_moves [OF assms(1,2) h, of "Returned _" ?a]
  show ?thesis
  proof (cases res)
    case (Inl err)
    have "systemOK (updCall i (?c\<lparr>gc_phase := Returned (Inl err)\<rparr>, setEntry ?a ?e ?p) s)"
      by (rule moves) (simp_all add: activeCall_def holding_def poolOK_open p ho(2) nth_update_field [where f = pe_pending])
    with Inl show ?thesis by (simp add: openedConn_def Let_def)
  next
    case (Inr cc)
    obtain conn closable where cc: "cc = (conn, closable)" by (cases cc)
    have nw: "conn \<notin> set (pl_opened ?p)" using new Inr cc by simp
    show ?thesis
    proof (cases "pl_closed ?p")
      case True
      let ?q = "?p\<lparr>pl_opened := (if closable then conn # pl_opened ?p else pl_opened ?p),
          pl_stray := (if closable then conn # pl_stray ?p else pl_stray ?p)\<rparr>"
      have "poolOK (setEntry ?a ((entry ?q ?a)\<lparr>pe_open := False\<rparr>) ?q)"
        unfolding poolOK_open by (rule stray_conn_ok [OF p nw])
      then have "systemOK (updCall i (?c\<lparr>gc_phase := Returned (Inl (Sentinel ErrPoolClosed))\<rparr>, setEntry ?a ?e ?q) s)"
        by (intro moves) (simp_all add: activeCall_def holding_def ho(2) nth_update_field [where f = pe_pending])
      with True Inr cc show ?thesis by (simp add: openedConn_def Let_def)
    next
      case False
      have k: "(gc_key ?c, ?a) \<in> set (pl_conns ?p)" "pe_prov (entry ?p ?a) = None"
        using c nth_mem [OF assms(2)] False act assms(3) by (auto simp: callsOK_def)
      let ?e2 = "?e\<lparr>pe_prov := Some conn, pe_release := (if closable then Some conn else None)\<rparr>"
      let ?q = "setEntry ?a ?e2 (?p\<lparr>pl_opened := (if closable then conn # pl_opened ?p else pl_opened ?p), pl_gauge := pl_gauge ?p + 1\<rparr>)"
      have "poolOK ?q" by (rule opened_conn_ok [OF p k]) (simp_all add: nw)
      then have "systemOK (updCall i (?c\<lparr>gc_phase := Returned (Inr conn)\<rparr>, ?q) s)"
        by (intro moves) (simp_all add: activeCall_def holding_def ho(2) nth_update_field [where f = pe_pending])
      with False Inr cc show ?thesis by (simp add: openedConn_def Let_def)
    qed
  qed
qed

section \<open>The end of a call\<close>

abbreviation finish :: "nat \<Rightarrow> goerr + 'c \<Rightarrow> 'c getCall list \<Rightarrow> 'c getCall list" where
  "finish i r cs \<equiv> cs[i := (cs ! i)\<lparr>gc_phase := Finished r\<rparr>]"

lemma finish_active:
  assumes "d \<in> set (finish i r cs)" "activeCall d"
  shows "d \<in> set cs"
  using set_update_other [OF assms(1)] assms(2) by (auto simp: activeCall_def)

lemma cnt_finish:
  assumes "i < length cs" "activeCall (cs ! i)"
  shows "cnt (\<lambda>c. activeCall c \<and> Q c) (finish i r cs) = cnt (\<lambda>c. activeCall c \<and> Q c) cs - of_bool (Q (cs ! i))"
  using cnt_update [OF assms(1), of "\<lambda>c. activeCall c \<and> Q c" "(cs ! i)\<lparr>gc_phase := Finished r\<rparr>"] assms(2)
  by (simp add: activeCall_def)

lemma endGetLocked_frame:
  "endGetLocked q gets before p = (ov, p2) \<Longrightarrow> p2 = p\<lparr>pl_gets := pl_gets p2, pl_getting := pl_getting p2\<rparr>"
  by (cases p) (auto simp: endGetLocked_def Let_def split: option.splits if_splits)

lemma endGetLocked_ok:
  assumes g: "gettingOK p cs" and i: "i < length cs" and a: "activeCall (cs ! i)"
    and e: "endGetLocked (gc_owner (cs ! i)) (gc_gets (cs ! i)) (gc_before (cs ! i)) p = (ov, p2)"
  shows "gettingOK p2 (finish i r cs)"
    and "ov \<longleftrightarrow> (\<exists>g. gc_gets (cs ! i) = Some g \<and> og_releases (pl_gets p ! g) \<noteq> gc_before (cs ! i))"
proof -
  let ?c = "cs ! i" and ?cs = "finish i r cs"
  let ?o = "gc_owner ?c"
  show "ov \<longleftrightarrow> (\<exists>g. gc_gets ?c = Some g \<and> og_releases (pl_gets p ! g) \<noteq> gc_before ?c)"
    using e by (auto simp: endGetLocked_def Let_def split: option.splits)
  have mine: "if gc_owner d = noOwner then gc_gets d = None
      else \<exists>g. gc_gets d = Some g \<and> pl_getting p (gc_owner d) = Some g \<and> gc_before d \<le> og_releases (pl_gets p ! g)"
    if "d \<in> set cs" "activeCall d" for d using g that by (simp add: gettingOK_def)
  note c0 = cnt_finish [OF i a, of "\<lambda>c. gc_owner c = _" r]
  show "gettingOK p2 ?cs"
  proof (cases "?o = noOwner")
    case True
    then have "gc_gets ?c = None" using mine [OF nth_mem [OF i] a] by simp
    then have p2: "p2 = p" using e by (simp add: endGetLocked_def)
    have same: "cnt (\<lambda>c. activeCall c \<and> gc_owner c = q) ?cs = cnt (\<lambda>c. activeCall c \<and> gc_owner c = q) cs" if "q \<noteq> noOwner" for q
      using c0 [of q] True that by simp
    have "m < length (pl_gets p) \<and> q \<noteq> noOwner \<and> og_inFlight (pl_gets p ! m) = cnt (\<lambda>c. activeCall c \<and> gc_owner c = q) ?cs
        \<and> 0 < og_inFlight (pl_gets p ! m) \<and> (\<forall>o2. pl_getting p o2 = Some m \<longrightarrow> o2 = q)" if "pl_getting p q = Some m" for q m
      using gettingD [OF g that] same [of q] by auto
    with mine finish_active show ?thesis unfolding p2 gettingOK_def by blast
  next
    case False
    then obtain n where n: "gc_gets ?c = Some n" "pl_getting p ?o = Some n" using mine [OF nth_mem [OF i] a] by auto
    have gp: "n < length (pl_gets p)" "og_inFlight (pl_gets p ! n) = cnt (\<lambda>c. activeCall c \<and> gc_owner c = ?o) cs"
      "\<And>o2. pl_getting p o2 = Some n \<Longrightarrow> o2 = ?o"
      using gettingD [OF g n(2)] by blast+
    let ?og = "(pl_gets p ! n)\<lparr>og_inFlight := og_inFlight (pl_gets p ! n) - 1\<rparr>"
    have left: "og_inFlight ?og = cnt (\<lambda>c. activeCall c \<and> gc_owner c = ?o) ?cs" using c0 [of ?o] gp(2) by simp
    have p2: "pl_gets p2 = (pl_gets p)[n := ?og]"
      "pl_getting p2 = (if og_inFlight ?og = 0 then (pl_getting p)(?o := None) else pl_getting p)"
      using e n by (auto simp: endGetLocked_def Let_def split: if_splits)
    have owners: "m < length (pl_gets p2) \<and> q \<noteq> noOwner \<and> og_inFlight (pl_gets p2 ! m) = cnt (\<lambda>c. activeCall c \<and> gc_owner c = q) ?cs
        \<and> 0 < og_inFlight (pl_gets p2 ! m) \<and> (\<forall>o2. pl_getting p2 o2 = Some m \<longrightarrow> o2 = q)" if q: "pl_getting p2 q = Some m" for q m
    proof -
      have qp: "pl_getting p q = Some m" using q p2(2) by (auto split: if_splits)
      have old: "m < length (pl_gets p)" "q \<noteq> noOwner" "og_inFlight (pl_gets p ! m) = cnt (\<lambda>c. activeCall c \<and> gc_owner c = q) cs"
        "0 < og_inFlight (pl_gets p ! m)" "\<And>o2. pl_getting p o2 = Some m \<Longrightarrow> o2 = q"
        using gettingD [OF g qp] by blast+
      have uniq: "\<forall>o2. pl_getting p2 o2 = Some m \<longrightarrow> o2 = q" using old(5) p2(2) by (auto split: if_splits)
      show ?thesis
      proof (cases "q = ?o")
        case True
        then have "m = n" using qp n(2) by simp
        moreover have "og_inFlight ?og \<noteq> 0" using q True p2(2) by (auto split: if_splits)
        then have "0 < cnt (\<lambda>c. activeCall c \<and> gc_owner c = ?o) ?cs"
          unfolding left using cnt_nonneg [of "\<lambda>c. activeCall c \<and> gc_owner c = ?o" ?cs] by linarith
        moreover have "pl_gets p2 ! n = ?og" using p2(1) gp(1) by simp
        ultimately show ?thesis using True left old(1,2) uniq p2(1) by simp
      next
        case ne: False
        then have "m \<noteq> n" using old(5) n(2) by auto
        with ne old uniq p2(1) c0 [of q] show ?thesis by simp
      qed
    qed
    have calls: "if gc_owner d = noOwner then gc_gets d = None
        else \<exists>g. gc_gets d = Some g \<and> pl_getting p2 (gc_owner d) = Some g \<and> gc_before d \<le> og_releases (pl_gets p2 ! g)"
      if d: "d \<in> set ?cs" "activeCall d" for d
    proof -
      have rels: "og_releases (pl_gets p2 ! m) = og_releases (pl_gets p ! m)" for m
        unfolding p2(1) by (rule nth_update_field [where f = og_releases]) simp
      have keep: "pl_getting p2 (gc_owner d) = pl_getting p (gc_owner d)"
      proof (cases "gc_owner d = ?o")
        case True
        then have "0 < cnt (\<lambda>c. activeCall c \<and> gc_owner c = ?o) ?cs"
          using cnt_pos [OF d(1), of "\<lambda>c. activeCall c \<and> gc_owner c = ?o"] d(2) by simp
        with left show ?thesis using p2(2) by simp
      qed (simp add: p2(2))
      from mine [OF finish_active [OF d] d(2)] show ?thesis unfolding keep rels .
    qed
    from owners calls show ?thesis unfolding gettingOK_def by blast
  qed
qed

lemma pool_setEntry_ok:
  assumes "tableOK p" "labelsOK p" "connsOK p" "ownersOK p"
    and "pe_label e = pe_label (entry p a)" "pe_prov e = pe_prov (entry p a)" "pe_release e = pe_release (entry p a)"
      "pe_owners e = pe_owners (entry p a)"
  shows "tableOK (setEntry a e p) \<and> labelsOK (setEntry a e p) \<and> connsOK (setEntry a e p) \<and> ownersOK (setEntry a e p)"
  using assms setEntry_labels [of e p a] setEntry_conns [of e p a] setEntry_bound [of e p a] by (simp add: ownersOK_def)

lemma gets_update [simp]:
  "tableOK (p\<lparr>pl_gets := x, pl_getting := y\<rparr>) = tableOK p" "labelsOK (p\<lparr>pl_gets := x, pl_getting := y\<rparr>) = labelsOK p"
  "connsOK (p\<lparr>pl_gets := x, pl_getting := y\<rparr>) = connsOK p" "ownersOK (p\<lparr>pl_gets := x, pl_getting := y\<rparr>) = ownersOK p"
  "wantedOK (p\<lparr>pl_gets := x, pl_getting := y\<rparr>) = wantedOK p" "callsOK (p\<lparr>pl_gets := x, pl_getting := y\<rparr>) cs = callsOK p cs"
proof -
  show "labelsOK (p\<lparr>pl_gets := x, pl_getting := y\<rparr>) = labelsOK p"
    by (rule labelsOK_same) (simp_all add: labelUsers_def)
qed (simp_all add: tableOK_def connsOK_def heldConns_def ownersOK_def boundTo_def wantedOK_def callsOK_def)

text \<open>Giving a reservation back, with the call finished.\<close>

lemma unreserve_calls:
  assumes c: "callsOK p cs" and i: "i < length cs" and a: "activeCall (cs ! i)" and h: "\<not> holding (cs ! i)"
    and e: "e = (entry p (gc_entry (cs ! i)))\<lparr>pe_pending := pe_pending (entry p (gc_entry (cs ! i))) - 1\<rparr>"
  shows "callsOK (setEntry (gc_entry (cs ! i)) e p) (finish i r cs)"
proof -
  let ?cs = "finish i r cs" and ?a = "gc_entry (cs ! i)" and ?p = "setEntry (gc_entry (cs ! i)) e p"
  have la: "?a < length (pl_entries p)" using c i by (simp add: callsOK_def)
  have calls: "gc_entry d < length (pl_entries ?p) \<and> (activeCall d \<and> \<not> pl_closed ?p \<longrightarrow> (gc_key d, gc_entry d) \<in> set (pl_conns ?p))
      \<and> (gc_phase d = Dialling \<and> \<not> pl_closed ?p \<longrightarrow> pe_prov (entry ?p (gc_entry d)) = None)" if "d \<in> set ?cs" for d
  proof -
    have prov: "pe_prov (entry ?p b) = pe_prov (entry p b)" for b
      unfolding setEntry_simps by (rule nth_update_field [where f = pe_prov]) (simp add: e)
    show ?thesis
    proof (cases "d \<in> set cs")
      case True
      with c prov show ?thesis by (simp add: callsOK_def)
    next
      case False
      with set_update_other [OF that] have "d = (cs ! i)\<lparr>gc_phase := Finished r\<rparr>" by blast
      with la show ?thesis by (simp add: activeCall_def)
    qed
  qed
  have "pe_pending (entry ?p b) = cnt (\<lambda>c. activeCall c \<and> gc_entry c = b) ?cs
      \<and> cnt (\<lambda>c. holding c \<and> gc_entry c = b) ?cs = of_bool (pe_open (entry ?p b))" if "b < length (pl_entries ?p)" for b
  proof -
    have b: "b < length (pl_entries p)" using that by simp
    have old: "pe_pending (entry p b) = cnt (\<lambda>c. activeCall c \<and> gc_entry c = b) cs"
      "cnt (\<lambda>c. holding c \<and> gc_entry c = b) cs = of_bool (pe_open (entry p b))" using c b by (simp_all add: callsOK_def)
    have op: "pe_open (entry ?p b) = pe_open (entry p b)"
      unfolding setEntry_simps by (rule nth_update_field [where f = pe_open]) (simp add: e)
    have "cnt (\<lambda>c. holding c \<and> gc_entry c = b) ?cs = cnt (\<lambda>c. holding c \<and> gc_entry c = b) cs"
      using cnt_update [OF i, of "\<lambda>c. holding c \<and> gc_entry c = b"] h by (simp add: holding_def)
    moreover have "pe_pending (entry ?p b) = pe_pending (entry p b) - of_bool (?a = b)" using b by (auto simp: e)
    ultimately show ?thesis using cnt_finish [OF i a, of "\<lambda>c. gc_entry c = b" r] old op by simp
  qed
  with calls show ?thesis unfolding callsOK_def by blast
qed

definition bindFrame :: "nat \<Rightarrow> 'c poolSystem \<Rightarrow> 'c getCall \<times> 'c Pool \<Rightarrow> bool" where
  "bindFrame i s q \<longleftrightarrow> systemOK (updCall i q s) \<and>
     (\<exists>p2 r. fst q = (sy_calls s ! i)\<lparr>gc_phase := Finished r\<rparr> \<and> frame p2 (snd q) \<and> callsOK p2 (finish i r (sy_calls s))
        \<and> pl_conns p2 = pl_conns (sy_pool s) \<and> (\<forall>b. pe_prov (entry p2 b) = pe_prov (entry (sy_pool s) b)))"

lemma bind_frame:
  assumes s: "systemOK s" and i: "i < length (sy_calls s)" and ph: "gc_phase (sy_calls s ! i) = Returned res"
  shows "bindFrame i s (bindGet (sy_calls s ! i) res (sy_pool s))"
proof -
  let ?c = "sy_calls s ! i" and ?p = "sy_pool s" and ?cs = "sy_calls s"
  let ?a = "gc_entry ?c" and ?k = "gc_key ?c"
  let ?e = "(entry ?p ?a)\<lparr>pe_pending := pe_pending (entry ?p ?a) - 1\<rparr>"
  have act: "activeCall ?c" "\<not> holding ?c" using ph by (simp_all add: activeCall_def holding_def)
  have c: "callsOK ?p ?cs" and g: "gettingOK ?p ?cs" and p: "poolOK ?p" using s by (simp_all add: systemOK_def)
  define p1 where "p1 = setEntry ?a ?e ?p"
  obtain ov p2 where e2: "endGetLocked (gc_owner ?c) (gc_gets ?c) (gc_before ?c) p1 = (ov, p2)" by fastforce
  have g1: "gettingOK p1 ?cs" using g unfolding gettingOK_def p1_def setEntry_simps .
  have g2: "gettingOK p2 (finish i r ?cs)" for r by (rule endGetLocked_ok(1) [OF g1 i act(1) e2])
  obtain x y where p2: "p2 = p1\<lparr>pl_gets := x, pl_getting := y\<rparr>" using endGetLocked_frame [OF e2] by blast
  have c2: "callsOK p2 (finish i r ?cs)" for r
    unfolding p2 gets_update p1_def by (rule unreserve_calls [OF c i act refl])
  have "tableOK p1 \<and> labelsOK p1 \<and> connsOK p1 \<and> ownersOK p1"
    unfolding p1_def by (rule pool_setEntry_ok) (use p in \<open>simp_all add: poolOK_def\<close>)
  then have ok2: "tableOK p2" "labelsOK p2" "connsOK p2" "ownersOK p2" unfolding p2 by simp_all
  have finished: "bindFrame i s (?c\<lparr>gc_phase := Finished r\<rparr>, p3)"
    if "frame p2 p3" "poolOK p3" for r p3
  proof -
    have "systemOK (updCall i (?c\<lparr>gc_phase := Finished r\<rparr>, p3) s)"
      using that frame_calls [OF that(1) c2] frame_getting [OF that(1)] g2 by (simp add: systemOK_def)
    moreover have "pe_prov (entry p2 b) = pe_prov (entry ?p b)" for b
      by (simp add: p2 p1_def nth_update_field [where f = pe_prov])
    moreover have "pl_conns p2 = pl_conns ?p" by (simp add: p2 p1_def)
    ultimately show ?thesis unfolding bindFrame_def using that(1) c2 by (metis fst_conv snd_conv)
  qed
  show ?thesis
  proof (cases "pl_closed p2")
    case True
    then have "wantedOK p2" using ok2(1) by (simp add: tableOK_def wantedOK_def)
    with ok2 have "poolOK p2" by (simp add: poolOK_def)
    with finished [of p2] True e2 show ?thesis by (simp add: bindGet_def p1_def Let_def)
  next
    case False
    then have op: "\<not> pl_closed ?p" by (simp add: p2 p1_def)
    have k: "(?k, ?a) \<in> set (pl_conns p2)"
      using c nth_mem [OF i] act(1) op by (auto simp: callsOK_def p2 p1_def)
    have a2: "?a < length (pl_entries p2)" by (rule table_addr [OF ok2(1) k])
    have idle: "\<not> idleLocked (entry p2 (snd x))" if x: "x \<in> set (pl_conns p2)" "fst x \<noteq> ?k" for x
    proof -
      have "snd x \<noteq> ?a" using x table_unique [OF ok2(1) k, of "fst x" "snd x"] by (metis prod.collapse)
      with x p show ?thesis by (simp add: poolOK_def wantedOK_def p2 p1_def)
    qed
    show ?thesis
    proof (cases ov)
      case True
      show ?thesis
      proof (cases "idleLocked (entry p2 ?a)")
        case id: True
        then have z: "pe_pending (entry p2 ?a) = 0" "pe_owners (entry p2 ?a) = []" by (simp_all add: idleLocked_def)
        have "\<not> boundTo p2 q ?k" for q unfolding bound_at [OF ok2(1) k] using z(2) by simp
        then have "boundTo (removeLocked ?k ?a p2) q k' \<longleftrightarrow> boundTo p2 q k'" for q k'
          using removeLocked_bound [of ?k ?a p2 q k'] by blast
        then have "ownersOK (removeLocked ?k ?a p2)" using ok2(4) by (simp add: ownersOK_def)
        then have "poolOK (removeLocked ?k ?a p2)"
          using removeLocked_table [OF ok2(1)] removeLocked_labels [OF ok2(1) k ok2(2)]
            removeLocked_conns [OF ok2(1) k ok2(3)] removeLocked_wanted [of p2 ?k ?a, OF idle]
          by (simp add: poolOK_def)
        with finished [OF frame_removeLocked [OF ok2(1) k z(1)]] True id False e2 show ?thesis
          by (simp add: bindGet_def p1_def Let_def)
      next
        case id: False
        have "wantedOK p2"
          unfolding wantedOK_def
        proof
          fix x assume x: "x \<in> set (pl_conns p2)"
          show "\<not> idleLocked (entry p2 (snd x))"
          proof (cases "fst x = ?k")
            case fx: True
            then have "snd x = ?a" using x table_unique [OF ok2(1) k, of "fst x" "snd x"] by (metis prod.collapse)
            with id show ?thesis by simp
          qed (use idle x in blast)
        qed
        with ok2 have "poolOK p2" by (simp add: poolOK_def)
        with finished [of p2] True id False e2 show ?thesis by (simp add: bindGet_def p1_def Let_def)
      qed
    next
      case nov: False
      have "0 \<le> pe_pending (entry p2 ?a)" by (rule pending_nonneg [OF c2 a2])
      from bindLocked_ok [OF ok2(1,2,3,4) False k idle this, of "gc_owner ?c"]
      have "poolOK (bindLocked (gc_owner ?c) ?k ?a p2)" "frame p2 (bindLocked (gc_owner ?c) ?k ?a p2)"
        by (simp_all add: poolOK_def)
      with finished nov False e2 show ?thesis by (simp add: bindGet_def p1_def Let_def)
    qed
  qed
qed

lemma bind_ok:
  assumes "systemOK s" "i < length (sy_calls s)" "gc_phase (sy_calls s ! i) = Returned res"
  shows "systemOK (updCall i (bindGet (sy_calls s ! i) res (sy_pool s)) s)"
  using bind_frame [OF assms] by (simp add: bindFrame_def)

section \<open>The start of a call\<close>

lemma acquireLabel_ok:
  assumes "labelsOK p" "acquireLabelLocked name p = (label, p0)"
  shows "p0 = p\<lparr>pl_labels := pl_labels p0\<rparr>" "distinct (map fst (pl_labels p0))" "\<forall>x\<in>set (pl_labels p0). 0 < snd x"
    "labelCount (pl_labels p0) l = labelUsers p l + of_bool (l = label)" "namedLabelsLocked p0 \<le> int (limit p0)"
proof -
  let ?ls = "pl_labels p"
  have lb: "label = (if labelCount ?ls name = 0 \<and> namedLabelsLocked p \<ge> int (limit p) then OtherHypervisor else name)"
    "p0 = p\<lparr>pl_labels := setLabel label (labelCount ?ls label + 1) ?ls\<rparr>"
    using assms(2) by (auto simp: acquireLabelLocked_def Let_def)
  have pos: "\<forall>x\<in>set ?ls. 0 < snd x" and dl: "distinct (map fst ?ls)"
    and cu: "\<And>x. labelCount ?ls x = labelUsers p x" and lim: "namedLabelsLocked p \<le> int (limit p)"
    using assms(1) by (simp_all add: labelsOK_def)
  note key = labelCount_key [OF pos]
  show "p0 = p\<lparr>pl_labels := pl_labels p0\<rparr>" using lb(2) by simp
  show "distinct (map fst (pl_labels p0))" using lb(2) setLabel_distinct [OF dl] by simp
  show "\<forall>x\<in>set (pl_labels p0). 0 < snd x"
    using lb(2) setLabel_pos [OF pos, of "labelCount ?ls label + 1" label] key(2) [of label] by simp
  show "labelCount (pl_labels p0) l = labelUsers p l + of_bool (l = label)"
    using lb(2) cu by (simp add: labelCount_set)
  have len: "int (length (pl_labels p0)) = int (length ?ls) + of_bool (labelCount ?ls label = 0)"
    using key [of label] by (auto simp: lb(2) setLabel_length)
  have other: "labelCount (pl_labels p0) OtherHypervisor = labelCount ?ls OtherHypervisor + of_bool (label = OtherHypervisor)"
    by (simp add: lb(2) labelCount_set)
  have limit: "limit p0 = limit p" using lb(2) by (simp add: limit_def)
  show "namedLabelsLocked p0 \<le> int (limit p0)"
  proof (cases "label = OtherHypervisor")
    case True
    have "namedLabelsLocked p0 = namedLabelsLocked p"
      using len other key(2) [of OtherHypervisor] True by (auto simp: namedLabelsLocked_def Let_def)
    with lim limit show ?thesis by simp
  next
    case False
    then have "namedLabelsLocked p0 = namedLabelsLocked p + of_bool (labelCount ?ls label = 0)"
      using len other by (auto simp: namedLabelsLocked_def Let_def)
    with lim limit lb(1) False show ?thesis by (auto split: if_splits)
  qed
qed

text \<open>The entry of a target, found or made, with the pool well-formed but for its reservation.\<close>

definition findEntry :: "string \<Rightarrow> string \<Rightarrow> 'c Pool \<Rightarrow> nat \<times> 'c Pool" where
  "findEntry key name p = (case map_of (pl_conns p) key of
     Some a \<Rightarrow> (a, p)
   | None \<Rightarrow> let (label, p0) = acquireLabelLocked name p; a = length (pl_entries p0) in
       (a, p0\<lparr>pl_entries := pl_entries p0 @ [\<lparr>pe_name = name, pe_label = label, pe_open = False,
              pe_prov = None, pe_release = None, pe_owners = [], pe_pinned = False, pe_pending = 0\<rparr>],
            pl_conns := (key, a) # pl_conns p0\<rparr>))"

lemma findEntry_ok:
  assumes p: "poolOK p" and c: "callsOK p cs" and op: "\<not> pl_closed p" and f: "findEntry key name p = (a, p1)"
  shows "tableOK p1" "labelsOK p1" "connsOK p1" "ownersOK p1" "(key, a) \<in> set (pl_conns p1)" "callsOK p1 cs"
    "pl_closed p1 = pl_closed p" "pl_getting p1 = pl_getting p" "pl_gets p1 = pl_gets p"
    "\<And>x. x \<in> set (pl_conns p1) \<Longrightarrow> fst x \<noteq> key \<Longrightarrow> \<not> idleLocked (entry p1 (snd x))"
proof -
  have ok: "tableOK p" "labelsOK p" "connsOK p" "ownersOK p" "wantedOK p" using p by (simp_all add: poolOK_def)
  have "tableOK p1 \<and> labelsOK p1 \<and> connsOK p1 \<and> ownersOK p1 \<and> (key, a) \<in> set (pl_conns p1) \<and> callsOK p1 cs
    \<and> pl_closed p1 = pl_closed p \<and> pl_getting p1 = pl_getting p \<and> pl_gets p1 = pl_gets p
    \<and> (\<forall>x\<in>set (pl_conns p1). fst x \<noteq> key \<longrightarrow> \<not> idleLocked (entry p1 (snd x)))"
  proof (cases "map_of (pl_conns p) key")
    case (Some b)
    then have "p1 = p" "b = a" using f by (simp_all add: findEntry_def)
    moreover have "(key, b) \<in> set (pl_conns p)" using Some table_lookup [OF ok(1)] by simp
    ultimately have "p1 = p" "(key, a) \<in> set (pl_conns p)" by simp_all
    with ok c show ?thesis by (simp add: wantedOK_def)
  next
    case None
    obtain label p0 where l: "acquireLabelLocked name p = (label, p0)" by fastforce
    let ?new = "\<lparr>pe_name = name, pe_label = label, pe_open = False, pe_prov = None, pe_release = None,
        pe_owners = [], pe_pinned = False, pe_pending = 0\<rparr>"
    note al = acquireLabel_ok [OF ok(2) l]
    obtain ls where p0: "p0 = p\<lparr>pl_labels := ls\<rparr>" using al(1) by blast
    have p1: "a = length (pl_entries p)" "p1 = p\<lparr>pl_labels := ls, pl_entries := pl_entries p @ [?new], pl_conns := (key, a) # pl_conns p\<rparr>"
      using f None l by (auto simp: findEntry_def p0 Let_def)
    have k: "key \<notin> fst ` set (pl_conns p)" using None by (simp add: map_of_eq_None_iff)
    have addr: "\<forall>x\<in>set (pl_conns p). snd x < length (pl_entries p)" using ok(1) by (simp add: tableOK_def)
    have fresh: "a \<notin> snd ` set (pl_conns p)" using addr p1(1) by auto
    have old: "entry p1 b = entry p b" if "b < length (pl_entries p)" for b using that p1 by (simp add: nth_append)
    have ta: "\<And>f. tally f (pl_entries p1) (pl_conns p1) = f ?new + tally f (pl_entries p) (pl_conns p)"
      by (simp add: p1 nth_append tally_append [OF addr])
    have table: "tableOK p1" using ok(1) op k fresh by (auto simp: tableOK_def p1)
    have "labelUsers p1 x = labelUsers p x + of_bool (x = label)" for x by (auto simp: labelUsers_def ta)
    moreover have "namedLabelsLocked p1 = namedLabelsLocked p0" "limit p1 = limit p0" "pl_labels p1 = pl_labels p0"
      by (simp_all add: p1(2) p0 namedLabelsLocked_def limit_def)
    ultimately have labels: "labelsOK p1" using al(2,3,4,5) by (simp add: labelsOK_def)
    have "\<forall>b<length (pl_entries p1). pe_release (entry p1 b) \<in> {None, pe_prov (entry p1 b)}"
    proof (intro allI impI)
      fix b assume "b < length (pl_entries p1)"
      then show "pe_release (entry p1 b) \<in> {None, pe_prov (entry p1 b)}"
        using ok(3) old [of b] p1 by (cases "b < length (pl_entries p)") (auto simp: connsOK_def nth_append)
    qed
    moreover have "heldConns p1 = heldConns p" by (simp add: heldConns_def ta)
    ultimately have conns: "connsOK p1" using ok(3) ta [of "\<lambda>e. of_bool (pe_prov e \<noteq> None) :: int"] by (simp add: connsOK_def p1(2))
    have "boundTo p1 q x \<longleftrightarrow> boundTo p q x" for q x
    proof -
      have "pe_owners (entry p1 a) = []" using p1 by (simp add: nth_append)
      moreover have "entry p1 b = entry p b" if "(x, b) \<in> set (pl_conns p)" for b using addr that old by force
      ultimately show ?thesis unfolding boundTo_def using p1(2) by fastforce
    qed
    then have owners: "ownersOK p1" using ok(4) by (simp add: ownersOK_def p1(2))
    have calls: "callsOK p1 cs"
    proof -
      have refs: "gc_entry d < length (pl_entries p)" if "d \<in> set cs" for d using c that by (simp add: callsOK_def)
      have "cnt (\<lambda>c. activeCall c \<and> gc_entry c = a) cs = 0" "cnt (\<lambda>c. holding c \<and> gc_entry c = a) cs = 0"
        unfolding cnt_zero_iff p1(1) using refs by (metis less_irrefl)+
      then have new: "pe_pending (entry p1 a) = cnt (\<lambda>c. activeCall c \<and> gc_entry c = a) cs
          \<and> cnt (\<lambda>c. holding c \<and> gc_entry c = a) cs = of_bool (pe_open (entry p1 a))"
        using p1 by (simp add: nth_append)
      show ?thesis
        unfolding callsOK_def
      proof (intro conjI ballI allI impI)
        fix d assume "d \<in> set cs"
        then show "gc_entry d < length (pl_entries p1)" using refs p1(2) by fastforce
      next
        fix d assume "d \<in> set cs" "activeCall d \<and> \<not> pl_closed p1"
        then show "(gc_key d, gc_entry d) \<in> set (pl_conns p1)" using c by (simp add: callsOK_def p1(2))
      next
        fix d assume "d \<in> set cs" "gc_phase d = Dialling \<and> \<not> pl_closed p1"
        then show "pe_prov (entry p1 (gc_entry d)) = None" using c old refs by (simp add: callsOK_def p1(2))
      next
        fix b assume "b < length (pl_entries p1)"
        then have "b < length (pl_entries p) \<or> b = a" using p1 by auto
        then show "pe_pending (entry p1 b) = cnt (\<lambda>c. activeCall c \<and> gc_entry c = b) cs"
          "cnt (\<lambda>c. holding c \<and> gc_entry c = b) cs = of_bool (pe_open (entry p1 b))"
          using new c old by (auto simp: callsOK_def)
      qed
    qed
    have "\<not> idleLocked (entry p1 (snd x))" if "x \<in> set (pl_conns p1)" "fst x \<noteq> key" for x
    proof -
      have x: "x \<in> set (pl_conns p)" using that p1(2) by auto
      with old [of "snd x"] addr ok(5) show ?thesis by (simp add: wantedOK_def)
    qed
    with table labels conns owners calls show ?thesis by (simp add: p1(2))
  qed
  then show "tableOK p1" "labelsOK p1" "connsOK p1" "ownersOK p1" "(key, a) \<in> set (pl_conns p1)" "callsOK p1 cs"
    "pl_closed p1 = pl_closed p" "pl_getting p1 = pl_getting p" "pl_gets p1 = pl_gets p"
    "\<And>x. x \<in> set (pl_conns p1) \<Longrightarrow> fst x \<noteq> key \<Longrightarrow> \<not> idleLocked (entry p1 (snd x))" by blast+
qed

lemma startGetLocked_ok:
  assumes g: "gettingOK p cs" and e: "startGetLocked q p = ((gets, before), p2)"
    and c: "gc_owner c = q" "gc_gets c = gets" "gc_before c = before" "activeCall c"
  shows "p2 = p\<lparr>pl_gets := pl_gets p2, pl_getting := pl_getting p2\<rparr>" "gettingOK p2 (cs @ [c])"
proof -
  show "p2 = p\<lparr>pl_gets := pl_gets p2, pl_getting := pl_getting p2\<rparr>"
    using e by (cases p) (auto simp: startGetLocked_def Let_def split: option.splits if_splits)
  show "gettingOK p2 (cs @ [c])"
  proof (cases "q = noOwner")
    case True
    then have p2: "p2 = p" "gets = None" using e by (simp_all add: startGetLocked_def)
    have "m < length (pl_gets p) \<and> o' \<noteq> noOwner \<and> og_inFlight (pl_gets p ! m) = cnt (\<lambda>c. activeCall c \<and> gc_owner c = o') (cs @ [c])
        \<and> 0 < og_inFlight (pl_gets p ! m) \<and> (\<forall>o2. pl_getting p o2 = Some m \<longrightarrow> o2 = o')" if "pl_getting p o' = Some m" for o' m
      using gettingD [OF g that] True c(1) by auto
    moreover have "if gc_owner d = noOwner then gc_gets d = None
        else \<exists>g. gc_gets d = Some g \<and> pl_getting p (gc_owner d) = Some g \<and> gc_before d \<le> og_releases (pl_gets p ! g)"
      if "d \<in> set (cs @ [c])" "activeCall d" for d
      using gettingCallD [OF g, of d] that c True p2 by (cases "d = c") simp_all
    ultimately show ?thesis unfolding p2(1) gettingOK_def by blast
  next
    case False
    define m p1 where "m = (case pl_getting p q of Some m \<Rightarrow> m | None \<Rightarrow> length (pl_gets p))"
      and "p1 = (case pl_getting p q of Some m \<Rightarrow> p | None \<Rightarrow>
        p\<lparr>pl_gets := pl_gets p @ [\<lparr>og_inFlight = 0, og_releases = 0\<rparr>], pl_getting := (pl_getting p)(q \<mapsto> length (pl_gets p))\<rparr>)"
    let ?og = "pl_gets p1 ! m"
    let ?og' = "?og\<lparr>og_inFlight := og_inFlight ?og + 1\<rparr>"
    have p2: "gets = Some m" "before = og_releases ?og" "p2 = p1\<lparr>pl_gets := (pl_gets p1)[m := ?og']\<rparr>"
    proof -
      have "startGetLocked q p = ((Some m, og_releases ?og), p1\<lparr>pl_gets := (pl_gets p1)[m := ?og']\<rparr>)"
        using False by (cases "pl_getting p q") (simp_all add: startGetLocked_def m_def p1_def Let_def)
      with e show "gets = Some m" "before = og_releases ?og" "p2 = p1\<lparr>pl_gets := (pl_gets p1)[m := ?og']\<rparr>"
        by simp_all
    qed
    have gq: "pl_getting p1 = (pl_getting p)(q \<mapsto> m)" by (auto simp: p1_def m_def split: option.splits)
    have m: "m < length (pl_gets p1)"
      using gettingD(1) [OF g, of q] by (auto simp: p1_def m_def split: option.splits)
    have mq: "og_inFlight ?og = cnt (\<lambda>c. activeCall c \<and> gc_owner c = q) cs"
    proof (cases "pl_getting p q")
      case None
      have "\<not> (activeCall d \<and> gc_owner d = q)" if "d \<in> set cs" for d
        using gettingCallD [OF g that] None False by (auto split: if_splits)
      then have "cnt (\<lambda>c. activeCall c \<and> gc_owner c = q) cs = 0" by (simp add: cnt_zero_iff)
      with None show ?thesis by (simp add: p1_def m_def nth_append)
    next
      case (Some n)
      with gettingD(3) [OF g Some] show ?thesis by (simp add: p1_def m_def)
    qed
    have others: "x < length (pl_gets p) \<and> pl_gets p1 ! x = pl_gets p ! x \<and> x \<noteq> m" if "pl_getting p o' = Some x" "o' \<noteq> q" for o' x
    proof (cases "pl_getting p q")
      case None
      with gettingD(1) [OF g that(1)] show ?thesis by (simp add: p1_def m_def nth_append)
    next
      case (Some n)
      have "x \<noteq> n" using gettingD(5) [OF g that(1), of q] Some that(2) by blast
      with Some gettingD(1) [OF g that(1)] show ?thesis by (simp add: p1_def m_def)
    qed
    have len: "length (pl_gets p) \<le> length (pl_gets p1)" by (auto simp: p1_def split: option.splits)
    have "x < length (pl_gets p2) \<and> o' \<noteq> noOwner \<and> og_inFlight (pl_gets p2 ! x) = cnt (\<lambda>c. activeCall c \<and> gc_owner c = o') (cs @ [c])
        \<and> 0 < og_inFlight (pl_gets p2 ! x) \<and> (\<forall>o2. pl_getting p2 o2 = Some x \<longrightarrow> o2 = o')" if x: "pl_getting p2 o' = Some x" for o' x
    proof (cases "o' = q")
      case True
      then have xm: "x = m" using x p2(3) gq by simp
      have "o2 = q" if "pl_getting p2 o2 = Some m" for o2
        using that p2(3) gq others [of o2 m] by (auto split: if_splits)
      moreover have "og_inFlight ?og' = cnt (\<lambda>c. activeCall c \<and> gc_owner c = q) cs + 1" using mq by simp
      then have "0 < og_inFlight ?og'" using cnt_nonneg [of "\<lambda>c. activeCall c \<and> gc_owner c = q" cs] by linarith
      ultimately show ?thesis using True xm False m mq c(1,4) p2(3) by simp
    next
      case ne: False
      then have x': "pl_getting p o' = Some x" using x p2(3) gq by simp
      note gd = gettingD [OF g x'] and ox = others [OF x' ne]
      have "o2 = o'" if "pl_getting p2 o2 = Some x" for o2
        using that p2(3) gq gd(5) [of o2] ox by (auto split: if_splits)
      with gd ox ne c(1) p2(3) len show ?thesis by auto
    qed
    moreover have "if gc_owner d = noOwner then gc_gets d = None
        else \<exists>g. gc_gets d = Some g \<and> pl_getting p2 (gc_owner d) = Some g \<and> gc_before d \<le> og_releases (pl_gets p2 ! g)"
      if "d \<in> set (cs @ [c])" "activeCall d" for d
    proof -
      have rels: "og_releases (pl_gets p2 ! x) = og_releases (pl_gets p1 ! x)" for x
        unfolding p2(3) by simp (rule nth_update_field [where f = og_releases], simp)
      show ?thesis
      proof (cases "d = c")
        case True
        with c False p2 gq rels show ?thesis by simp
      next
        case nd: False
        then have "d \<in> set cs" using that by simp
        note old = gettingCallD [OF g this that(2)]
        show ?thesis
        proof (cases "gc_owner d = noOwner")
          case True
          with old show ?thesis by simp
        next
          case dn: False
          with old obtain x where x: "gc_gets d = Some x" "pl_getting p (gc_owner d) = Some x" "gc_before d \<le> og_releases (pl_gets p ! x)" by auto
          have "pl_gets p1 ! x = pl_gets p ! x" using gettingD(1) [OF g x(2)] by (auto simp: p1_def nth_append split: option.splits)
          moreover have "pl_getting p2 (gc_owner d) = Some x" using x(2) gq p2(3) by (auto simp: m_def)
          ultimately show ?thesis using x dn rels by simp
        qed
      qed
    qed
    ultimately show ?thesis unfolding gettingOK_def by blast
  qed
qed

lemma reserve_ok:
  assumes s: "systemOK s" and r: "reserveGet q key name (sy_pool s) = (Inr c, p)"
  shows "systemOK \<lparr>sy_pool = p, sy_calls = sy_calls s @ [c]\<rparr>"
proof -
  let ?p = "sy_pool s" and ?cs = "sy_calls s"
  have c: "callsOK ?p ?cs" and g: "gettingOK ?p ?cs" and p: "poolOK ?p" using s by (simp_all add: systemOK_def)
  have op: "\<not> pl_closed ?p" using r by (auto simp: reserveGet_def split: if_splits)
  obtain a p1 where f: "findEntry key name ?p = (a, p1)" by fastforce
  note fe = findEntry_ok [OF p c op f]
  let ?e = "(entry p1 a)\<lparr>pe_pending := pe_pending (entry p1 a) + 1\<rparr>"
  define p2 where "p2 = setEntry a ?e p1"
  obtain gets before p3 where st: "startGetLocked q p2 = ((gets, before), p3)" by (metis prod.collapse)
  have cp: "c = \<lparr>gc_owner = q, gc_key = key, gc_entry = a, gc_gets = gets, gc_before = before, gc_phase = Queued\<rparr>" "p = p3"
    using r op f st unfolding reserveGet_def findEntry_def [symmetric] by (simp_all add: p2_def Let_def)
  have act: "activeCall c" "\<not> holding c" "gc_entry c = a" "gc_key c = key" "gc_phase c \<noteq> Dialling"
    by (simp_all add: cp activeCall_def holding_def)
  have a: "a < length (pl_entries p1)" by (rule table_addr [OF fe(1,5)])
  have "gettingOK p2 ?cs" using g unfolding gettingOK_def p2_def setEntry_simps fe(8,9) .
  note sg = startGetLocked_ok [OF this st, of c]
  have sg': "p3 = p2\<lparr>pl_gets := pl_gets p3, pl_getting := pl_getting p3\<rparr>" "gettingOK p3 (?cs @ [c])"
    using sg by (simp_all add: cp activeCall_def)
  obtain x y where p3: "p3 = p2\<lparr>pl_gets := x, pl_getting := y\<rparr>" using sg'(1) by blast
  have base: "tableOK p2 \<and> labelsOK p2 \<and> connsOK p2 \<and> ownersOK p2"
    unfolding p2_def by (rule pool_setEntry_ok [OF fe(1-4)]) simp_all
  have pend: "0 \<le> pe_pending (entry p1 a)" by (rule pending_nonneg [OF fe(6) a])
  have "wantedOK p2"
    unfolding wantedOK_def
  proof
    fix x assume x: "x \<in> set (pl_conns p2)"
    show "\<not> idleLocked (entry p2 (snd x))"
    proof (cases "fst x = key")
      case True
      then have "snd x = a" using x table_unique [OF fe(1,5), of "fst x" "snd x"] by (metis prod.collapse p2_def setEntry_simps(1))
      with a pend show ?thesis by (simp add: p2_def idleLocked_def)
    next
      case False
      then have "snd x \<noteq> a" using x table_unique [OF fe(1,5), of "fst x" "snd x"] by (metis prod.collapse p2_def setEntry_simps(1))
      with fe(10) [of x] x False show ?thesis by (simp add: p2_def)
    qed
  qed
  with base have "poolOK p3" unfolding p3 poolOK_def by simp
  moreover have "callsOK p2 (?cs @ [c])"
    unfolding callsOK_def
  proof (intro conjI ballI allI impI)
    fix d assume d: "d \<in> set (?cs @ [c])"
    show "gc_entry d < length (pl_entries p2)" using d fe(6) a act by (auto simp: callsOK_def p2_def)
    show "(gc_key d, gc_entry d) \<in> set (pl_conns p2)" if "activeCall d \<and> \<not> pl_closed p2"
      using d fe(5,6) act that by (auto simp: callsOK_def p2_def)
    show "pe_prov (entry p2 (gc_entry d)) = None" if "gc_phase d = Dialling \<and> \<not> pl_closed p2"
    proof -
      have "d \<in> set ?cs" using d act(5) that by auto
      with fe(6) that have "pe_prov (entry p1 (gc_entry d)) = None" by (simp add: callsOK_def p2_def)
      then show ?thesis by (simp add: p2_def nth_update_field [where f = pe_prov])
    qed
  next
    fix b assume b: "b < length (pl_entries p2)"
    then have b1: "b < length (pl_entries p1)" by (simp add: p2_def)
    have old: "pe_pending (entry p1 b) = cnt (\<lambda>c. activeCall c \<and> gc_entry c = b) ?cs"
      "cnt (\<lambda>c. holding c \<and> gc_entry c = b) ?cs = of_bool (pe_open (entry p1 b))"
      using fe(6) b1 by (simp_all add: callsOK_def)
    show "pe_pending (entry p2 b) = cnt (\<lambda>c. activeCall c \<and> gc_entry c = b) (?cs @ [c])"
      using old(1) act a b1 by (auto simp: p2_def nth_list_update)
    show "cnt (\<lambda>c. holding c \<and> gc_entry c = b) (?cs @ [c]) = of_bool (pe_open (entry p2 b))"
      using old(2) act by (simp add: p2_def nth_update_field [where f = pe_open])
  qed
  then have "callsOK p3 (?cs @ [c])" unfolding p3 by simp
  ultimately show ?thesis using sg'(2) cp(2) by (simp add: systemOK_def)
qed

end
