(* ===== verification/Pool_Runs.thy ===== *)
theory Pool_Runs
  imports Pool_Steps
begin

text \<open>
  The remaining steps of the pool (\<^verbatim>\<open>Release\<close>, \<^verbatim>\<open>CloseAll\<close>, the closes that finish in the
  background), and with them the invariant of every reachable state.
\<close>

lemma gettingOK_same: "pl_getting p' = pl_getting p \<Longrightarrow> pl_gets p' = pl_gets p \<Longrightarrow> gettingOK p' cs = gettingOK p cs"
  by (simp only: gettingOK_def)

text \<open>The connection of an entry somebody has reserved stays.\<close>

definition keepsConns :: "'c Pool \<Rightarrow> 'c Pool \<Rightarrow> bool" where
  "keepsConns p p' \<longleftrightarrow> (\<forall>x\<in>set (pl_conns p). pe_pending (entry p (snd x)) \<noteq> 0 \<longrightarrow>
     pe_prov (entry p' (snd x)) = pe_prov (entry p (snd x)))"

lemma frame_keeps: "frame p p' \<Longrightarrow> keepsConns p p'"
  unfolding frame_def keepsConns_def by blast

section \<open>Release\<close>

lemma Release_ok:
  assumes s: "systemOK s"
  shows "systemOK (s\<lparr>sy_pool := Release q (sy_pool s)\<rparr>) \<and> keepsConns (sy_pool s) (Release q (sy_pool s))"
proof -
  let ?p = "sy_pool s" and ?cs = "sy_calls s"
  define p1 where "p1 = (case pl_getting ?p q of None \<Rightarrow> ?p
    | Some g \<Rightarrow> ?p\<lparr>pl_gets := (pl_gets ?p)[g := (pl_gets ?p ! g)\<lparr>og_releases := og_releases (pl_gets ?p ! g) + 1\<rparr>]\<rparr>)"
  have "p1 = ?p\<lparr>pl_gets := pl_gets p1, pl_getting := pl_getting ?p\<rparr>"
    unfolding p1_def by (cases "pl_getting ?p q") simp_all
  then obtain x y where x: "p1 = ?p\<lparr>pl_gets := x, pl_getting := y\<rparr>" by blast
  have ok: "poolOK p1" "callsOK p1 ?cs" using s unfolding x by (simp_all add: systemOK_def poolOK_def)
  have g: "gettingOK p1 ?cs"
  proof (cases "pl_getting ?p q")
    case None
    then show ?thesis using s by (simp add: p1_def systemOK_def)
  next
    case (Some m)
    have gq: "gettingOK ?p ?cs" using s by (simp add: systemOK_def)
    have len: "length (pl_gets p1) = length (pl_gets ?p)" and get: "pl_getting p1 = pl_getting ?p" using Some by (simp_all add: p1_def)
    have fl: "og_inFlight (pl_gets p1 ! b) = og_inFlight (pl_gets ?p ! b)" for b
      using Some by (simp add: p1_def nth_update_field [where f = og_inFlight])
    have rl: "og_releases (pl_gets ?p ! b) \<le> og_releases (pl_gets p1 ! b)" for b
      using Some by (cases "b = m"; cases "m < length (pl_gets ?p)") (simp_all add: p1_def list_update_beyond)
    have "\<exists>k. gc_gets c = Some k \<and> pl_getting p1 (gc_owner c) = Some k \<and> gc_before c \<le> og_releases (pl_gets p1 ! k)"
      if c: "c \<in> set ?cs" "activeCall c" "gc_owner c \<noteq> noOwner" for c
    proof -
      obtain k where "gc_gets c = Some k" "pl_getting ?p (gc_owner c) = Some k" "gc_before c \<le> og_releases (pl_gets ?p ! k)"
        using gettingCallD [OF gq c(1,2)] c(3) by auto
      then show ?thesis using rl [of k] get by auto
    qed
    moreover have "gc_gets c = None" if "c \<in> set ?cs" "activeCall c" "gc_owner c = noOwner" for c
      using gettingCallD [OF gq that(1,2)] that(3) by simp
    ultimately have "\<forall>c\<in>set ?cs. activeCall c \<longrightarrow> (if gc_owner c = noOwner then gc_gets c = None
        else \<exists>g. gc_gets c = Some g \<and> pl_getting ?p (gc_owner c) = Some g \<and> gc_before c \<le> og_releases (pl_gets p1 ! g))"
      unfolding get by simp
    then show ?thesis using gq unfolding gettingOK_def len get fl by blast
  qed
  show ?thesis
  proof (cases "pl_owners p1 q")
    case None
    then have "Release q ?p = p1" by (simp add: Release_def p1_def [symmetric])
    with ok g show ?thesis by (simp add: systemOK_def keepsConns_def x)
  next
    case (Some key)
    let ?u = "p1\<lparr>pl_owners := (pl_owners p1)(q := None)\<rparr>"
    have r: "Release q ?p = unbindLocked q key ?u" using Some by (simp add: Release_def p1_def [symmetric])
    have w: "tableOK p1" "ownersOK p1" "wantedOK p1" "labelsOK p1" "connsOK p1" using ok(1) by (simp_all add: poolOK_def)
    have t: "tableOK ?u" using w(1) Some by (auto simp: tableOK_def)
    have i: "\<not> idleLocked (entry ?u (snd y))" if "y \<in> set (pl_conns ?u)" for y using w(3) that by (simp add: wantedOK_def)
    have lc: "labelsOK ?u" "connsOK ?u" using w by simp_all
    note ub = unbindLocked_ok [OF t lc i, of key q]
    have only: "boundTo p1 q k \<longleftrightarrow> k = key" for k using w(2) Some unfolding ownersOK_def by (metis option.inject)
    have "((pl_owners p1)(q := None)) y = Some k \<longleftrightarrow> boundTo (unbindLocked q key ?u) y k" for y k
      using ub w(2) only [of k] unfolding ownersOK_def by (cases "y = q") auto
    then have "ownersOK (unbindLocked q key ?u)" using w(2) by (simp add: ownersOK_def)
    moreover have fr: "frame p1 (unbindLocked q key ?u)" using ub by simp
    moreover have "keepsConns ?p (unbindLocked q key ?u)" using frame_keeps [OF fr] unfolding keepsConns_def x by simp
    ultimately show ?thesis using ub g frame_calls [OF fr ok(2)] frame_getting [OF fr, of ?cs]
      unfolding r systemOK_def poolOK_def by simp
  qed
qed

section \<open>CloseAll\<close>

lemma removeLocked_closed: "(removeLocked k a p)\<lparr>pl_closed := b\<rparr> = removeLocked k a (p\<lparr>pl_closed := b\<rparr>)"
  unfolding removeLocked_def setEntry_def Let_def by (cases "pe_release (entry p a)") simp_all

lemma removeAllLocked_closed: "removeAllLocked cs (p\<lparr>pl_closed := b\<rparr>) = (removeAllLocked cs p)\<lparr>pl_closed := b\<rparr>"
proof (induction cs arbitrary: p)
  case (Cons x cs)
  then show ?case by (cases x) (simp add: removeLocked_closed [symmetric])
qed simp

lemma removeAllLocked_ok:
  assumes "tableOK p" "labelsOK p" "connsOK p" "pl_conns p = cs" "removeAllLocked cs p = p'"
  shows "labelsOK p' \<and> connsOK p' \<and> pl_conns p' = [] \<and> pl_getting p' = pl_getting p \<and> pl_gets p' = pl_gets p
    \<and> pl_opened p' = pl_opened p \<and> pl_stray p' = pl_stray p \<and> pl_done p' = pl_done p
    \<and> length (pl_entries p') = length (pl_entries p)
    \<and> (\<forall>b. pe_pending (entry p' b) = pe_pending (entry p b) \<and> pe_open (entry p' b) = pe_open (entry p b))"
  using assms
proof (induction cs arbitrary: p)
  case (Cons x cs)
  obtain k a where x: "x = (k, a)" by fastforce
  let ?q = "removeLocked k a p"
  have i: "(k, a) \<in> set (pl_conns p)" using Cons.prems(4) x by simp
  have "k \<notin> fst ` set cs" using Cons.prems(1,4) x by (simp add: tableOK_def)
  then have "filter (\<lambda>x. fst x \<noteq> k) cs = cs" by (intro filter_True) (metis imageI)
  then have c: "pl_conns ?q = cs" using Cons.prems(4) x by simp
  have "pe_pending (entry ?q b) = pe_pending (entry p b) \<and> pe_open (entry ?q b) = pe_open (entry p b)" for b
    by (simp add: nth_update_field [where f = pe_pending] nth_update_field [where f = pe_open])
  with Cons.IH [OF removeLocked_table [OF Cons.prems(1), of k a] removeLocked_labels [OF Cons.prems(1) i Cons.prems(2)]
      removeLocked_conns [OF Cons.prems(1) i Cons.prems(3)] c] Cons.prems(5) x
  show ?case by simp
qed simp

lemma closed_update [simp]:
  "labelsOK (p\<lparr>pl_closed := b\<rparr>) = labelsOK p" "connsOK (p\<lparr>pl_closed := b\<rparr>) = connsOK p"
proof -
  show "labelsOK (p\<lparr>pl_closed := b\<rparr>) = labelsOK p" by (rule labelsOK_same) (simp_all add: labelUsers_def)
  show "connsOK (p\<lparr>pl_closed := b\<rparr>) = connsOK p" by (simp add: connsOK_def heldConns_def)
qed

lemma CloseAll_ok:
  assumes s: "systemOK s"
  shows "systemOK (s\<lparr>sy_pool := CloseAll (sy_pool s)\<rparr>)"
proof -
  let ?p = "sy_pool s"
  define q where "q = removeAllLocked (pl_conns ?p) ?p"
  have c: "CloseAll ?p = q\<lparr>pl_closed := True, pl_owners := Map.empty\<rparr>"
    by (simp add: CloseAll_def q_def removeAllLocked_closed)
  have "tableOK ?p" "labelsOK ?p" "connsOK ?p" using s by (simp_all add: systemOK_def poolOK_def)
  note q = removeAllLocked_ok [OF this refl q_def [symmetric]]
  have "poolOK (CloseAll ?p)"
    unfolding c poolOK_def using q by (simp add: tableOK_def ownersOK_def wantedOK_def boundTo_def)
  moreover have "callsOK (CloseAll ?p) (sy_calls s)"
    using s q unfolding c by (simp add: systemOK_def callsOK_def)
  moreover have "pl_getting (CloseAll ?p) = pl_getting ?p" "pl_gets (CloseAll ?p) = pl_gets ?p" using q unfolding c by simp_all
  note gettingOK_same [OF this]
  then have "gettingOK (CloseAll ?p) (sy_calls s)" using s by (simp add: systemOK_def)
  ultimately show ?thesis by (simp add: systemOK_def)
qed

section \<open>Closes that finish\<close>

lemma close_update:
  assumes "poolOK p" and c: "callsOK p cs" and g: "gettingOK p cs"
    and p': "p' = p\<lparr>pl_closing := x, pl_closes := int (length x), pl_stray := y, pl_done := z\<rparr>"
    and m: "mset x + mset y + mset z = mset (pl_closing p) + mset (pl_stray p) + mset (pl_done p)"
  shows "poolOK p' \<and> callsOK p' cs \<and> gettingOK p' cs"
proof -
  have "labelsOK p' = labelsOK p" unfolding p' by (rule labelsOK_same) (simp_all add: labelUsers_def)
  moreover have "connsOK p'"
    using assms(1) m unfolding p' poolOK_def connsOK_def heldConns_def by (simp add: add.assoc)
  moreover have "gettingOK p' cs" using g gettingOK_same [of p' p] by (simp add: p')
  ultimately show ?thesis
    using assms(1) c unfolding p' poolOK_def by (simp add: tableOK_def ownersOK_def wantedOK_def boundTo_def callsOK_def)
qed

lemma close_done_ok:
  assumes s: "systemOK s" and c: "c \<in> set (pl_closing (sy_pool s))"
  shows "systemOK (s\<lparr>sy_pool := (sy_pool s)\<lparr>pl_closing := remove1 c (pl_closing (sy_pool s)),
      pl_closes := pl_closes (sy_pool s) - 1, pl_done := c # pl_done (sy_pool s)\<rparr>\<rparr>)" (is "systemOK (s\<lparr>sy_pool := ?q\<rparr>)")
proof -
  let ?p = "sy_pool s"
  have n: "pl_closes ?p - 1 = int (length (remove1 c (pl_closing ?p)))"
  proof -
    have "pl_closes ?p = int (length (pl_closing ?p))" using s by (simp add: systemOK_def poolOK_def connsOK_def)
    moreover have "length (remove1 c (pl_closing ?p)) + 1 = length (pl_closing ?p)"
      using length_pos_if_in_set [OF c] c by (simp add: length_remove1)
    ultimately show ?thesis by linarith
  qed
  have q: "?q = ?p\<lparr>pl_closing := remove1 c (pl_closing ?p), pl_closes := int (length (remove1 c (pl_closing ?p))),
      pl_stray := pl_stray ?p, pl_done := c # pl_done ?p\<rparr>" unfolding n by (simp add: Pool.equality)
  have m: "mset (remove1 c (pl_closing ?p)) + mset (pl_stray ?p) + mset (c # pl_done ?p)
      = mset (pl_closing ?p) + mset (pl_stray ?p) + mset (pl_done ?p)" using c by simp
  have "poolOK ?p" "callsOK ?p (sy_calls s)" "gettingOK ?p (sy_calls s)" using s by (simp_all add: systemOK_def)
  from close_update [OF this q m] show ?thesis by (simp add: systemOK_def)
qed

lemma stray_done_ok:
  assumes s: "systemOK s" and c: "c \<in> set (pl_stray (sy_pool s))"
  shows "systemOK (s\<lparr>sy_pool := (sy_pool s)\<lparr>pl_stray := remove1 c (pl_stray (sy_pool s)),
      pl_done := c # pl_done (sy_pool s)\<rparr>\<rparr>)" (is "systemOK (s\<lparr>sy_pool := ?q\<rparr>)")
proof -
  let ?p = "sy_pool s"
  have n: "pl_closes ?p = int (length (pl_closing ?p))" using s by (simp add: systemOK_def poolOK_def connsOK_def)
  have q: "?q = ?p\<lparr>pl_closing := pl_closing ?p, pl_closes := int (length (pl_closing ?p)),
      pl_stray := remove1 c (pl_stray ?p), pl_done := c # pl_done ?p\<rparr>" unfolding n [symmetric] by (simp add: Pool.equality)
  have m: "mset (pl_closing ?p) + mset (remove1 c (pl_stray ?p)) + mset (c # pl_done ?p)
      = mset (pl_closing ?p) + mset (pl_stray ?p) + mset (pl_done ?p)" using c by simp
  have "poolOK ?p" "callsOK ?p (sy_calls s)" "gettingOK ?p (sy_calls s)" using s by (simp_all add: systemOK_def)
  from close_update [OF this q m] show ?thesis by (simp add: systemOK_def)
qed

section \<open>Reachable states\<close>

lemma newSystem_ok: "systemOK (newSystem lim)"
  by (simp add: newSystem_def newPool_def systemOK_def poolOK_def tableOK_def ownersOK_def boundTo_def wantedOK_def
      labelsOK_def labelCount_def labelUsers_def namedLabelsLocked_def connsOK_def heldConns_def callsOK_def gettingOK_def)

lemma call_step_ok:
  assumes "call_step s s'" "systemOK s"
  shows "systemOK s'"
  using assms
proof (cases rule: call_step.cases)
  case (give_up i e)
  with give_up_ok [OF assms(2)] show ?thesis by blast
next
  case (take_turn i a)
  with take_turn_ok [OF assms(2)] show ?thesis by blast
next
  case (look i)
  with look_ok [OF assms(2)] show ?thesis by blast
next
  case (dial i res)
  with dial_ok [OF assms(2) dial(2,3)] show ?thesis by blast
next
  case (bind i res)
  with bind_ok [OF assms(2)] show ?thesis by blast
qed

lemma pool_step_ok:
  assumes "pool_step s s'" "systemOK s"
  shows "systemOK s'"
  using assms
proof (cases rule: pool_step.cases)
  case call
  with call_step_ok assms(2) show ?thesis by blast
next
  case (start_get q k n c p)
  then have "reserveGet q k n (sy_pool s) = (Inr c, p)" by (simp add: Get_def split: if_splits)
  from reserve_ok [OF assms(2) this] start_get show ?thesis by simp
next
  case (start_pinned k n c p)
  then have "reserveGet noOwner k n (sy_pool s) = (Inr c, p)" by (simp add: GetPinned_def)
  from reserve_ok [OF assms(2) this] start_pinned show ?thesis by simp
next
  case (release q)
  with Release_ok [OF assms(2)] show ?thesis by blast
next
  case close_all
  with CloseAll_ok [OF assms(2)] show ?thesis by blast
next
  case (close_done c)
  with close_done_ok [OF assms(2)] show ?thesis by blast
next
  case (stray_done c)
  with stray_done_ok [OF assms(2)] show ?thesis by blast
qed

definition poolReachable :: "nat \<Rightarrow> 'c poolSystem \<Rightarrow> bool" where
  "poolReachable lim s \<longleftrightarrow> pool_step\<^sup>*\<^sup>* (newSystem lim) s"

lemma reachable_ok: "poolReachable lim s \<Longrightarrow> systemOK s"
  unfolding poolReachable_def by (induction rule: rtranclp_induct) (auto intro: newSystem_ok pool_step_ok)

end
