(* ===== verification/Pool_Live.thy ===== *)
theory Pool_Live
  imports Pool_Runs
begin

text \<open>
  What a call of \<^verbatim>\<open>Get\<close> gets: the connection it returns is the one the pool holds for its target,
  a release that lands in between is never missed, and every call comes to an end.
\<close>

section \<open>The connection a call came back with\<close>

definition returnedOK :: "'c poolSystem \<Rightarrow> bool" where
  "returnedOK s \<longleftrightarrow> (\<forall>c\<in>set (sy_calls s). \<forall>v. gc_phase c = Returned (Inr v) \<and> \<not> pl_closed (sy_pool s) \<longrightarrow>
     pe_prov (entry (sy_pool s) (gc_entry c)) = Some v)"

lemma returned_keeps:
  assumes "systemOK s" "returnedOK s" "keepsConns (sy_pool s) p" "pl_closed (sy_pool s) \<longrightarrow> pl_closed p"
  shows "returnedOK (s\<lparr>sy_pool := p\<rparr>)"
proof -
  have "pe_prov (entry p (gc_entry c)) = Some v"
    if c: "c \<in> set (sy_calls s)" "gc_phase c = Returned (Inr v)" "\<not> pl_closed p" for c v
  proof -
    have a: "activeCall c" using c(2) by (simp add: activeCall_def)
    have ok: "callsOK (sy_pool s) (sy_calls s)" "\<not> pl_closed (sy_pool s)" using assms(1,4) c(3) by (auto simp: systemOK_def)
    have "(gc_key c, gc_entry c) \<in> set (pl_conns (sy_pool s))" using ok c(1) a by (auto simp: callsOK_def)
    moreover have "pe_pending (entry (sy_pool s) (gc_entry c)) \<noteq> 0" using active_pending [OF ok(1) c(1) a] by simp
    moreover have "pe_prov (entry (sy_pool s) (gc_entry c)) = Some v" using assms(2) c ok(2) by (simp add: returnedOK_def)
    ultimately show ?thesis using assms(3) unfolding keepsConns_def by fastforce
  qed
  then show ?thesis by (auto simp: returnedOK_def)
qed

text \<open>A step of one call that leaves the connection of every entry but its own, and its own unless it had none.\<close>

lemma returned_call:
  assumes r: "returnedOK s" and i: "i < length (sy_calls s)"
    and p: "pl_closed (sy_pool s) \<longrightarrow> pl_closed p"
    and same: "\<And>b w. pe_prov (entry (sy_pool s) b) = Some w \<Longrightarrow> \<not> pl_closed p \<Longrightarrow> pe_prov (entry p b) = Some w"
    and new: "\<And>v. gc_phase c = Returned (Inr v) \<Longrightarrow> \<not> pl_closed p \<Longrightarrow> pe_prov (entry p (gc_entry c)) = Some v"
  shows "returnedOK (updCall i (c, p) s)"
  unfolding returnedOK_def
proof (intro ballI allI impI)
  fix d v assume d: "d \<in> set (sy_calls (updCall i (c, p) s))" "gc_phase d = Returned (Inr v) \<and> \<not> pl_closed (sy_pool (updCall i (c, p) s))"
  then have cl: "\<not> pl_closed p" by simp
  show "pe_prov (entry (sy_pool (updCall i (c, p) s)) (gc_entry d)) = Some v"
  proof (cases "d = c")
    case True
    with new [of v] d cl show ?thesis by simp
  next
    case False
    then have "d \<in> set (sy_calls s)" using set_update_other [of d "sy_calls s" i c] d by simp
    with r d p cl have "pe_prov (entry (sy_pool s) (gc_entry d)) = Some v" by (auto simp: returnedOK_def)
    with same cl show ?thesis by simp
  qed
qed

lemma returned_finished:
  assumes "systemOK s" "returnedOK s" "i < length (sy_calls s)" "gc_phase (sy_calls s ! i) = Returned res"
  shows "returnedOK (updCall i (bindGet (sy_calls s ! i) res (sy_pool s)) s)"
proof -
  let ?q = "bindGet (sy_calls s ! i) res (sy_pool s)"
  obtain p2 rs where b: "fst ?q = (sy_calls s ! i)\<lparr>gc_phase := Finished rs\<rparr>" "frame p2 (snd ?q)"
      "callsOK p2 (finish i rs (sy_calls s))" "\<And>b. pe_prov (entry p2 b) = pe_prov (entry (sy_pool s) b)"
    using bind_frame [OF assms(1,3,4)] unfolding bindFrame_def by blast
  have "pe_prov (entry (snd ?q) (gc_entry d)) = Some v"
    if d: "d \<in> set (finish i rs (sy_calls s))" "gc_phase d = Returned (Inr v)" "\<not> pl_closed (snd ?q)" for d v
  proof -
    have a: "activeCall d" using d(2) by (simp add: activeCall_def)
    have op: "\<not> pl_closed p2" using b(2) d(3) by (simp add: frame_def)
    have old: "d \<in> set (sy_calls s)" by (rule finish_active [OF d(1) a])
    have "\<not> pl_closed (sy_pool s)"
    proof
      assume "pl_closed (sy_pool s)"
      then have "pl_closed (snd ?q)" by (auto simp: bindGet_def endGetLocked_def Let_def split: option.splits if_splits)
      with d(3) show False by simp
    qed
    then have "pe_prov (entry p2 (gc_entry d)) = Some v" using assms(2) old d(2) b(4) by (simp add: returnedOK_def)
    moreover have "(gc_key d, gc_entry d) \<in> set (pl_conns p2)" using b(3) d(1) a op by (auto simp: callsOK_def)
    moreover have "pe_pending (entry p2 (gc_entry d)) \<noteq> 0" using active_pending [OF b(3) d(1) a] by simp
    ultimately show ?thesis using frame_keeps [OF b(2)] unfolding keepsConns_def by fastforce
  qed
  with b(1) show ?thesis by (simp add: returnedOK_def)
qed

lemma call_step_returned:
  assumes "call_step s s'" "systemOK s" "returnedOK s"
  shows "returnedOK s'"
  using assms(1)
proof (cases rule: call_step.cases)
  case (give_up i e)
  then show ?thesis unfolding give_up(1) by (intro returned_call [OF assms(3)]) simp_all
next
  case (take_turn i a)
  then show ?thesis
    unfolding take_turn(1) by (intro returned_call [OF assms(3)]) (simp_all add: nth_update_field [where f = pe_prov])
next
  case (look i)
  let ?c = "sy_calls s ! i" and ?p = "sy_pool s"
  let ?e = "(entry ?p (gc_entry ?c))\<lparr>pe_open := False\<rparr>"
  have "returnedOK (updCall i (fst (lookOpen ?c ?p), snd (lookOpen ?c ?p)) s)"
    by (rule returned_call [OF assms(3) look(2)])
      (auto simp: lookOpen_def Let_def nth_update_field [where f = pe_prov] split: option.splits if_splits)
  with look(1) show ?thesis by simp
next
  case (dial i res)
  let ?c = "sy_calls s ! i" and ?p = "sy_pool s"
  have c: "callsOK ?p (sy_calls s)" using assms(2) by (simp add: systemOK_def)
  have a: "gc_entry ?c < length (pl_entries ?p)" using c dial(2) by (simp add: callsOK_def)
  have none: "pe_prov (entry ?p (gc_entry ?c)) = None" if "\<not> pl_closed ?p" using c dial(2,3) that nth_mem by (simp add: callsOK_def)
  have other: "b \<noteq> gc_entry ?c" if "pe_prov (entry ?p b) = Some w" "\<not> pl_closed ?p" for b w using none that by auto
  have "returnedOK (updCall i (fst (openedConn ?c res ?p), snd (openedConn ?c res ?p)) s)"
  proof (rule returned_call [OF assms(3) dial(2)])
    show "pl_closed ?p \<longrightarrow> pl_closed (snd (openedConn ?c res ?p))"
      by (auto simp: openedConn_def Let_def split: sum.splits)
    have cl: "pl_closed (snd (openedConn ?c res ?p)) = pl_closed ?p" by (auto simp: openedConn_def Let_def split: sum.splits)
    show "pe_prov (entry (snd (openedConn ?c res ?p)) b) = Some w"
      if "pe_prov (entry ?p b) = Some w" "\<not> pl_closed (snd (openedConn ?c res ?p))" for b w
      using that other [OF that(1)] unfolding cl by (auto simp: openedConn_def Let_def split: sum.splits)
    show "pe_prov (entry (snd (openedConn ?c res ?p)) (gc_entry (fst (openedConn ?c res ?p)))) = Some v"
      if "gc_phase (fst (openedConn ?c res ?p)) = Returned (Inr v)" "\<not> pl_closed (snd (openedConn ?c res ?p))" for v
      using that a unfolding cl by (auto simp: openedConn_def Let_def split: sum.splits if_splits)
  qed
  with dial(1) show ?thesis by simp
next
  case (bind i res)
  with returned_finished [OF assms(2,3)] show ?thesis by blast
qed

lemma reserve_keeps:
  assumes "reserveGet q key name p = (Inr c, p')"
  shows "\<And>b. b < length (pl_entries p) \<Longrightarrow> pe_prov (entry p' b) = pe_prov (entry p b)" "\<not> pl_closed p"
    "gc_phase c = Queued" "gc_owner c = q" "gc_key c = key"
proof -
  show op: "\<not> pl_closed p" using assms by (auto simp: reserveGet_def split: if_splits)
  obtain a p1 where f: "findEntry key name p = (a, p1)" by fastforce
  let ?e = "(entry p1 a)\<lparr>pe_pending := pe_pending (entry p1 a) + 1\<rparr>"
  obtain gets before p3 where st: "startGetLocked q (setEntry a ?e p1) = ((gets, before), p3)" by (metis prod.collapse)
  have cp: "c = \<lparr>gc_owner = q, gc_key = key, gc_entry = a, gc_gets = gets, gc_before = before, gc_phase = Queued\<rparr>" "p' = p3"
    using assms op f st unfolding reserveGet_def findEntry_def [symmetric] by (simp_all add: Let_def)
  then show "gc_phase c = Queued" "gc_owner c = q" "gc_key c = key" by simp_all
  have "pl_entries p3 = pl_entries (setEntry a ?e p1)"
    using st by (auto simp: startGetLocked_def Let_def split: option.splits if_splits)
  moreover have "entry p1 b = entry p b" if "b < length (pl_entries p)" for b
    using f that by (auto simp: findEntry_def acquireLabelLocked_def Let_def nth_append split: option.splits)
  ultimately show "pe_prov (entry p' b) = pe_prov (entry p b)" if "b < length (pl_entries p)" for b
    using that by (simp add: cp nth_update_field [where f = pe_prov])
qed

lemma reserve_returned:
  assumes "systemOK s" "returnedOK s" "reserveGet q key name (sy_pool s) = (Inr c, p)"
  shows "returnedOK \<lparr>sy_pool = p, sy_calls = sy_calls s @ [c]\<rparr>"
proof -
  note k = reserve_keeps [OF assms(3)]
  have "gc_entry d < length (pl_entries (sy_pool s))" if "d \<in> set (sy_calls s)" for d
    using assms(1) that by (simp add: systemOK_def callsOK_def)
  with assms(2) k show ?thesis by (auto simp: returnedOK_def)
qed

lemma pool_step_returned:
  assumes "pool_step s s'" "systemOK s" "returnedOK s"
  shows "returnedOK s'"
  using assms(1)
proof (cases rule: pool_step.cases)
  case call
  with call_step_returned assms show ?thesis by blast
next
  case (start_get q k n c p)
  then have "reserveGet q k n (sy_pool s) = (Inr c, p)" by (simp add: Get_def split: if_splits)
  from reserve_returned [OF assms(2,3) this] start_get show ?thesis by simp
next
  case (start_pinned k n c p)
  then have "reserveGet noOwner k n (sy_pool s) = (Inr c, p)" by (simp add: GetPinned_def)
  from reserve_returned [OF assms(2,3) this] start_pinned show ?thesis by simp
next
  case (release q)
  have "pl_closed (Release q (sy_pool s)) = pl_closed (sy_pool s)" by (auto simp: Release_def Let_def split: option.splits)
  with release Release_ok [OF assms(2), of q] returned_keeps [OF assms(2,3)] show ?thesis by simp
next
  case close_all
  then show ?thesis by (simp add: returnedOK_def CloseAll_def removeAllLocked_closed)
next
  case (close_done c)
  then show ?thesis using assms(3) by (simp add: returnedOK_def)
next
  case (stray_done c)
  then show ?thesis using assms(3) by (simp add: returnedOK_def)
qed

lemma reachable_returned: "poolReachable lim s \<Longrightarrow> returnedOK s"
  unfolding poolReachable_def
proof (induction rule: rtranclp_induct)
  case base
  show ?case by (simp add: returnedOK_def newSystem_def)
next
  case (step s s')
  have "systemOK s" using step(1) reachable_ok by (simp add: poolReachable_def)
  with pool_step_returned step show ?case by blast
qed

section \<open>Releases are not missed\<close>

text \<open>
  A call that a release has overtaken: it is still going and the count of its owner's releases has
  moved since it started, or it ended without a connection.
\<close>

definition overtakenCall :: "'c poolSystem \<Rightarrow> nat \<Rightarrow> bool" where
  "overtakenCall s i \<longleftrightarrow> i < length (sy_calls s) \<and>
     (case gc_phase (sy_calls s ! i) of
        Finished r \<Rightarrow> r \<in> {Inl (Sentinel ErrOwnerReleased), Inl (Sentinel ErrPoolClosed)}
      | _ \<Rightarrow> \<exists>g. gc_gets (sy_calls s ! i) = Some g \<and> g < length (pl_gets (sy_pool s)) \<and>
              gc_before (sy_calls s ! i) < og_releases (pl_gets (sy_pool s) ! g))"

definition getsGrow :: "'c Pool \<Rightarrow> 'c Pool \<Rightarrow> bool" where
  "getsGrow p p' \<longleftrightarrow> length (pl_gets p) \<le> length (pl_gets p') \<and>
     (\<forall>g<length (pl_gets p). og_releases (pl_gets p ! g) \<le> og_releases (pl_gets p' ! g))"

lemma getsGrow_same [simp]: "pl_gets p' = pl_gets p \<Longrightarrow> getsGrow p p'"
  by (simp add: getsGrow_def)

lemma getsGrow_trans: "getsGrow p p1 \<Longrightarrow> getsGrow p1 p2 \<Longrightarrow> getsGrow p p2"
  unfolding getsGrow_def by (metis order.trans order.strict_trans2)

lemma getsGrow_update:
  "og_releases (pl_gets p ! g) \<le> og_releases og \<Longrightarrow> pl_gets p' = (pl_gets p)[g := og] \<Longrightarrow> getsGrow p p'"
  unfolding getsGrow_def by (metis length_list_update nth_list_update_eq nth_list_update_neq order.refl)

lemma overtaken_other:
  assumes "overtakenCall s i" "getsGrow (sy_pool s) (sy_pool s')" "i < length (sy_calls s')"
    "sy_calls s' ! i = sy_calls s ! i"
  shows "overtakenCall s' i"
  using assms unfolding overtakenCall_def getsGrow_def by (auto split: phase.splits)

text \<open>The calls the steps change: at most one, and never its owner, its target or what it counted.\<close>

lemma phase_moves:
  assumes "overtakenCall s i" "activeCall (sy_calls s ! i)" "activeCall c" "pl_gets p = pl_gets (sy_pool s)"
    "gc_gets c = gc_gets (sy_calls s ! i)" "gc_before c = gc_before (sy_calls s ! i)"
  shows "overtakenCall (updCall i (c, p) s) i"
  using assms unfolding overtakenCall_def by (auto simp: activeCall_def split: phase.splits)

lemma call_moves:
  assumes o: "overtakenCall s i" and j: "j < length (sy_calls s)" "activeCall (sy_calls s ! j)"
    and g: "getsGrow (sy_pool s) p"
    and own: "j = i \<Longrightarrow> overtakenCall (updCall i (c, p) s) i"
  shows "overtakenCall (updCall j (c, p) s) i"
proof (cases "j = i")
  case False
  then show ?thesis using o by (intro overtaken_other [OF o]) (simp_all add: g overtakenCall_def)
qed (use own in simp)

lemma active_moves:
  assumes "overtakenCall s i" "j < length (sy_calls s)" "activeCall (sy_calls s ! j)" "activeCall c"
    "pl_gets p = pl_gets (sy_pool s)" "gc_gets c = gc_gets (sy_calls s ! j)" "gc_before c = gc_before (sy_calls s ! j)"
  shows "overtakenCall (updCall j (c, p) s) i"
  by (rule call_moves [OF assms(1,2,3)]) (use assms phase_moves [OF assms(1)] in simp_all)

lemma endGetLocked_grow:
  assumes "endGetLocked q gets before p = (ov, p')"
  shows "getsGrow p p'"
proof (cases gets)
  case None
  with assms show ?thesis by (simp add: endGetLocked_def)
next
  case (Some g)
  with assms have "pl_gets p' = (pl_gets p)[g := (pl_gets p ! g)\<lparr>og_inFlight := og_inFlight (pl_gets p ! g) - 1\<rparr>]"
    by (auto simp: endGetLocked_def Let_def split: if_splits)
  then show ?thesis by (rule getsGrow_update [rotated]) simp
qed

lemma bindLocked_gets [simp]: "pl_gets (bindLocked q key a p) = pl_gets p"
  by (auto simp: bindLocked_def unbindLocked_def Let_def split: option.splits)

lemma bindGet_grow: "getsGrow p (snd (bindGet c res p))"
proof -
  let ?e = "(entry p (gc_entry c))\<lparr>pe_pending := pe_pending (entry p (gc_entry c)) - 1\<rparr>"
  obtain ov p2 where e: "endGetLocked (gc_owner c) (gc_gets c) (gc_before c) (setEntry (gc_entry c) ?e p) = (ov, p2)" by fastforce
  have "pl_gets (snd (bindGet c res p)) = pl_gets p2" using e by (simp add: bindGet_def Let_def)
  with getsGrow_trans [OF getsGrow_same endGetLocked_grow [OF e], of p] getsGrow_trans [OF _ getsGrow_same] show ?thesis by simp
qed

lemma bind_overtaken:
  assumes s: "systemOK s" and o: "overtakenCall s i" and ph: "gc_phase (sy_calls s ! i) = Returned res"
  shows "overtakenCall (updCall i (bindGet (sy_calls s ! i) res (sy_pool s)) s) i"
proof -
  let ?c = "sy_calls s ! i" and ?p = "sy_pool s"
  let ?p1 = "setEntry (gc_entry ?c) ((entry ?p (gc_entry ?c))\<lparr>pe_pending := pe_pending (entry ?p (gc_entry ?c)) - 1\<rparr>) ?p"
  have i: "i < length (sy_calls s)" and act: "activeCall ?c" using o ph by (simp_all add: overtakenCall_def activeCall_def)
  obtain ov p2 where e: "endGetLocked (gc_owner ?c) (gc_gets ?c) (gc_before ?c) ?p1 = (ov, p2)" by fastforce
  have "gettingOK ?p1 (sy_calls s)" using s gettingOK_same [of ?p1 ?p] by (simp add: systemOK_def)
  from endGetLocked_ok(2) [OF this i act e] have ov using o ph by (auto simp: overtakenCall_def)
  then have "gc_phase (fst (bindGet ?c res ?p)) \<in> {Finished (Inl (Sentinel ErrOwnerReleased)), Finished (Inl (Sentinel ErrPoolClosed))}"
    using e by (simp add: bindGet_def Let_def)
  with i show ?thesis by (auto simp: overtakenCall_def)
qed

lemma call_step_overtaken:
  assumes "call_step s s'" "systemOK s" "overtakenCall s i"
  shows "overtakenCall s' i"
  using assms(1)
proof (cases rule: call_step.cases)
  case (give_up j e)
  then show ?thesis
    unfolding give_up(1) by (intro active_moves [OF assms(3)]) (simp_all add: activeCall_def)
next
  case (take_turn j a)
  then show ?thesis
    unfolding take_turn(1) by (intro active_moves [OF assms(3)]) (simp_all add: activeCall_def)
next
  case (look j)
  let ?q = "lookOpen (sy_calls s ! j) (sy_pool s)"
  have "pl_gets (snd ?q) = pl_gets (sy_pool s)" "activeCall (fst ?q)" "gc_gets (fst ?q) = gc_gets (sy_calls s ! j)"
    "gc_before (fst ?q) = gc_before (sy_calls s ! j)"
    by (auto simp: lookOpen_def Let_def activeCall_def split: option.splits)
  then have "overtakenCall (updCall j (fst ?q, snd ?q) s) i" using look
    by (intro active_moves [OF assms(3)]) (simp_all add: activeCall_def)
  with look(1) show ?thesis by simp
next
  case (dial j res)
  let ?q = "openedConn (sy_calls s ! j) res (sy_pool s)"
  have "pl_gets (snd ?q) = pl_gets (sy_pool s)" "activeCall (fst ?q)" "gc_gets (fst ?q) = gc_gets (sy_calls s ! j)"
    "gc_before (fst ?q) = gc_before (sy_calls s ! j)"
    by (auto simp: openedConn_def Let_def activeCall_def split: sum.splits)
  then have "overtakenCall (updCall j (fst ?q, snd ?q) s) i" using dial
    by (intro active_moves [OF assms(3)]) (simp_all add: activeCall_def)
  with dial(1) show ?thesis by simp
next
  case (bind j res)
  let ?q = "bindGet (sy_calls s ! j) res (sy_pool s)"
  have "overtakenCall (updCall j (fst ?q, snd ?q) s) i"
    using bind bind_overtaken [OF assms(2,3)] bindGet_grow [of "sy_pool s"]
    by (intro call_moves [OF assms(3), of j]) (simp_all add: activeCall_def)
  with bind(1) show ?thesis by simp
qed

lemma startGetLocked_grow:
  assumes "startGetLocked q p = (r, p')"
  shows "getsGrow p p'"
proof (cases "q = noOwner")
  case True
  with assms show ?thesis by (simp add: startGetLocked_def)
next
  case False
  show ?thesis
  proof (cases "pl_getting p q")
    case None
    with assms False have "pl_gets p' = (pl_gets p @ [\<lparr>og_inFlight = 0, og_releases = 0\<rparr>])[length (pl_gets p) := \<lparr>og_inFlight = 1, og_releases = 0\<rparr>]"
      by (auto simp: startGetLocked_def)
    then show ?thesis by (simp add: getsGrow_def nth_append)
  next
    case (Some g)
    with assms False have "pl_gets p' = (pl_gets p)[g := (pl_gets p ! g)\<lparr>og_inFlight := og_inFlight (pl_gets p ! g) + 1\<rparr>]"
      by (auto simp: startGetLocked_def Let_def)
    then show ?thesis by (rule getsGrow_update [rotated]) simp
  qed
qed

lemma reserve_grow:
  assumes "reserveGet q key name p = (Inr c, p')"
  shows "getsGrow p p'"
proof -
  obtain a p1 where f: "findEntry key name p = (a, p1)" by fastforce
  let ?p2 = "setEntry a ((entry p1 a)\<lparr>pe_pending := pe_pending (entry p1 a) + 1\<rparr>) p1"
  obtain r p3 where st: "startGetLocked q ?p2 = (r, p3)" by fastforce
  have "p' = p3" using assms f st unfolding reserveGet_def findEntry_def [symmetric]
    by (auto simp: Let_def split: if_splits prod.splits)
  moreover have "pl_gets ?p2 = pl_gets p"
    using f by (auto simp: findEntry_def acquireLabelLocked_def Let_def split: option.splits)
  ultimately show ?thesis using getsGrow_trans [OF getsGrow_same startGetLocked_grow [OF st], of p] by simp
qed

lemma unbindLocked_gets [simp]: "pl_gets (unbindLocked q key p) = pl_gets p"
  by (auto simp: unbindLocked_def Let_def split: option.splits)

lemma Release_gets:
  "pl_gets (Release q p) = (case pl_getting p q of None \<Rightarrow> pl_gets p
     | Some g \<Rightarrow> (pl_gets p)[g := (pl_gets p ! g)\<lparr>og_releases := og_releases (pl_gets p ! g) + 1\<rparr>])"
  by (auto simp: Release_def Let_def split: option.splits)

lemma Release_grow: "getsGrow p (Release q p)"
proof (cases "pl_getting p q")
  case None
  then show ?thesis using Release_gets [of q p] by simp
next
  case (Some g)
  then show ?thesis using Release_gets [of q p] by (intro getsGrow_update [of p g]) simp_all
qed

lemma removeAllLocked_gets [simp]: "pl_gets (removeAllLocked cs p) = pl_gets p"
proof (induction cs arbitrary: p)
  case (Cons x cs)
  then show ?case by (cases x) simp
qed simp

lemma pool_step_overtaken:
  assumes "pool_step s s'" "systemOK s" "overtakenCall s i"
  shows "overtakenCall s' i"
proof -
  have i: "i < length (sy_calls s)" using assms(3) by (simp add: overtakenCall_def)
  from assms(1) show ?thesis
  proof (cases rule: pool_step.cases)
    case call
    with call_step_overtaken assms show ?thesis by blast
  next
    case (start_get q k n c p)
    then have "reserveGet q k n (sy_pool s) = (Inr c, p)" by (simp add: Get_def split: if_splits)
    from reserve_grow [OF this] start_get i show ?thesis by (intro overtaken_other [OF assms(3)]) (simp_all add: nth_append)
  next
    case (start_pinned k n c p)
    then have "reserveGet noOwner k n (sy_pool s) = (Inr c, p)" by (simp add: GetPinned_def)
    from reserve_grow [OF this] start_pinned i show ?thesis by (intro overtaken_other [OF assms(3)]) (simp_all add: nth_append)
  next
    case (release q)
    with i show ?thesis by (intro overtaken_other [OF assms(3)]) (simp_all add: Release_grow)
  next
    case close_all
    with i show ?thesis by (intro overtaken_other [OF assms(3)]) (simp_all add: CloseAll_def)
  next
    case (close_done c)
    with i show ?thesis by (intro overtaken_other [OF assms(3)]) simp_all
  next
    case (stray_done c)
    with i show ?thesis by (intro overtaken_other [OF assms(3)]) simp_all
  qed
qed

lemma run_overtaken:
  assumes "pool_step\<^sup>*\<^sup>* s s'" "systemOK s" "overtakenCall s i"
  shows "systemOK s' \<and> overtakenCall s' i"
  using assms by (induction rule: rtranclp_induct) (auto intro: pool_step_ok pool_step_overtaken)

text \<open>A release overtakes every call of its owner that is not finished.\<close>

lemma Release_overtakes:
  assumes s: "systemOK s" and i: "i < length (sy_calls s)" "activeCall (sy_calls s ! i)" "gc_owner (sy_calls s ! i) = q" "q \<noteq> noOwner"
  shows "overtakenCall (s\<lparr>sy_pool := Release q (sy_pool s)\<rparr>) i"
proof -
  have g: "gettingOK (sy_pool s) (sy_calls s)" using s by (simp add: systemOK_def)
  obtain m where m: "gc_gets (sy_calls s ! i) = Some m" "pl_getting (sy_pool s) q = Some m"
      "gc_before (sy_calls s ! i) \<le> og_releases (pl_gets (sy_pool s) ! m)"
    using gettingCallD [OF g nth_mem [OF i(1)] i(2)] i(3,4) by auto
  have "m < length (pl_gets (sy_pool s))" by (rule gettingD(1) [OF g m(2)])
  then have "\<exists>g. gc_gets (sy_calls s ! i) = Some g \<and> g < length (pl_gets (Release q (sy_pool s))) \<and>
      gc_before (sy_calls s ! i) < og_releases (pl_gets (Release q (sy_pool s)) ! g)"
    using m by (simp add: Release_gets)
  with i show ?thesis by (auto simp: overtakenCall_def activeCall_def split: phase.splits)
qed

section \<open>Calls come to an end\<close>

fun phaseRank :: "'c phase \<Rightarrow> nat" where
  "phaseRank Queued = 4"
| "phaseRank Holding = 3"
| "phaseRank Dialling = 2"
| "phaseRank (Returned _) = 1"
| "phaseRank (Finished _) = 0"

definition workLeft :: "'c poolSystem \<Rightarrow> nat" where
  "workLeft s = (\<Sum>c\<leftarrow>sy_calls s. phaseRank (gc_phase c))"

lemma workLeft_update:
  assumes "i < length (sy_calls s)" "phaseRank (gc_phase c) < phaseRank (gc_phase (sy_calls s ! i))"
  shows "workLeft (updCall i (c, p) s) < workLeft s"
proof -
  let ?f = "\<lambda>c. phaseRank (gc_phase c)"
  have "sum_list ((map ?f (sy_calls s))[i := ?f c]) = sum_list (map ?f (sy_calls s)) + ?f c - map ?f (sy_calls s) ! i"
    using assms(1) by (intro sum_list_update) simp
  moreover have "map ?f (sy_calls s) ! i \<le> sum_list (map ?f (sy_calls s))" using assms(1) by (intro elem_le_sum_list) simp
  ultimately show ?thesis using assms by (simp add: workLeft_def map_update)
qed

lemma call_step_work:
  assumes "call_step s s'"
  shows "workLeft s' < workLeft s"
  using assms
proof (cases rule: call_step.cases)
  case (give_up i e)
  then show ?thesis unfolding give_up(1) by (intro workLeft_update) simp_all
next
  case (take_turn i a)
  then show ?thesis unfolding take_turn(1) by (intro workLeft_update) simp_all
next
  case (look i)
  let ?q = "lookOpen (sy_calls s ! i) (sy_pool s)"
  have "workLeft (updCall i (fst ?q, snd ?q) s) < workLeft s"
    using look by (intro workLeft_update) (auto simp: lookOpen_def Let_def split: option.splits)
  with look(1) show ?thesis by simp
next
  case (dial i res)
  let ?q = "openedConn (sy_calls s ! i) res (sy_pool s)"
  have "workLeft (updCall i (fst ?q, snd ?q) s) < workLeft s"
    using dial by (intro workLeft_update) (auto simp: openedConn_def Let_def split: sum.splits)
  with dial(1) show ?thesis by simp
next
  case (bind i res)
  let ?q = "bindGet (sy_calls s ! i) res (sy_pool s)"
  have "workLeft (updCall i (fst ?q, snd ?q) s) < workLeft s"
    using bind by (intro workLeft_update) (auto simp: bindGet_def Let_def split: prod.splits)
  with bind(1) show ?thesis by simp
qed

lemma call_steps_work: "(call_step ^^ n) s s' \<Longrightarrow> n + workLeft s' \<le> workLeft s"
proof (induction n arbitrary: s')
  case (Suc n)
  then obtain t where "(call_step ^^ n) s t" "call_step t s'" by auto
  with Suc.IH [of t] call_step_work [of t s'] show ?case by simp
qed simp

lemma workLeft_bound: "workLeft s \<le> 4 * length (sy_calls s)"
proof -
  have "phaseRank ph \<le> 4" for ph :: "'a phase" by (cases ph) simp_all
  then have "sum_list (map (\<lambda>c. phaseRank (gc_phase c)) cs) \<le> 4 * length cs" for cs :: "'a getCall list"
    by (induction cs) (simp_all add: add_mono)
  then show ?thesis by (simp add: workLeft_def)
qed

text \<open>A step of a call, other than giving up its place in the queue because its context ended.\<close>

definition patient_step :: "'c poolSystem \<Rightarrow> 'c poolSystem \<Rightarrow> bool" where
  "patient_step s s' \<longleftrightarrow> call_step s s' \<and>
     (\<forall>i<length (sy_calls s). gc_phase (sy_calls s ! i) = Queued \<longrightarrow> gc_phase (sy_calls s' ! i) \<in> {Queued, Holding})"

lemma patient_moves:
  assumes "call_step s (updCall i q s)" "i < length (sy_calls s)" "gc_phase (sy_calls s ! i) = Queued \<longrightarrow> gc_phase (fst q) = Holding"
  shows "patient_step s (updCall i q s)"
  unfolding patient_step_def
proof (intro conjI assms(1) allI impI)
  fix j assume "j < length (sy_calls s)" "gc_phase (sy_calls s ! j) = Queued"
  then show "gc_phase (sy_calls (updCall i q s) ! j) \<in> {Queued, Holding}" using assms(2,3) by (cases "j = i") simp_all
qed

lemma holder_enabled:
  assumes "i < length (sy_calls s)" "activeCall (sy_calls s ! i)" "gc_phase (sy_calls s ! i) \<noteq> Queued"
  shows "\<exists>s'. patient_step s s'"
proof (cases "gc_phase (sy_calls s ! i)")
  case Holding
  show ?thesis using patient_moves [OF call_step.look [OF assms(1) Holding] assms(1)] Holding by auto
next
  case Dialling
  have "call_step s (updCall i (openedConn (sy_calls s ! i) (Inl (Sentinel ContextDeadlineExceeded)) (sy_pool s)) s)"
    by (rule call_step.dial [OF assms(1) Dialling]) simp
  from patient_moves [OF this assms(1)] Dialling show ?thesis by auto
next
  case (Returned r)
  show ?thesis using patient_moves [OF call_step.bind [OF assms(1) Returned] assms(1)] Returned by auto
qed (use assms in \<open>auto simp: activeCall_def\<close>)

lemma patient_progress:
  assumes s: "systemOK s" and c: "c \<in> set (sy_calls s)" "activeCall c"
  shows "\<exists>s'. patient_step s s'"
proof -
  obtain i where i: "i < length (sy_calls s)" "sy_calls s ! i = c" using c(1) by (auto simp: in_set_conv_nth)
  show ?thesis
  proof (cases "gc_phase c = Queued")
    case False
    with holder_enabled i c show ?thesis by blast
  next
    case True
    let ?a = "gc_entry c"
    have ok: "callsOK (sy_pool s) (sy_calls s)" using s by (simp add: systemOK_def)
    have a: "?a < length (pl_entries (sy_pool s))" using ok c(1) by (simp add: callsOK_def)
    show ?thesis
    proof (cases "pe_open (entry (sy_pool s) ?a)")
      case False
      with call_step.take_turn [OF i(1), of ?a] i True
      have "call_step s (updCall i (c\<lparr>gc_phase := Holding\<rparr>,
          setEntry ?a ((entry (sy_pool s) ?a)\<lparr>pe_open := True\<rparr>) (sy_pool s)) s)" by simp
      from patient_moves [OF this i(1)] show ?thesis by auto
    next
      case True
      then have "cnt (\<lambda>c. holding c \<and> gc_entry c = ?a) (sy_calls s) = 1" using ok a by (simp add: callsOK_def)
      then obtain d where "d \<in> set (sy_calls s)" "holding d" using cnt_zero_iff [of "\<lambda>c. holding c \<and> gc_entry c = ?a" "sy_calls s"] by auto
      then obtain j where "j < length (sy_calls s)" "holding (sy_calls s ! j)" by (auto simp: in_set_conv_nth)
      then show ?thesis by (intro holder_enabled [of j]) (auto simp: holding_def activeCall_def split: phase.splits)
    qed
  qed
qed

end
