(* ===== verification/Pool_Props.thy ===== *)
theory Pool_Props
  imports Pool_Live
begin

text \<open>The properties of the connection pool, over every reachable state of its concurrent calls.\<close>

section \<open>A run to look at\<close>

text \<open>One machine gets the connection of one hypervisor: reserved, its turn, the look, the dial, bound.\<close>

definition demoOwner :: Owner where
  "demoOwner = \<lparr>own_kind = ''HydraMachine'', own_namespace = ''ns'', own_name = ''m''\<rparr>"

definition demoGet :: "(goerr + int getCall) \<times> int Pool" where
  "demoGet = Get demoOwner ''k'' ''h'' (newPool 0)"

definition demoReserved :: "int poolSystem" where
  "demoReserved = (case demoGet of (Inr c, p) \<Rightarrow> \<lparr>sy_pool = p, sy_calls = [c]\<rparr> | _ \<Rightarrow> newSystem 0)"

definition demoHolding :: "int poolSystem" where
  "demoHolding = updCall 0 ((sy_calls demoReserved ! 0)\<lparr>gc_phase := Holding\<rparr>,
     setEntry 0 ((entry (sy_pool demoReserved) 0)\<lparr>pe_open := True\<rparr>) (sy_pool demoReserved)) demoReserved"

definition demoDialling :: "int poolSystem" where
  "demoDialling = updCall 0 (lookOpen (sy_calls demoHolding ! 0) (sy_pool demoHolding)) demoHolding"

definition demoReturned :: "int poolSystem" where
  "demoReturned = updCall 0 (openedConn (sy_calls demoDialling ! 0) (Inr (7, True)) (sy_pool demoDialling)) demoDialling"

definition demoBound :: "int poolSystem" where
  "demoBound = updCall 0 (bindGet (sy_calls demoReturned ! 0) (Inr 7) (sy_pool demoReturned)) demoReturned"

definition demoClosed :: "int poolSystem" where
  "demoClosed = demoBound\<lparr>sy_pool := CloseAll (sy_pool demoBound)\<rparr>"

lemma demoReserved_val: "demoReserved = \<lparr>
  sy_pool = \<lparr>pl_conns = [(''k'', 0)], pl_owners = Map.empty, pl_labels = [(''h'', 1)], pl_closed = False,
     pl_getting = [demoOwner \<mapsto> 0], pl_closes = 0, pl_labelLimit = 0,
     pl_entries = [\<lparr>pe_name = ''h'', pe_label = ''h'', pe_open = False, pe_prov = None, pe_release = None,
       pe_owners = [], pe_pinned = False, pe_pending = 1\<rparr>],
     pl_gets = [\<lparr>og_inFlight = 1, og_releases = 0\<rparr>],
     pl_gauge = 0, pl_closing = [], pl_stray = [], pl_opened = [], pl_done = []\<rparr>,
  sy_calls = [\<lparr>gc_owner = demoOwner, gc_key = ''k'', gc_entry = 0, gc_gets = Some 0, gc_before = 0, gc_phase = Queued\<rparr>]\<rparr>"
  by (simp add: demoReserved_def demoGet_def Get_def reserveGet_def newPool_def acquireLabelLocked_def labelCount_def
      namedLabelsLocked_def limit_def maxHypervisorLabels_def setEntry_def startGetLocked_def demoOwner_def noOwner_def Let_def)

lemma demoReturned_val: "demoReturned = \<lparr>
  sy_pool = \<lparr>pl_conns = [(''k'', 0)], pl_owners = Map.empty, pl_labels = [(''h'', 1)], pl_closed = False,
     pl_getting = [demoOwner \<mapsto> 0], pl_closes = 0, pl_labelLimit = 0,
     pl_entries = [\<lparr>pe_name = ''h'', pe_label = ''h'', pe_open = False, pe_prov = Some 7, pe_release = Some 7,
       pe_owners = [], pe_pinned = False, pe_pending = 1\<rparr>],
     pl_gets = [\<lparr>og_inFlight = 1, og_releases = 0\<rparr>],
     pl_gauge = 1, pl_closing = [], pl_stray = [], pl_opened = [7], pl_done = []\<rparr>,
  sy_calls = [\<lparr>gc_owner = demoOwner, gc_key = ''k'', gc_entry = 0, gc_gets = Some 0, gc_before = 0,
     gc_phase = Returned (Inr 7)\<rparr>]\<rparr>"
  by (simp add: demoReturned_def demoDialling_def demoHolding_def demoReserved_val lookOpen_def openedConn_def setEntry_def Let_def)

lemma demoBound_val: "demoBound = \<lparr>
  sy_pool = \<lparr>pl_conns = [(''k'', 0)], pl_owners = [demoOwner \<mapsto> ''k''], pl_labels = [(''h'', 1)], pl_closed = False,
     pl_getting = Map.empty, pl_closes = 0, pl_labelLimit = 0,
     pl_entries = [\<lparr>pe_name = ''h'', pe_label = ''h'', pe_open = False, pe_prov = Some 7, pe_release = Some 7,
       pe_owners = [demoOwner], pe_pinned = False, pe_pending = 0\<rparr>],
     pl_gets = [\<lparr>og_inFlight = 0, og_releases = 0\<rparr>],
     pl_gauge = 1, pl_closing = [], pl_stray = [], pl_opened = [7], pl_done = []\<rparr>,
  sy_calls = [\<lparr>gc_owner = demoOwner, gc_key = ''k'', gc_entry = 0, gc_gets = Some 0, gc_before = 0,
     gc_phase = Finished (Inr 7)\<rparr>]\<rparr>"
  by (simp add: demoBound_def demoReturned_val bindGet_def endGetLocked_def bindLocked_def setEntry_def Let_def
      demoOwner_def noOwner_def List.insert_def)

lemma demo_steps:
  "pool_step (newSystem 0) demoReserved" "call_step demoReserved demoHolding" "call_step demoHolding demoDialling"
  "call_step demoDialling demoReturned" "call_step demoReturned demoBound" "pool_step demoBound demoClosed"
proof -
  have g: "Get demoOwner ''k'' ''h'' (sy_pool (newSystem 0)) = (Inr (sy_calls demoReserved ! 0), sy_pool demoReserved)"
    by (simp add: demoReserved_val newSystem_def Get_def reserveGet_def newPool_def acquireLabelLocked_def labelCount_def
        namedLabelsLocked_def limit_def maxHypervisorLabels_def setEntry_def startGetLocked_def demoOwner_def noOwner_def Let_def)
  have "demoReserved = \<lparr>sy_pool = sy_pool demoReserved, sy_calls = sy_calls (newSystem 0) @ [sy_calls demoReserved ! 0]\<rparr>"
    by (simp add: demoReserved_val newSystem_def)
  with pool_step.start_get [OF g] show "pool_step (newSystem 0) demoReserved" by metis
  show "call_step demoReserved demoHolding"
    unfolding demoHolding_def by (rule call_step.take_turn) (simp_all add: demoReserved_val)
  show "call_step demoHolding demoDialling"
    unfolding demoDialling_def by (rule call_step.look) (simp_all add: demoHolding_def demoReserved_val)
  show "call_step demoDialling demoReturned"
    unfolding demoReturned_def
    by (rule call_step.dial) (simp_all add: demoDialling_def demoHolding_def demoReserved_val lookOpen_def setEntry_def Let_def)
  show "call_step demoReturned demoBound"
    unfolding demoBound_def by (rule call_step.bind) (simp_all add: demoReturned_val)
  show "pool_step demoBound demoClosed" unfolding demoClosed_def by (rule pool_step.close_all)
qed

lemma demo_reachable:
  "poolReachable 0 demoReserved" "poolReachable 0 demoHolding" "poolReachable 0 demoDialling"
  "poolReachable 0 demoReturned" "poolReachable 0 demoBound" "poolReachable 0 demoClosed"
proof -
  note st = demo_steps(1) pool_step.call [OF demo_steps(2)] pool_step.call [OF demo_steps(3)]
    pool_step.call [OF demo_steps(4)] pool_step.call [OF demo_steps(5)] demo_steps(6)
  show r: "poolReachable 0 demoReserved" using st(1) by (auto simp: poolReachable_def)
  show h: "poolReachable 0 demoHolding" using r st(2) by (auto simp: poolReachable_def intro: rtranclp.rtrancl_into_rtrancl)
  show d: "poolReachable 0 demoDialling" using h st(3) by (auto simp: poolReachable_def intro: rtranclp.rtrancl_into_rtrancl)
  show t: "poolReachable 0 demoReturned" using d st(4) by (auto simp: poolReachable_def intro: rtranclp.rtrancl_into_rtrancl)
  show b: "poolReachable 0 demoBound" using t st(5) by (auto simp: poolReachable_def intro: rtranclp.rtrancl_into_rtrancl)
  show "poolReachable 0 demoClosed" using b st(6) by (auto simp: poolReachable_def intro: rtranclp.rtrancl_into_rtrancl)
qed

section \<open>Connections\<close>

text \<open>
  C24: whatever the calls, releases and shutdowns do and however they interleave, every connection
  that was opened and can be closed is accounted for exactly once: in an entry of the pool, being
  closed in the background, or closed. The \<^verbatim>\<open>WaitGroup\<close> counts exactly the closes in progress,
  and the gauge exactly the entries that have a connection.
\<close>

theorem pool_accounts_for_connections:
  assumes "poolReachable lim s"
  shows "mset (pl_opened (sy_pool s)) = heldConns (sy_pool s) + mset (pl_closing (sy_pool s))
       + mset (pl_stray (sy_pool s)) + mset (pl_done (sy_pool s))
    \<and> distinct (pl_opened (sy_pool s))
    \<and> pl_closes (sy_pool s) = int (length (pl_closing (sy_pool s)))
    \<and> pl_gauge (sy_pool s) = int (length (filter (\<lambda>x. pe_prov (entry (sy_pool s) (snd x)) \<noteq> None) (pl_conns (sy_pool s))))"
proof -
  have c: "connsOK (sy_pool s)" using reachable_ok [OF assms] by (simp add: systemOK_def poolOK_def)
  have "tally (\<lambda>e. of_bool (pe_prov e \<noteq> None)) (pl_entries (sy_pool s)) cs
      = int (length (filter (\<lambda>x. pe_prov (entry (sy_pool s) (snd x)) \<noteq> None) cs))" for cs by (induction cs) auto
  then show ?thesis using c by (simp add: connsOK_def)
qed

lemma pool_accounts_for_connections_witness:
  "mset (pl_opened (sy_pool demoClosed)) = heldConns (sy_pool demoClosed) + mset (pl_closing (sy_pool demoClosed))
       + mset (pl_stray (sy_pool demoClosed)) + mset (pl_done (sy_pool demoClosed))
   \<and> pl_opened (sy_pool demoClosed) = [7] \<and> pl_closes (sy_pool demoClosed) = 1"
  using pool_accounts_for_connections [OF demo_reachable(6)]
  by (simp add: demoClosed_def demoBound_val CloseAll_def removeLocked_def setEntry_def Let_def)

text \<open>An entry's connection is not being closed, nor closed.\<close>

lemma held_not_closed:
  assumes "connsOK p" "(k, a) \<in> set (pl_conns p)" "pe_release (entry p a) = Some c"
  shows "c \<notin> set (pl_closing p) \<union> set (pl_stray p) \<union> set (pl_done p)"
proof -
  have "c \<in># tally (\<lambda>e. case pe_release e of None \<Rightarrow> {#} | Some c \<Rightarrow> {#c#}) (pl_entries p) ys"
    if "(k, a) \<in> set ys" for ys using that assms(3) by (induction ys) auto
  then have "0 < count (heldConns p) c" using assms(2) by (simp add: heldConns_def)
  moreover have "mset (pl_opened p) = heldConns p + mset (pl_closing p) + mset (pl_stray p) + mset (pl_done p)"
    and "distinct (pl_opened p)" using assms(1) by (simp_all add: connsOK_def)
  then have "count (heldConns p) c + count (mset (pl_closing p) + mset (pl_stray p) + mset (pl_done p)) c \<le> 1"
    by (metis add.assoc count_union distinct_count_atmost_1 nle_le zero_le_one)
  ultimately have "count (mset (pl_closing p) + mset (pl_stray p) + mset (pl_done p)) c = 0" by linarith
  then show ?thesis by (simp add: count_eq_zero_iff)
qed

lemma endGetLocked_pool:
  "endGetLocked q gets before p = (ov, p2) \<Longrightarrow> pl_conns p2 = pl_conns p \<and> pl_closed p2 = pl_closed p
     \<and> pl_entries p2 = pl_entries p \<and> pl_owners p2 = pl_owners p"
  by (auto simp: endGetLocked_def Let_def split: option.splits if_splits)

lemma bindLocked_binds:
  assumes "(key, a) \<in> set (pl_conns p)" "a < length (pl_entries p)"
  shows "if q = noOwner then (key, a) \<in> set (pl_conns (bindLocked q key a p)) \<and> pe_pinned (entry (bindLocked q key a p) a)
    else pl_owners (bindLocked q key a p) q = Some key"
  using assms by (auto simp: bindLocked_def Let_def split: option.splits)

text \<open>
  C25: when \<^verbatim>\<open>Get\<close> hands out a connection, the pool holds that very connection for the target, its
  owner is bound to it (or it is pinned), and nobody is closing it or has closed it.
\<close>

theorem get_returns_pooled_connection:
  assumes "poolReachable lim s" "i < length (sy_calls s)" "gc_phase (sy_calls s ! i) = Returned (Inr v)"
    and "bindGet (sy_calls s ! i) (Inr v) (sy_pool s) = (c', p')" "gc_phase c' = Finished (Inr v)"
  shows "\<exists>a. (gc_key c', a) \<in> set (pl_conns p') \<and> pe_prov (entry p' a) = Some v
    \<and> (if gc_owner c' = noOwner then pe_pinned (entry p' a) else pl_owners p' (gc_owner c') = Some (gc_key c'))
    \<and> pe_release (entry p' a) \<in> {None, Some v}
    \<and> (pe_release (entry p' a) = Some v \<longrightarrow> v \<notin> set (pl_closing p') \<union> set (pl_stray p') \<union> set (pl_done p'))"
proof -
  let ?c = "sy_calls s ! i" and ?p = "sy_pool s"
  let ?a = "gc_entry ?c" and ?k = "gc_key ?c" and ?q = "gc_owner ?c"
  let ?p1 = "setEntry ?a ((entry ?p ?a)\<lparr>pe_pending := pe_pending (entry ?p ?a) - 1\<rparr>) ?p"
  have ok: "systemOK s" "returnedOK s" using assms(1) reachable_ok reachable_returned by blast+
  have act: "activeCall ?c" using assms(3) by (simp add: activeCall_def)
  obtain ov p2 where e: "endGetLocked ?q (gc_gets ?c) (gc_before ?c) ?p1 = (ov, p2)" by fastforce
  note p2 = endGetLocked_pool [OF e]
  have b: "\<not> pl_closed p2" "p' = bindLocked ?q ?k ?a p2" "c' = ?c\<lparr>gc_phase := Finished (Inr v)\<rparr>"
    using assms(4,5) e by (auto simp: bindGet_def Let_def split: if_splits)
  have calls: "callsOK ?p (sy_calls s)" using ok(1) by (simp add: systemOK_def)
  have op: "\<not> pl_closed ?p" using b(1) p2 by simp
  have k: "(?k, ?a) \<in> set (pl_conns p2)" using calls nth_mem [OF assms(2)] act op p2 by (auto simp: callsOK_def)
  have l: "?a < length (pl_entries p2)" using calls nth_mem [OF assms(2)] p2 by (simp add: callsOK_def)
  have prov: "pe_prov (entry ?p ?a) = Some v"
    using ok(2) nth_mem [OF assms(2)] assms(3) op by (auto simp: returnedOK_def)
  have "bindFrame i s (c', p')" using bind_frame [OF ok(1) assms(2,3)] assms(4) by simp
  then obtain pf where sys: "systemOK (updCall i (c', p') s)" and fr: "frame pf p'" "pl_conns pf = pl_conns ?p"
      "\<And>b. pe_prov (entry pf b) = pe_prov (entry ?p b)" unfolding bindFrame_def by (metis snd_conv)
  have ok': "tableOK p'" "connsOK p'" "ownersOK p'" using sys by (simp_all add: systemOK_def poolOK_def)
  have sub: "set (pl_conns p') \<subseteq> set (pl_conns ?p)" using fr(1,2) by (simp add: frame_def)
  have t: "tableOK ?p" using ok(1) by (simp add: systemOK_def poolOK_def)
  note binds = bindLocked_binds [OF k l, of ?q, folded b(2)]
  have k': "(?k, ?a) \<in> set (pl_conns p')"
  proof (cases "?q = noOwner")
    case False
    with binds ok'(3) have "boundTo p' ?q ?k" by (simp add: ownersOK_def)
    then obtain b where "(?k, b) \<in> set (pl_conns p')" by (auto simp: boundTo_def)
    moreover have "(?k, ?a) \<in> set (pl_conns ?p)" using k p2 by simp
    ultimately show ?thesis using table_unique [OF t, of ?k ?a ?k b] sub by auto
  qed (use binds in simp)
  moreover have pr: "pe_prov (entry p' ?a) = Some v" using fr(1,3) k' prov unfolding frame_def by (metis snd_conv)
  moreover have "pe_release (entry p' ?a) \<in> {None, Some v}"
    using ok'(2) table_addr [OF ok'(1) k'] pr by (auto simp: connsOK_def)
  ultimately show ?thesis using held_not_closed [OF ok'(2) k'] binds b(3) by (intro exI [of _ ?a]) auto
qed

lemma get_returns_pooled_connection_witness:
  "\<exists>a. (''k'', a) \<in> set (pl_conns (sy_pool demoBound)) \<and> pe_prov (entry (sy_pool demoBound) a) = Some 7"
proof -
  have "bindGet (sy_calls demoReturned ! 0) (Inr 7) (sy_pool demoReturned) = (sy_calls demoBound ! 0, sy_pool demoBound)"
    by (simp add: demoBound_def demoReturned_val)
  from get_returns_pooled_connection [OF demo_reachable(4) _ _ this]
  show ?thesis by (simp add: demoBound_val demoReturned_val)
qed

section \<open>Dials\<close>

text \<open>
  C27: while the pool is open, at most one call at a time has a target's dial to itself, whoever
  wants it, and a target that already has a connection is never dialled.
\<close>

theorem one_dial_per_target:
  assumes "poolReachable lim s" "\<not> pl_closed (sy_pool s)"
    and "i < length (sy_calls s)" "gc_phase (sy_calls s ! i) \<in> {Holding, Dialling}"
    and "j < length (sy_calls s)" "gc_phase (sy_calls s ! j) \<in> {Holding, Dialling}"
    and "gc_key (sy_calls s ! i) = gc_key (sy_calls s ! j)"
  shows "i = j \<and> (gc_phase (sy_calls s ! i) = Dialling \<longrightarrow>
      (\<exists>a. (gc_key (sy_calls s ! i), a) \<in> set (pl_conns (sy_pool s)) \<and> pe_prov (entry (sy_pool s) a) = None))"
proof -
  let ?p = "sy_pool s" and ?cs = "sy_calls s"
  have c: "callsOK ?p ?cs" and t: "tableOK ?p" using reachable_ok [OF assms(1)] by (simp_all add: systemOK_def poolOK_def)
  have h: "holding (?cs ! i)" "holding (?cs ! j)" "activeCall (?cs ! i)" "activeCall (?cs ! j)"
    using assms(4,6) by (auto simp: holding_def activeCall_def)
  have k: "(gc_key (?cs ! i), gc_entry (?cs ! i)) \<in> set (pl_conns ?p)" "(gc_key (?cs ! j), gc_entry (?cs ! j)) \<in> set (pl_conns ?p)"
    using c assms(2,3,5) h(3,4) by (simp_all add: callsOK_def)
  then have "gc_entry (?cs ! j) = gc_entry (?cs ! i)" using table_unique [OF t k] assms(7) by simp
  from holder_open(3) [OF c assms(3) h(1) assms(5) h(2) this] have "i = j" by simp
  moreover have "\<exists>a. (gc_key (?cs ! i), a) \<in> set (pl_conns ?p) \<and> pe_prov (entry ?p a) = None" if "gc_phase (?cs ! i) = Dialling"
    using c assms(2,3) k(1) that nth_mem [OF assms(3)] by (auto simp: callsOK_def)
  ultimately show ?thesis by blast
qed

lemma one_dial_per_target_witness:
  "(\<exists>a. (''k'', a) \<in> set (pl_conns (sy_pool demoDialling)) \<and> pe_prov (entry (sy_pool demoDialling) a) = None)"
proof -
  have d: "gc_phase (sy_calls demoDialling ! 0) = Dialling" "\<not> pl_closed (sy_pool demoDialling)" "0 < length (sy_calls demoDialling)"
    "gc_key (sy_calls demoDialling ! 0) = ''k''"
    by (simp_all add: demoDialling_def demoHolding_def demoReserved_val lookOpen_def setEntry_def Let_def)
  from one_dial_per_target [OF demo_reachable(3) d(2,3) _ d(3) _ refl] d show ?thesis by simp
qed

section \<open>Owners\<close>

text \<open>
  C26: a release that lands while a \<^verbatim>\<open>Get\<close> of the same owner is in flight wins: whatever happens
  next, that \<^verbatim>\<open>Get\<close> ends without a connection, with \<^verbatim>\<open>errOwnerReleased\<close> or \<^verbatim>\<open>errPoolClosed\<close>.
\<close>

theorem release_wins:
  assumes "poolReachable lim s" "i < length (sy_calls s)" "activeCall (sy_calls s ! i)"
    and "gc_owner (sy_calls s ! i) = owner" "owner \<noteq> noOwner"
    and "pool_step\<^sup>*\<^sup>* (s\<lparr>sy_pool := Release owner (sy_pool s)\<rparr>) s'"
    and "gc_phase (sy_calls s' ! i) = Finished r"
  shows "r \<in> {Inl (Sentinel ErrOwnerReleased), Inl (Sentinel ErrPoolClosed)}"
proof -
  have s: "systemOK s" by (rule reachable_ok [OF assms(1)])
  have "systemOK (s\<lparr>sy_pool := Release owner (sy_pool s)\<rparr>)" using Release_ok [OF s] by blast
  from run_overtaken [OF assms(6) this Release_overtakes [OF s assms(2-5)]] have "overtakenCall s' i" by blast
  with assms(7) show ?thesis by (simp add: overtakenCall_def)
qed

lemma release_wins_witness:
  "\<exists>s'. call_step (demoReturned\<lparr>sy_pool := Release demoOwner (sy_pool demoReturned)\<rparr>) s' \<and>
     gc_phase (sy_calls s' ! 0) = Finished (Inl (Sentinel ErrOwnerReleased))"
proof -
  let ?s = "demoReturned\<lparr>sy_pool := Release demoOwner (sy_pool demoReturned)\<rparr>"
  let ?s' = "updCall 0 (bindGet (sy_calls ?s ! 0) (Inr 7) (sy_pool ?s)) ?s"
  have st: "call_step ?s ?s'" by (rule call_step.bind) (simp_all add: demoReturned_val)
  have f: "gc_phase (sy_calls ?s' ! 0) = Finished (Inl (Sentinel ErrOwnerReleased))"
    by (simp add: demoReturned_val Release_def bindGet_def endGetLocked_def setEntry_def Let_def)
  have "Inl (Sentinel ErrOwnerReleased) \<in> {Inl (Sentinel ErrOwnerReleased), Inl (Sentinel ErrPoolClosed) :: goerr + int}"
    by (rule release_wins [OF demo_reachable(4), of 0 demoOwner ?s'])
      (use st f in \<open>auto simp: demoReturned_val activeCall_def demoOwner_def noOwner_def intro: pool_step.call\<close>)
  with st f show ?thesis by blast
qed

text \<open>
  C28: the pool keeps no target nobody wants. Every target in it is pinned, has an owner, or is being
  got by a call; the targets of the owners are exactly the ones the owner table says, one each; and
  a call's own target stays until the call ends or the pool closes.
\<close>

theorem pool_keeps_only_wanted:
  assumes "poolReachable lim s"
  shows "(\<forall>x\<in>set (pl_conns (sy_pool s)). pe_pinned (entry (sy_pool s) (snd x)) \<or> pe_owners (entry (sy_pool s) (snd x)) \<noteq> []
       \<or> (\<exists>c\<in>set (sy_calls s). activeCall c \<and> gc_entry c = snd x))
    \<and> (\<forall>owner key. pl_owners (sy_pool s) owner = Some key \<longleftrightarrow> boundTo (sy_pool s) owner key)
    \<and> (\<forall>c\<in>set (sy_calls s). activeCall c \<and> \<not> pl_closed (sy_pool s) \<longrightarrow> (gc_key c, gc_entry c) \<in> set (pl_conns (sy_pool s)))"
proof -
  let ?p = "sy_pool s"
  have c: "callsOK ?p (sy_calls s)" and t: "tableOK ?p" and w: "wantedOK ?p" and o: "ownersOK ?p"
    using reachable_ok [OF assms] by (simp_all add: systemOK_def poolOK_def)
  have "pe_pinned (entry ?p (snd x)) \<or> pe_owners (entry ?p (snd x)) \<noteq> [] \<or> (\<exists>c\<in>set (sy_calls s). activeCall c \<and> gc_entry c = snd x)"
    if x: "x \<in> set (pl_conns ?p)" for x
  proof -
    have "snd x < length (pl_entries ?p)" using t x by (simp add: tableOK_def)
    then have "pe_pending (entry ?p (snd x)) = cnt (\<lambda>c. activeCall c \<and> gc_entry c = snd x) (sy_calls s)" using c by (simp add: callsOK_def)
    moreover have "\<not> idleLocked (entry ?p (snd x))" using w x by (simp add: wantedOK_def)
    ultimately show ?thesis
      using cnt_zero_iff [of "\<lambda>c. activeCall c \<and> gc_entry c = snd x" "sy_calls s"] by (auto simp: idleLocked_def)
  qed
  moreover have "\<forall>owner key. pl_owners ?p owner = Some key \<longleftrightarrow> boundTo ?p owner key" using o by (simp add: ownersOK_def)
  moreover have "\<forall>c\<in>set (sy_calls s). activeCall c \<and> \<not> pl_closed ?p \<longrightarrow> (gc_key c, gc_entry c) \<in> set (pl_conns ?p)"
    using c by (simp add: callsOK_def)
  ultimately show ?thesis by blast
qed

lemma pool_keeps_only_wanted_witness: "boundTo (sy_pool demoBound) demoOwner ''k''"
proof -
  have "pl_owners (sy_pool demoBound) demoOwner = Some ''k''" by (simp add: demoBound_val)
  with pool_keeps_only_wanted [OF demo_reachable(5)] show ?thesis by blast
qed

section \<open>Labels\<close>

text \<open>
  the hypervisors in the pool never use more than \<^verbatim>\<open>limit\<close> labels of their own plus
  \<^verbatim>\<open>other\<close>, so the label's metrics stay bounded however many hypervisors there are.
\<close>

theorem hypervisor_labels_bounded:
  assumes "poolReachable lim s"
  shows "card ((\<lambda>x. pe_label (entry (sy_pool s) (snd x))) ` set (pl_conns (sy_pool s)) - {OtherHypervisor}) \<le> limit (sy_pool s)"
proof -
  let ?p = "sy_pool s"
  let ?ls = "pl_labels ?p"
  have l: "labelsOK ?p" using reachable_ok [OF assms] by (simp add: systemOK_def poolOK_def)
  then have pos: "\<forall>x\<in>set ?ls. 0 < snd x" and d: "distinct (map fst ?ls)" by (simp_all add: labelsOK_def)
  have "pe_label (entry ?p (snd x)) \<in> fst ` set ?ls" if x: "x \<in> set (pl_conns ?p)" for x
  proof -
    let ?l = "pe_label (entry ?p (snd x))"
    have "0 < tally (\<lambda>e. of_bool (pe_label e = ?l) :: int) (pl_entries ?p) cs" if "x \<in> set cs" for cs
      using that
    proof (induction cs)
      case (Cons y cs)
      have "0 \<le> tally (\<lambda>e. of_bool (pe_label e = ?l) :: int) (pl_entries ?p) cs"
        unfolding tally_def by (intro sum_list_nonneg) auto
      with Cons show ?case by (cases "x = y") auto
    qed simp
    then have "0 < labelCount ?ls ?l" using l x by (simp add: labelsOK_def labelUsers_def)
    then show ?thesis using labelCount_key(1) [OF pos] by blast
  qed
  then have "(\<lambda>x. pe_label (entry ?p (snd x))) ` set (pl_conns ?p) - {OtherHypervisor} \<subseteq> fst ` set ?ls - {OtherHypervisor}" by blast
  then have "card ((\<lambda>x. pe_label (entry ?p (snd x))) ` set (pl_conns ?p) - {OtherHypervisor}) \<le> card (fst ` set ?ls - {OtherHypervisor})"
    by (intro card_mono) simp_all
  also have "int (card (fst ` set ?ls - {OtherHypervisor})) = namedLabelsLocked ?p"
  proof -
    have n: "card (fst ` set ?ls) = length ?ls" using distinct_card [OF d] by simp
    show ?thesis
      using labelCount_key(1) [OF pos, of OtherHypervisor] n
      by (cases "OtherHypervisor \<in> fst ` set ?ls"; cases ?ls) (auto simp: namedLabelsLocked_def Let_def card_Diff_singleton_if)
  qed
  finally show ?thesis using l by (simp add: labelsOK_def)
qed

lemma hypervisor_labels_bounded_witness:
  "card ((\<lambda>x. pe_label (entry (sy_pool demoBound) (snd x))) ` set (pl_conns (sy_pool demoBound)) - {OtherHypervisor}) \<le> 16"
  using hypervisor_labels_bounded [OF demo_reachable(5)]
  by (simp add: demoBound_val limit_def maxHypervisorLabels_def)

section \<open>Ends\<close>

text \<open>
  calls terminate. Between them, \<open>n\<close> calls of \<^verbatim>\<open>Get\<close> take at most \<open>4 * n\<close> steps, however
  the steps interleave and whatever the dials return.
\<close>

theorem gets_terminate:
  assumes "(call_step ^^ n) s s'"
  shows "n \<le> 4 * length (sy_calls s)"
  using call_steps_work [OF assms] workLeft_bound [of s] by linarith

lemma gets_terminate_witness: "(call_step ^^ 4) demoReserved demoBound \<and> (4 :: nat) \<le> 4 * length (sy_calls demoReserved)"
proof -
  have "(call_step ^^ 4) demoReserved demoBound"
    using demo_steps(2,3,4,5) by (auto simp: numeral_eq_Suc intro!: relcomppI)
  with gets_terminate [OF this] show ?thesis by blast
qed

text \<open>
  C29: calls do not wait for each other for ever. From every reachable state, even if no context ever
  ends, the calls can run until all of them have finished, and they get stuck nowhere before that.
\<close>

theorem gets_finish:
  assumes "poolReachable lim s"
  shows "(\<exists>s'. patient_step\<^sup>*\<^sup>* s s' \<and> (\<forall>c\<in>set (sy_calls s'). \<not> activeCall c))
    \<and> (\<forall>s'. patient_step\<^sup>*\<^sup>* s s' \<and> (\<exists>c\<in>set (sy_calls s'). activeCall c) \<longrightarrow> (\<exists>s''. patient_step s' s''))"
proof -
  have run: "systemOK s'" if "patient_step\<^sup>*\<^sup>* t s'" "systemOK t" for t s' :: "'a poolSystem"
    using that by (induction rule: rtranclp_induct) (auto simp: patient_step_def intro: call_step_ok)
  have ok: "systemOK s" by (rule reachable_ok [OF assms])
  have "\<exists>s'. patient_step\<^sup>*\<^sup>* t s' \<and> (\<forall>c\<in>set (sy_calls s'). \<not> activeCall c)" if "systemOK t" for t :: "'a poolSystem"
    using that
  proof (induction "workLeft t" arbitrary: t rule: less_induct)
    case less
    show ?case
    proof (cases "\<exists>c\<in>set (sy_calls t). activeCall c")
      case True
      then obtain t' where t': "patient_step t t'" using patient_progress [OF less.prems] by blast
      then have "workLeft t' < workLeft t" "systemOK t'" using call_step_work call_step_ok less.prems by (auto simp: patient_step_def)
      from less.hyps [OF this] t' show ?thesis by (meson converse_rtranclp_into_rtranclp)
    qed blast
  qed
  with ok run patient_progress show ?thesis by blast
qed

lemma gets_finish_witness: "\<exists>s'. patient_step\<^sup>*\<^sup>* demoReserved s' \<and> (\<forall>c\<in>set (sy_calls s'). \<not> activeCall c)"
  using gets_finish [OF demo_reachable(1)] by blast

text \<open>
  C30: a closed pool holds nothing and hands out nothing: its table is empty, a new \<^verbatim>\<open>Get\<close> fails,
  one in flight ends with \<^verbatim>\<open>errPoolClosed\<close>, and once \<^verbatim>\<open>CloseAll\<close> returns every connection
  ever opened has been closed, except those a late dial opened after the shutdown, which are being closed.
\<close>

theorem closed_pool_holds_nothing:
  assumes "poolReachable lim s" "pl_closed (sy_pool s)"
  shows "pl_conns (sy_pool s) = [] \<and> pl_owners (sy_pool s) = Map.empty
    \<and> (\<forall>owner key name. fst (Get owner key name (sy_pool s)) \<in> {Inl (Sentinel ErrNoOwner), Inl (Sentinel ErrPoolClosed)})
    \<and> (\<forall>c res. gc_phase (fst (bindGet c res (sy_pool s))) = Finished (Inl (Sentinel ErrPoolClosed)))
    \<and> (closeAllReturns (sy_pool s) \<longrightarrow> mset (pl_opened (sy_pool s)) = mset (pl_stray (sy_pool s)) + mset (pl_done (sy_pool s)))"
proof -
  let ?p = "sy_pool s"
  have t: "tableOK ?p" and c: "connsOK ?p" using reachable_ok [OF assms(1)] by (simp_all add: systemOK_def poolOK_def)
  then have e: "pl_conns ?p = []" "pl_owners ?p = Map.empty" using assms(2) by (simp_all add: tableOK_def)
  have "gc_phase (fst (bindGet d res ?p)) = Finished (Inl (Sentinel ErrPoolClosed))" for d res
  proof -
    obtain ov p2 where en: "endGetLocked (gc_owner d) (gc_gets d) (gc_before d)
        (setEntry (gc_entry d) ((entry ?p (gc_entry d))\<lparr>pe_pending := pe_pending (entry ?p (gc_entry d)) - 1\<rparr>) ?p) = (ov, p2)" by fastforce
    with endGetLocked_pool [OF en] assms(2) show ?thesis by (simp add: bindGet_def Let_def)
  qed
  moreover have "mset (pl_opened ?p) = mset (pl_stray ?p) + mset (pl_done ?p)" if "closeAllReturns ?p"
    using c that e(1) by (simp add: connsOK_def closeAllReturns_def heldConns_def)
  ultimately show ?thesis using e assms(2) by (simp add: Get_def reserveGet_def)
qed

lemma closed_pool_holds_nothing_witness: "pl_conns (sy_pool demoClosed) = []"
proof -
  have "pl_closed (sy_pool demoClosed)" by (simp add: demoClosed_def CloseAll_def removeAllLocked_closed)
  from closed_pool_holds_nothing [OF demo_reachable(6) this] show ?thesis by blast
qed

end
