(* ===== verification/Libvirt_Xml.thy ===== *)
theory Libvirt_Xml
  imports Libvirt_Uuid Go_Net
begin

text \<open>
  \<^verbatim>\<open>internal/providers/libvirt/xml.go\<close>: the documents the libvirt backend writes and reads.

  A document is the tree of its elements, or none when a text is not well-formed XML; the concrete
  syntax is left out, as are name spaces, and names are taken to be text XML can carry.
  \<^verbatim>\<open>xml.Marshal\<close> and \<^verbatim>\<open>xml.Unmarshal\<close> follow the struct tags of the sources: a \<open>render\<close> function
  gives a struct's element, an \<open>into\<close> function decodes an element over the value a field has, so
  that an element that repeats overwrites attribute by attribute and lists grow, as in Go.
\<close>

section \<open>Documents\<close>

datatype xml = Elem (xml_tag: string) (xml_attrs: "(string \<times> string) list") (xml_children: "xml list") (xml_text: string)

type_synonym xmldoc = "xml option"

definition named :: "string \<Rightarrow> xml \<Rightarrow> xml list" where
  "named t x = filter (\<lambda>c. xml_tag c = t) (xml_children x)"

text \<open>A string attribute, a string element, a nested struct, a pointer to one, and a slice.\<close>

definition attrOr :: "string \<Rightarrow> xml \<Rightarrow> string \<Rightarrow> string" where
  "attrOr a x v = (case map_of (xml_attrs x) a of None \<Rightarrow> v | Some w \<Rightarrow> w)"

definition textOr :: "string \<Rightarrow> xml \<Rightarrow> string \<Rightarrow> string" where
  "textOr t x v = foldl (\<lambda>_ c. xml_text c) v (named t x)"

definition within :: "(xml \<Rightarrow> 'a \<Rightarrow> 'a) \<Rightarrow> string \<Rightarrow> xml \<Rightarrow> 'a \<Rightarrow> 'a" where
  "within f t x v = foldl (\<lambda>w c. f c w) v (named t x)"

definition withinPtr :: "(xml \<Rightarrow> 'a \<Rightarrow> 'a) \<Rightarrow> 'a \<Rightarrow> string \<Rightarrow> xml \<Rightarrow> 'a option \<Rightarrow> 'a option" where
  "withinPtr f zero t x v = foldl (\<lambda>w c. Some (f c (case w of None \<Rightarrow> zero | Some u \<Rightarrow> u))) v (named t x)"

definition withinList :: "(xml \<Rightarrow> 'a \<Rightarrow> 'a) \<Rightarrow> 'a \<Rightarrow> string \<Rightarrow> xml \<Rightarrow> 'a list \<Rightarrow> 'a list" where
  "withinList f zero t x v = v @ map (\<lambda>c. f c zero) (named t x)"

text \<open>What \<^verbatim>\<open>omitempty\<close> leaves of an attribute.\<close>

definition optAttr :: "string \<Rightarrow> string \<Rightarrow> (string \<times> string) list" where
  "optAttr a v = (if v = [] then [] else [(a, v)])"

definition elem :: "string \<Rightarrow> (string \<times> string) list \<Rightarrow> xml list \<Rightarrow> xml" where
  "elem t as cs = Elem t as cs []"

definition textElem :: "string \<Rightarrow> (string \<times> string) list \<Rightarrow> string \<Rightarrow> xml" where
  "textElem t as v = Elem t as [] v"

text \<open>
  Integers as character data: printed in decimal, read after trimming spaces, within the width of
  the field; an empty text is zero.
\<close>

definition formatInt :: "int \<Rightarrow> string" where
  "formatInt i = (if i < 0 then CHR ''-'' # itoa (nat (- i)) else itoa (nat i))"

definition trimSpace :: "string \<Rightarrow> string" where
  "trimSpace s = (let sp = (\<lambda>c. c = CHR '' '' \<or> (9 \<le> (of_char c :: nat) \<and> (of_char c :: nat) \<le> 13)) in
     rev (dropWhile sp (rev (dropWhile sp s))))"

definition parseInt :: "nat \<Rightarrow> string \<Rightarrow> int option" where
  "parseInt bits s = (if s = [] then Some 0 else case atoi (trimSpace s) of
     None \<Rightarrow> None
   | Some v \<Rightarrow> if - (2 ^ (bits - 1)) \<le> v \<and> v < 2 ^ (bits - 1) then Some v else None)"

section \<open>The vocabulary\<close>

definition unitBytes :: string where "unitBytes = ''bytes''"
definition formatQcow2 :: string where "formatQcow2 = ''qcow2''"
definition formatRaw :: string where "formatRaw = ''raw''"
definition modelVirtio :: string where "modelVirtio = ''virtio''"
definition diskBusVirtio :: string where "diskBusVirtio = modelVirtio"
definition diskBusSATA :: string where "diskBusSATA = ''sata''"
definition diskTypeFile :: string where "diskTypeFile = ''file''"
definition netForwardOpen :: string where "netForwardOpen = ''open''"
definition domainArch :: string where "domainArch = ''x86_64''"
definition libvirtDefaultPCIeDevices :: nat where "libvirtDefaultPCIeDevices = 2"
definition spareRootPorts :: nat where "spareRootPorts = 2"
definition pciControllerType :: string where "pciControllerType = ''pci''"
definition pcieRootModel :: string where "pcieRootModel = ''pcie-root''"
definition pcieRootPortModel :: string where "pcieRootPortModel = ''pcie-root-port''"
definition pcieRootPortHotplug :: string where "pcieRootPortHotplug = ''off''"

section \<open>Domains\<close>

text \<open>
  A struct with one field is that field, and a pointer to an empty struct (\<^verbatim>\<open>presentDef\<close>,
  \<^verbatim>\<open>readOnlyDef\<close>) is whether it is there.
\<close>

record featuresDef =
  fd_acpi :: bool
  fd_apic :: bool

record memoryDef =
  md_unit :: string
  md_value :: "64 word"

record osTypeDef =
  ot_arch :: string
  ot_machine :: string
  ot_value :: string

record osDef =
  os_type :: osTypeDef
  os_boot :: "string list"

record controllerDef =
  cd_type :: string
  cd_index :: string
  cd_model :: string
  cd_target :: "string option"

record diskDef =
  dk_type :: string
  dk_device :: string
  dk_driverName :: string
  dk_driverType :: string
  dk_sourceFile :: string
  dk_targetDev :: string
  dk_targetBus :: string
  dk_readOnly :: bool

record interfaceDef =
  if_type :: string
  if_bridge :: string
  if_model :: string

record consoleDef =
  co_type :: string
  co_targetType :: string
  co_targetPort :: string

record channelDef =
  ch_type :: string
  ch_targetType :: string
  ch_targetName :: string

record devices =
  dv_controllers :: "controllerDef list"
  dv_disks :: "diskDef list"
  dv_interfaces :: "interfaceDef list"
  dv_console :: consoleDef
  dv_channels :: "channelDef list"

record domainDef =
  dd_type :: string
  dd_name :: string
  dd_memory :: memoryDef
  dd_vcpu :: "32 word"
  dd_os :: osDef
  dd_features :: featuresDef
  dd_devices :: devices

text \<open>The zero values.\<close>

definition zeroController :: controllerDef where
  "zeroController = \<lparr>cd_type = [], cd_index = [], cd_model = [], cd_target = None\<rparr>"

definition zeroDisk :: diskDef where
  "zeroDisk = \<lparr>dk_type = [], dk_device = [], dk_driverName = [], dk_driverType = [], dk_sourceFile = [],
     dk_targetDev = [], dk_targetBus = [], dk_readOnly = False\<rparr>"

definition zeroInterface :: interfaceDef where
  "zeroInterface = \<lparr>if_type = [], if_bridge = [], if_model = []\<rparr>"

definition zeroChannel :: channelDef where
  "zeroChannel = \<lparr>ch_type = [], ch_targetType = [], ch_targetName = []\<rparr>"

definition zeroDevices :: devices where
  "zeroDevices = \<lparr>dv_controllers = [], dv_disks = [], dv_interfaces = [],
     dv_console = \<lparr>co_type = [], co_targetType = [], co_targetPort = []\<rparr>, dv_channels = []\<rparr>"

definition zeroOS :: osDef where
  "zeroOS = \<lparr>os_type = \<lparr>ot_arch = [], ot_machine = [], ot_value = []\<rparr>, os_boot = []\<rparr>"

subsection \<open>Marshal\<close>

definition renderController :: "controllerDef \<Rightarrow> xml" where
  "renderController c = elem ''controller'' ([(''type'', cd_type c)] @ optAttr ''index'' (cd_index c) @ optAttr ''model'' (cd_model c))
     (case cd_target c of None \<Rightarrow> [] | Some h \<Rightarrow> [elem ''target'' (optAttr ''hotplug'' h) []])"

definition renderDisk :: "diskDef \<Rightarrow> xml" where
  "renderDisk d = elem ''disk'' [(''type'', dk_type d), (''device'', dk_device d)]
     ([elem ''driver'' [(''name'', dk_driverName d), (''type'', dk_driverType d)] [],
       elem ''source'' (optAttr ''file'' (dk_sourceFile d)) [],
       elem ''target'' [(''dev'', dk_targetDev d), (''bus'', dk_targetBus d)] []]
      @ (if dk_readOnly d then [elem ''readonly'' [] []] else []))"

definition renderInterface :: "interfaceDef \<Rightarrow> xml" where
  "renderInterface i = elem ''interface'' [(''type'', if_type i)]
     [elem ''source'' [(''bridge'', if_bridge i)] [], elem ''model'' [(''type'', if_model i)] []]"

definition renderChannel :: "channelDef \<Rightarrow> xml" where
  "renderChannel c = elem ''channel'' [(''type'', ch_type c)]
     [elem ''target'' [(''type'', ch_targetType c), (''name'', ch_targetName c)] []]"

definition renderDevices :: "devices \<Rightarrow> xml" where
  "renderDevices d = elem ''devices'' []
     (map renderController (dv_controllers d) @ map renderDisk (dv_disks d) @ map renderInterface (dv_interfaces d)
      @ [elem ''console'' [(''type'', co_type (dv_console d))]
           [elem ''target'' [(''type'', co_targetType (dv_console d)), (''port'', co_targetPort (dv_console d))] []]]
      @ map renderChannel (dv_channels d))"

definition renderDomain :: "domainDef \<Rightarrow> xml" where
  "renderDomain d = elem ''domain'' [(''type'', dd_type d)]
     ([textElem ''name'' [] (dd_name d),
       textElem ''memory'' [(''unit'', md_unit (dd_memory d))] (formatInt (sint (md_value (dd_memory d)))),
       textElem ''vcpu'' [] (formatInt (sint (dd_vcpu d))),
       elem ''os'' []
         (textElem ''type'' [(''arch'', ot_arch (os_type (dd_os d))), (''machine'', ot_machine (os_type (dd_os d)))] (ot_value (os_type (dd_os d)))
          # map (\<lambda>b. elem ''boot'' [(''dev'', b)] []) (os_boot (dd_os d))),
       elem ''features'' []
         ((if fd_acpi (dd_features d) then [elem ''acpi'' [] []] else [])
          @ (if fd_apic (dd_features d) then [elem ''apic'' [] []] else [])),
       renderDevices (dd_devices d)])"

subsection \<open>Unmarshal\<close>

definition controllerInto :: "xml \<Rightarrow> controllerDef \<Rightarrow> controllerDef" where
  "controllerInto x c = \<lparr>cd_type = attrOr ''type'' x (cd_type c), cd_index = attrOr ''index'' x (cd_index c),
     cd_model = attrOr ''model'' x (cd_model c),
     cd_target = withinPtr (attrOr ''hotplug'') [] ''target'' x (cd_target c)\<rparr>"

definition diskInto :: "xml \<Rightarrow> diskDef \<Rightarrow> diskDef" where
  "diskInto x d = \<lparr>dk_type = attrOr ''type'' x (dk_type d), dk_device = attrOr ''device'' x (dk_device d),
     dk_driverName = within (attrOr ''name'') ''driver'' x (dk_driverName d),
     dk_driverType = within (attrOr ''type'') ''driver'' x (dk_driverType d),
     dk_sourceFile = within (attrOr ''file'') ''source'' x (dk_sourceFile d),
     dk_targetDev = within (attrOr ''dev'') ''target'' x (dk_targetDev d),
     dk_targetBus = within (attrOr ''bus'') ''target'' x (dk_targetBus d),
     dk_readOnly = (dk_readOnly d \<or> named ''readonly'' x \<noteq> [])\<rparr>"

definition interfaceInto :: "xml \<Rightarrow> interfaceDef \<Rightarrow> interfaceDef" where
  "interfaceInto x i = \<lparr>if_type = attrOr ''type'' x (if_type i),
     if_bridge = within (attrOr ''bridge'') ''source'' x (if_bridge i),
     if_model = within (attrOr ''type'') ''model'' x (if_model i)\<rparr>"

definition consoleInto :: "xml \<Rightarrow> consoleDef \<Rightarrow> consoleDef" where
  "consoleInto x c = \<lparr>co_type = attrOr ''type'' x (co_type c),
     co_targetType = within (attrOr ''type'') ''target'' x (co_targetType c),
     co_targetPort = within (attrOr ''port'') ''target'' x (co_targetPort c)\<rparr>"

definition channelInto :: "xml \<Rightarrow> channelDef \<Rightarrow> channelDef" where
  "channelInto x c = \<lparr>ch_type = attrOr ''type'' x (ch_type c),
     ch_targetType = within (attrOr ''type'') ''target'' x (ch_targetType c),
     ch_targetName = within (attrOr ''name'') ''target'' x (ch_targetName c)\<rparr>"

definition devicesInto :: "xml \<Rightarrow> devices \<Rightarrow> devices" where
  "devicesInto x d = \<lparr>dv_controllers = withinList controllerInto zeroController ''controller'' x (dv_controllers d),
     dv_disks = withinList diskInto zeroDisk ''disk'' x (dv_disks d),
     dv_interfaces = withinList interfaceInto zeroInterface ''interface'' x (dv_interfaces d),
     dv_console = within consoleInto ''console'' x (dv_console d),
     dv_channels = withinList channelInto zeroChannel ''channel'' x (dv_channels d)\<rparr>"

definition osTypeInto :: "xml \<Rightarrow> osTypeDef \<Rightarrow> osTypeDef" where
  "osTypeInto x t = \<lparr>ot_arch = attrOr ''arch'' x (ot_arch t), ot_machine = attrOr ''machine'' x (ot_machine t),
     ot_value = xml_text x\<rparr>"

definition osInto :: "xml \<Rightarrow> osDef \<Rightarrow> osDef" where
  "osInto x s = \<lparr>os_type = within osTypeInto ''type'' x (os_type s),
     os_boot = withinList (attrOr ''dev'') [] ''boot'' x (os_boot s)\<rparr>"

definition featuresInto :: "xml \<Rightarrow> featuresDef \<Rightarrow> featuresDef" where
  "featuresInto x f = \<lparr>fd_acpi = (fd_acpi f \<or> named ''acpi'' x \<noteq> []), fd_apic = (fd_apic f \<or> named ''apic'' x \<noteq> [])\<rparr>"

text \<open>Every integer there is has to be one; the last counts.\<close>

definition intIn :: "nat \<Rightarrow> string \<Rightarrow> xml \<Rightarrow> int option" where
  "intIn bits t x = (if \<exists>c\<in>set (named t x). parseInt bits (xml_text c) = None then None
     else Some (foldl (\<lambda>_ c. the (parseInt bits (xml_text c))) 0 (named t x)))"

definition unmarshalDomain :: "xmldoc \<Rightarrow> goerr + domainDef" where
  "unmarshalDomain doc = (case doc of
     None \<Rightarrow> Inl (NewErr ''XML syntax error'' [])
   | Some x \<Rightarrow>
       if xml_tag x \<noteq> ''domain'' then Inl (NewErr ''expected element type <domain>'' [xml_tag x])
       else (case (intIn 64 ''memory'' x, intIn 32 ''vcpu'' x) of
           (Some m, Some v) \<Rightarrow>
             Inr \<lparr>dd_type = attrOr ''type'' x [], dd_name = textOr ''name'' x [],
                  dd_memory = \<lparr>md_unit = within (attrOr ''unit'') ''memory'' x [], md_value = word_of_int m\<rparr>,
                  dd_vcpu = word_of_int v,
                  dd_os = within osInto ''os'' x zeroOS,
                  dd_features = within featuresInto ''features'' x \<lparr>fd_acpi = False, fd_apic = False\<rparr>,
                  dd_devices = within devicesInto ''devices'' x zeroDevices\<rparr>
         | _ \<Rightarrow> Inl (NewErr ''strconv.ParseInt'' [])))"

section \<open>Volumes, pools and networks\<close>

record volBackingDef =
  vb_path :: string
  vb_format :: string

record volumeDef =
  vd_name :: string
  vd_unit :: string
  vd_capacity :: "64 word"
  vd_format :: string
  vd_backing :: "volBackingDef option"

definition renderVolume :: "volumeDef \<Rightarrow> xml" where
  "renderVolume v = elem ''volume'' []
     ([textElem ''name'' [] (vd_name v),
       textElem ''capacity'' [(''unit'', vd_unit v)] (formatInt (sint (vd_capacity v))),
       elem ''target'' [] [elem ''format'' [(''type'', vd_format v)] []]]
      @ (case vd_backing v of None \<Rightarrow> []
         | Some b \<Rightarrow> [elem ''backingStore'' [] [textElem ''path'' [] (vb_path b), elem ''format'' [(''type'', vb_format b)] []]]))"

text \<open>The part of a pool's definition that is read.\<close>

record poolDef =
  pd_type :: string
  pd_targetPath :: string

definition unmarshalPool :: "xmldoc \<Rightarrow> goerr + poolDef" where
  "unmarshalPool doc = (case doc of
     None \<Rightarrow> Inl (NewErr ''XML syntax error'' [])
   | Some x \<Rightarrow>
       if xml_tag x \<noteq> ''pool'' then Inl (NewErr ''expected element type <pool>'' [xml_tag x])
       else Inr \<lparr>pd_type = attrOr ''type'' x [], pd_targetPath = within (textOr ''path'') ''target'' x []\<rparr>)"

record netIPDef =
  ni_address :: string
  ni_netmask :: string
  ni_dhcp :: "(string \<times> string) option"

record networkDef =
  nd_name :: string
  nd_forwardMode :: string
  nd_bridgeName :: string
  nd_bridgeSTP :: string
  nd_ip :: netIPDef

definition renderNetwork :: "networkDef \<Rightarrow> xml" where
  "renderNetwork n = elem ''network'' []
     [textElem ''name'' [] (nd_name n),
      elem ''forward'' [(''mode'', nd_forwardMode n)] [],
      elem ''bridge'' (optAttr ''name'' (nd_bridgeName n) @ optAttr ''stp'' (nd_bridgeSTP n)) [],
      elem ''ip'' [(''address'', ni_address (nd_ip n)), (''netmask'', ni_netmask (nd_ip n))]
        (case ni_dhcp (nd_ip n) of None \<Rightarrow> []
         | Some (start, stop) \<Rightarrow> [elem ''dhcp'' [] [elem ''range'' [(''start'', start), (''end'', stop)] []]])]"

definition rangeInto :: "xml \<Rightarrow> string \<times> string \<Rightarrow> string \<times> string" where
  "rangeInto x r = (attrOr ''start'' x (fst r), attrOr ''end'' x (snd r))"

definition netIPInto :: "xml \<Rightarrow> netIPDef \<Rightarrow> netIPDef" where
  "netIPInto x n = \<lparr>ni_address = attrOr ''address'' x (ni_address n), ni_netmask = attrOr ''netmask'' x (ni_netmask n),
     ni_dhcp = withinPtr (within rangeInto ''range'') ([], []) ''dhcp'' x (ni_dhcp n)\<rparr>"

definition unmarshalNetwork :: "xmldoc \<Rightarrow> goerr + networkDef" where
  "unmarshalNetwork doc = (case doc of
     None \<Rightarrow> Inl (NewErr ''XML syntax error'' [])
   | Some x \<Rightarrow>
       if xml_tag x \<noteq> ''network'' then Inl (NewErr ''expected element type <network>'' [xml_tag x])
       else Inr \<lparr>nd_name = textOr ''name'' x [], nd_forwardMode = within (attrOr ''mode'') ''forward'' x [],
                 nd_bridgeName = within (attrOr ''name'') ''bridge'' x [], nd_bridgeSTP = within (attrOr ''stp'') ''bridge'' x [],
                 nd_ip = within netIPInto ''ip'' x \<lparr>ni_address = [], ni_netmask = [], ni_dhcp = None\<rparr>\<rparr>)"

section \<open>What the provider writes\<close>

definition networkXML :: "ManagedNetwork \<Rightarrow> string \<Rightarrow> string \<Rightarrow> xmldoc" where
  "networkXML spec gateway netmask = Some (renderNetwork
     \<lparr>nd_name = mn_name spec, nd_forwardMode = netForwardOpen, nd_bridgeName = [], nd_bridgeSTP = ''on'',
      nd_ip = \<lparr>ni_address = gateway, ni_netmask = netmask, ni_dhcp = Some (mn_dhcpStart spec, mn_dhcpEnd spec)\<rparr>\<rparr>)"

definition volumeXML :: "string \<Rightarrow> string \<Rightarrow> 64 word \<Rightarrow> xmldoc" where
  "volumeXML name baseImage sizeBytes = Some (renderVolume
     \<lparr>vd_name = name, vd_unit = unitBytes, vd_capacity = sizeBytes, vd_format = formatQcow2,
      vd_backing = Some \<lparr>vb_path = baseImage, vb_format = formatQcow2\<rparr>\<rparr>)"

definition rawVolumeXML :: "string \<Rightarrow> 64 word \<Rightarrow> xmldoc" where
  "rawVolumeXML name sizeBytes = Some (renderVolume
     \<lparr>vd_name = name, vd_unit = unitBytes, vd_capacity = sizeBytes, vd_format = formatRaw, vd_backing = None\<rparr>)"

text \<open>Every virtio disk and one controller for all virtio channels take a port.\<close>

definition pcieDeviceCount :: "devices \<Rightarrow> nat" where
  "pcieDeviceCount dv = length (dv_interfaces dv) + libvirtDefaultPCIeDevices
     + length (filter (\<lambda>d. dk_targetBus d = diskBusVirtio) (dv_disks dv))
     + (if \<exists>c\<in>set (dv_channels dv). ch_targetType c = modelVirtio then 1 else 0)"

definition rootPort :: "nat \<Rightarrow> controllerDef" where
  "rootPort i = \<lparr>cd_type = pciControllerType, cd_index = itoa i, cd_model = pcieRootPortModel,
     cd_target = Some pcieRootPortHotplug\<rparr>"

definition rootPorts :: "nat \<Rightarrow> controllerDef list" where
  "rootPorts n = \<lparr>cd_type = pciControllerType, cd_index = ''0'', cd_model = pcieRootModel, cd_target = None\<rparr>
     # map rootPort [1..<n + 1]"

definition rootDisk :: "string \<Rightarrow> diskDef" where
  "rootDisk path = \<lparr>dk_type = diskTypeFile, dk_device = ''disk'', dk_driverName = ''qemu'', dk_driverType = formatQcow2,
     dk_sourceFile = path, dk_targetDev = ''vda'', dk_targetBus = diskBusVirtio, dk_readOnly = False\<rparr>"

definition cidataDisk :: "string \<Rightarrow> diskDef" where
  "cidataDisk path = \<lparr>dk_type = diskTypeFile, dk_device = ''cdrom'', dk_driverName = ''qemu'', dk_driverType = formatRaw,
     dk_sourceFile = path, dk_targetDev = ''sda'', dk_targetBus = diskBusSATA, dk_readOnly = True\<rparr>"

definition domainDevices :: "MachineSpec \<Rightarrow> string \<Rightarrow> string \<Rightarrow> devices" where
  "domainDevices spec rootPath cidataPath =
     (let dv = \<lparr>dv_controllers = [],
           dv_disks = rootDisk rootPath # (if cidataPath \<noteq> [] then [cidataDisk cidataPath] else []),
           dv_interfaces = map (\<lambda>n. \<lparr>if_type = ''bridge'', if_bridge = n, if_model = modelVirtio\<rparr>) (ms_networks spec),
           dv_console = \<lparr>co_type = ''pty'', co_targetType = ''serial'', co_targetPort = ''0''\<rparr>,
           dv_channels = [\<lparr>ch_type = ''unix'', ch_targetType = ''virtio'', ch_targetName = ''org.qemu.guest_agent.0''\<rparr>]\<rparr>
      in dv\<lparr>dv_controllers := rootPorts (pcieDeviceCount dv + spareRootPorts)\<rparr>)"

definition domainOf :: "MachineSpec \<Rightarrow> string \<Rightarrow> string \<Rightarrow> domainDef" where
  "domainOf spec rootPath cidataPath =
     \<lparr>dd_type = ''kvm'', dd_name = ms_name spec,
      dd_memory = \<lparr>md_unit = unitBytes, md_value = ms_memoryBytes spec\<rparr>, dd_vcpu = ms_vcpus spec,
      dd_os = \<lparr>os_type = \<lparr>ot_arch = domainArch, ot_machine = ''q35'', ot_value = ''hvm''\<rparr>, os_boot = [''hd'']\<rparr>,
      dd_features = \<lparr>fd_acpi = True, fd_apic = True\<rparr>,
      dd_devices = domainDevices spec rootPath cidataPath\<rparr>"

definition domainXML :: "MachineSpec \<Rightarrow> string \<Rightarrow> string \<Rightarrow> xmldoc" where
  "domainXML spec rootPath cidataPath = Some (renderDomain (domainOf spec rootPath cidataPath))"

text \<open>The indexes of the root ports a document leaves with hotplug on.\<close>

definition hotplugRootPorts :: "xmldoc \<Rightarrow> goerr + string list" where
  "hotplugRootPorts doc = (case doc of
     None \<Rightarrow> Inl (WrapErr ''parsing domain XML'' [] (NewErr ''XML syntax error'' []))
   | Some x \<Rightarrow>
       let controllers = concat (map (\<lambda>dv. map (\<lambda>c. controllerInto c zeroController) (named ''controller'' dv)) (named ''devices'' x))
       in Inr (map cd_index (filter (\<lambda>c. cd_type c = pciControllerType \<and> cd_model c = pcieRootPortModel
                 \<and> cd_target c \<noteq> Some pcieRootPortHotplug) controllers)))"

end
