(* ===== verification/Cloud_Init.thy ===== *)
theory Cloud_Init
  imports Provider_Api Sha256
begin

text \<open>
  \<^verbatim>\<open>internal/cloudinit/nocloud.go\<close>, and the small vocabulary its steps and those of the libvirt
  backend are written in: an action takes the state of the world and returns a result or an error
  with the new state. The YAML marshaller and the ISO 9660 writer are third-party code, parameters
  that act on the world; the writer is a handle.
\<close>

section \<open>Actions\<close>

type_synonym ('d, 'a) act = "'d \<Rightarrow> (goerr + 'a) \<times> 'd"

definition ret :: "'a \<Rightarrow> ('d, 'a) act" where
  "ret x d = (Inr x, d)"

definition fail :: "goerr \<Rightarrow> ('d, 'a) act" where
  "fail e d = (Inl e, d)"

definition andThen :: "('d, 'a) act \<Rightarrow> ('a \<Rightarrow> ('d, 'b) act) \<Rightarrow> ('d, 'b) act" where
  "andThen m f d = (case m d of (Inl e, d1) \<Rightarrow> (Inl e, d1) | (Inr x, d1) \<Rightarrow> f x d1)"

definition onError :: "('d, 'a) act \<Rightarrow> (goerr \<Rightarrow> ('d, 'a) act) \<Rightarrow> ('d, 'a) act" where
  "onError m h d = (case m d of (Inl e, d1) \<Rightarrow> h e d1 | (Inr x, d1) \<Rightarrow> (Inr x, d1))"

text \<open>The error wrapped, and an action whose error is dropped.\<close>

definition wrapping :: "string \<Rightarrow> string list \<Rightarrow> ('d, 'a) act \<Rightarrow> ('d, 'a) act" where
  "wrapping text as m = onError m (\<lambda>e. fail (WrapErr text as e))"

definition ignoring :: "('d, 'a) act \<Rightarrow> ('d, unit) act" where
  "ignoring m d = (Inr (), snd (m d))"

definition lift :: "goerr + 'a \<Rightarrow> ('d, 'a) act" where
  "lift r d = (r, d)"

fun eachOf :: "('x \<Rightarrow> ('d, unit) act) \<Rightarrow> 'x list \<Rightarrow> ('d, unit) act" where
  "eachOf f [] = ret ()"
| "eachOf f (x # xs) = andThen (f x) (\<lambda>_. eachOf f xs)"

section \<open>The datasource image\<close>

record 'd imageLib =
  yaml_marshal :: "(string \<times> string) list \<Rightarrow> goerr + byte list"
  iso_newWriter :: "('d, nat) act"
  iso_addFile :: "nat \<Rightarrow> byte list \<Rightarrow> string \<Rightarrow> ('d, unit) act"
  iso_writeTo :: "nat \<Rightarrow> string \<Rightarrow> ('d, byte list) act"
  iso_cleanup :: "nat \<Rightarrow> 'd \<Rightarrow> 'd"

record Metadata =
  meta_instanceID :: string
  meta_hostname :: string

definition VolumeLabel :: string where "VolumeLabel = ''cidata''"
definition maxUserDataBytes :: nat where "maxUserDataBytes = 1048576"

definition ErrNoUserData :: goerr where
  "ErrNoUserData = marked ErrCloudInitInvalid ''no user data'' []"

definition networkConfigLines :: "string list" where
  "networkConfigLines = [''version: 2'', ''ethernets:'',
     ''  hydra-en:'', ''    match:'', ''      name: '' @ quoted ''en*'', ''    dhcp4: true'', ''    optional: true'',
     ''  hydra-eth:'', ''    match:'', ''      name: '' @ quoted ''eth*'', ''    dhcp4: true'', ''    optional: true'']"

definition networkConfig :: "byte list" where
  "networkConfig = map (\<lambda>c. of_nat (of_char c)) (concat (map (\<lambda>l. l @ [CHR 10]) networkConfigLines))"

definition metadataYAML :: "'d imageLib \<Rightarrow> Metadata \<Rightarrow> goerr + byte list" where
  "metadataYAML il meta =
     (let doc = (''instance-id'', meta_instanceID meta)
            # (if meta_hostname meta \<noteq> [] then [(''local-hostname'', meta_hostname meta)] else [])
      in case yaml_marshal il doc of
           Inl e \<Rightarrow> Inl (WrapErr ''cloudinit: rendering meta-data'' [] e)
         | Inr out \<Rightarrow> Inr out)"

text \<open>What is done with a writer, which is cleaned up either way.\<close>

definition writeImage :: "'d imageLib \<Rightarrow> nat \<Rightarrow> byte list \<Rightarrow> byte list \<Rightarrow> ('d, byte list) act" where
  "writeImage il w userData metaData d =
     (let (res, d1) =
        andThen (wrapping ''cloudinit: adding user-data'' [] (iso_addFile il w userData ''user-data'')) (\<lambda>_.
        andThen (wrapping ''cloudinit: adding meta-data'' [] (iso_addFile il w metaData ''meta-data'')) (\<lambda>_.
        andThen (wrapping ''cloudinit: adding network-config'' [] (iso_addFile il w networkConfig ''network-config'')) (\<lambda>_.
        wrapping ''cloudinit: writing the datasource image'' [] (iso_writeTo il w VolumeLabel)))) d
      in (res, iso_cleanup il w d1))"

definition ISO :: "'d imageLib \<Rightarrow> Metadata \<Rightarrow> byte list \<Rightarrow> ('d, byte list) act" where
  "ISO il meta userData =
     (if userData = [] then fail ErrNoUserData
      else if length userData > maxUserDataBytes
      then fail (marked ErrCloudInitInvalid ''user data exceeds the limit'' [])
      else if meta_instanceID meta = [] then fail (marked ErrCloudInitInvalid ''instance id is required'' [])
      else case metadataYAML il meta of
          Inl e \<Rightarrow> fail (marked ErrCloudInitInvalid ''rendering'' [])
        | Inr metaData \<Rightarrow>
            andThen (wrapping ''cloudinit: staging the datasource image'' [] (iso_newWriter il)) (\<lambda>w.
            writeImage il w userData metaData))"

section \<open>Laws of actions\<close>

lemma andThen_Inr: "andThen m f d = (Inr y, d2) \<longleftrightarrow> (\<exists>x d1. m d = (Inr x, d1) \<and> f x d1 = (Inr y, d2))"
  by (auto simp: andThen_def split: sum.splits prod.splits)

lemma andThen_Inl: "andThen m f d = (Inl e, d2) \<longleftrightarrow> m d = (Inl e, d2) \<or> (\<exists>x d1. m d = (Inr x, d1) \<and> f x d1 = (Inl e, d2))"
  by (auto simp: andThen_def split: sum.splits prod.splits)

lemma onError_Inr: "onError m h d = (Inr y, d2) \<longleftrightarrow> m d = (Inr y, d2) \<or> (\<exists>e d1. m d = (Inl e, d1) \<and> h e d1 = (Inr y, d2))"
  by (auto simp: onError_def split: sum.splits prod.splits)

lemma onError_Inl: "onError m h d = (Inl e, d2) \<longleftrightarrow> (\<exists>e1 d1. m d = (Inl e1, d1) \<and> h e1 d1 = (Inl e, d2))"
  by (auto simp: onError_def split: sum.splits prod.splits)

lemma wrapping_Inr: "wrapping t as m d = (Inr y, d2) \<longleftrightarrow> m d = (Inr y, d2)"
  by (simp add: wrapping_def onError_Inr fail_def)

lemma wrapping_Inl: "wrapping t as m d = (Inl e, d2) \<longleftrightarrow> (\<exists>e1. m d = (Inl e1, d2) \<and> e = WrapErr t as e1)"
  by (auto simp: wrapping_def onError_Inl fail_def)

lemmas act_simps = andThen_Inr andThen_Inl onError_Inr onError_Inl wrapping_Inr wrapping_Inl

text \<open>
  A relation an action keeps between the states before and after, whatever it returns: it holds of
  a composed action when it holds of the parts.
\<close>

definition keeps :: "('d \<Rightarrow> 'd \<Rightarrow> bool) \<Rightarrow> ('d, 'a) act \<Rightarrow> bool" where
  "keeps R m \<longleftrightarrow> (\<forall>d. R d (snd (m d)))"

locale kept =
  fixes R :: "'d \<Rightarrow> 'd \<Rightarrow> bool"
  assumes kept_refl: "R d d"
    and kept_trans: "R d d1 \<Longrightarrow> R d1 d2 \<Longrightarrow> R d d2"
begin

lemma keeps_ret: "keeps R (ret x)" and keeps_fail: "keeps R (fail e)" and keeps_lift: "keeps R (lift r)"
  by (simp_all add: keeps_def ret_def fail_def lift_def kept_refl)

lemma keeps_andThen: "keeps R m \<Longrightarrow> (\<And>x. keeps R (f x)) \<Longrightarrow> keeps R (andThen m f)"
  by (auto simp: keeps_def andThen_def split: sum.splits prod.splits) (metis kept_trans snd_conv)+

lemma keeps_andThen_found: "keeps R m \<Longrightarrow> (\<And>d x d1. m d = (Inr x, d1) \<Longrightarrow> keeps R (f x)) \<Longrightarrow> keeps R (andThen m f)"
  by (auto simp: keeps_def andThen_def split: sum.splits prod.splits) (metis kept_trans snd_conv)+

lemma keeps_onError: "keeps R m \<Longrightarrow> (\<And>e. keeps R (h e)) \<Longrightarrow> keeps R (onError m h)"
  by (auto simp: keeps_def onError_def split: sum.splits prod.splits) (metis kept_trans snd_conv)+

lemma keeps_wrapping: "keeps R m \<Longrightarrow> keeps R (wrapping t as m)"
  unfolding wrapping_def by (intro keeps_onError keeps_fail)

lemma keeps_ignoring: "keeps R m \<Longrightarrow> keeps R (ignoring m)"
  by (simp add: keeps_def ignoring_def)

lemma keeps_eachOf: "(\<And>x. x \<in> set xs \<Longrightarrow> keeps R (f x)) \<Longrightarrow> keeps R (eachOf f xs)"
  by (induction xs) (auto intro: keeps_ret keeps_andThen)

text \<open>An action given case by case on what another one answered, or on a test.\<close>

lemma keeps_cases:
  assumes "keeps R m" "\<And>e. keeps R (h e)" "\<And>d x d1. m d = (Inr x, d1) \<Longrightarrow> keeps R (f x)"
  shows "keeps R (\<lambda>d. case m d of (Inl e, d1) \<Rightarrow> h e d1 | (Inr x, d1) \<Rightarrow> f x d1)"
  using assms unfolding keeps_def by (auto split: prod.splits sum.splits) (metis kept_trans snd_conv)+

lemma keeps_if: "(b \<Longrightarrow> keeps R m) \<Longrightarrow> (\<not> b \<Longrightarrow> keeps R m') \<Longrightarrow> keeps R (if b then m else m')"
  by simp

lemma keeps_if_at: "(b \<Longrightarrow> keeps R m) \<Longrightarrow> (\<not> b \<Longrightarrow> keeps R m') \<Longrightarrow> keeps R (\<lambda>d. if b then m d else m' d)"
  by (cases b) simp_all

lemmas keeps_intros = keeps_ret keeps_fail keeps_lift keeps_andThen keeps_onError keeps_wrapping keeps_ignoring keeps_eachOf
  keeps_cases keeps_if keeps_if_at

lemma keeps_ISO:
  assumes "keeps R (iso_newWriter il)" "\<And>w bs n. keeps R (iso_addFile il w bs n)" "\<And>w l. keeps R (iso_writeTo il w l)"
    and "\<And>w d. R d (iso_cleanup il w d)"
  shows "keeps R (ISO il meta userData)"
proof -
  have "keeps R (writeImage il w u m)" for w u m
  proof -
    define act where "act = andThen (wrapping ''cloudinit: adding user-data'' [] (iso_addFile il w u ''user-data'')) (\<lambda>_.
        andThen (wrapping ''cloudinit: adding meta-data'' [] (iso_addFile il w m ''meta-data'')) (\<lambda>_.
        andThen (wrapping ''cloudinit: adding network-config'' [] (iso_addFile il w networkConfig ''network-config'')) (\<lambda>_.
        wrapping ''cloudinit: writing the datasource image'' [] (iso_writeTo il w VolumeLabel))))"
    have k: "keeps R act" unfolding act_def by (intro keeps_intros assms)
    have "snd (writeImage il w u m d) = iso_cleanup il w (snd (act d))" for d
      by (simp add: writeImage_def act_def [symmetric] split_beta)
    moreover have "R d (iso_cleanup il w (snd (act d)))" for d
      by (rule kept_trans [OF _ assms(4)]) (use k in \<open>simp add: keeps_def\<close>)
    ultimately show ?thesis by (simp add: keeps_def)
  qed
  then show ?thesis unfolding ISO_def by (auto split: sum.splits intro!: keeps_intros assms)
qed

end

end
