(* ===== verification/Libvirt_Provider.thy ===== *)
theory Libvirt_Provider
  imports Libvirt_Xml Cloud_Init
begin

text \<open>
  \<^verbatim>\<open>internal/providers/libvirt/libvirt.go\<close>: the operations of the libvirt backend, every call of
  the daemon in the order of the sources. The client of the daemon is third-party code, a record of
  actions on the state of the host; which contexts end when is part of that state, as is the
  connection (\<^verbatim>\<open>begin\<close>, with \<^verbatim>\<open>ensureConnected\<close> behind it, is one action).
\<close>

section \<open>The client\<close>

record Domain =
  dom_name :: string
  dom_uuid :: UUID

record StoragePool =
  sp_name :: string

record StorageVol =
  sv_pool :: string
  sv_name :: string
  sv_key :: string

record LvNetwork =
  nw_name :: string

datatype addrSource = addrSourceAgent | addrSourceLease

record 'd client =
  lv_domainLookupByName :: "string \<Rightarrow> ('d, Domain) act"
  lv_domainLookupByUUID :: "UUID \<Rightarrow> ('d, Domain) act"
  lv_domainDefineXML :: "xmldoc \<Rightarrow> ('d, Domain) act"
  lv_domainIsActive :: "Domain \<Rightarrow> ('d, int) act"
  lv_domainGetXMLDesc :: "Domain \<Rightarrow> bool \<Rightarrow> ('d, xmldoc) act"
  lv_domainCreate :: "Domain \<Rightarrow> ('d, unit) act"
  lv_domainSetAutostart :: "Domain \<Rightarrow> int \<Rightarrow> ('d, unit) act"
  lv_domainDestroy :: "Domain \<Rightarrow> ('d, unit) act"
  lv_domainUndefineFlags :: "Domain \<Rightarrow> ('d, unit) act"
  lv_domainGetState :: "Domain \<Rightarrow> ('d, int) act"
  lv_domainInterfaceAddresses :: "Domain \<Rightarrow> addrSource \<Rightarrow> ('d, string list list) act"
  lv_listStoragePools :: "bool \<Rightarrow> ('d, StoragePool list) act"
  lv_storagePoolLookupByName :: "string \<Rightarrow> ('d, StoragePool) act"
  lv_storagePoolIsActive :: "StoragePool \<Rightarrow> ('d, int) act"
  lv_storagePoolGetXMLDesc :: "StoragePool \<Rightarrow> ('d, xmldoc) act"
  lv_storageVolCreateXML :: "StoragePool \<Rightarrow> xmldoc \<Rightarrow> ('d, StorageVol) act"
  lv_storageVolLookupByName :: "StoragePool \<Rightarrow> string \<Rightarrow> ('d, StorageVol) act"
  lv_storageVolLookupByPath :: "string \<Rightarrow> ('d, StorageVol) act"
  lv_storageVolGetPath :: "StorageVol \<Rightarrow> ('d, string) act"
  lv_storageVolUpload :: "StorageVol \<Rightarrow> byte list \<Rightarrow> ('d, unit) act"
  lv_storageVolDelete :: "StorageVol \<Rightarrow> ('d, unit) act"
  lv_networkLookupByName :: "string \<Rightarrow> ('d, LvNetwork) act"
  lv_networkDefineXML :: "xmldoc \<Rightarrow> ('d, LvNetwork) act"
  lv_networkIsActive :: "LvNetwork \<Rightarrow> ('d, int) act"
  lv_networkCreate :: "LvNetwork \<Rightarrow> ('d, unit) act"
  lv_networkSetAutostart :: "LvNetwork \<Rightarrow> int \<Rightarrow> ('d, unit) act"
  lv_networkGetXMLDesc :: "LvNetwork \<Rightarrow> ('d, xmldoc) act"
  lv_begin :: "('d, unit) act"
  lv_ctxErr :: "'d \<Rightarrow> sentinel option"
  lv_answered :: "'d \<Rightarrow> bool"
  lv_recycle :: "'d \<Rightarrow> 'd"

record 'd Provider =
  pv_client :: "'d client"
  pv_image :: "'d imageLib"
  pv_storagePool :: string
  pv_baseImage :: string

text \<open>
  \<^verbatim>\<open>call\<close>, \<^verbatim>\<open>callVoid\<close> and \<^verbatim>\<open>call2\<close>: the answer of the daemon, or the context's error when it
  ended first; then the connection is dropped, and whether the call took effect is not known.
\<close>

definition call :: "'d Provider \<Rightarrow> ('d, 'a) act \<Rightarrow> ('d, 'a) act" where
  "call p fn d = (case fn d of (r, d1) \<Rightarrow>
     (case lv_ctxErr (pv_client p) d1 of
        Some e \<Rightarrow> if lv_answered (pv_client p) d1 then (r, d1) else (Inl (Sentinel e), lv_recycle (pv_client p) d1)
      | None \<Rightarrow> (r, d1)))"

section \<open>Errors\<close>

definition isAlreadyExists :: "goerr \<Rightarrow> bool" where
  "isAlreadyExists e \<longleftrightarrow> lvCodeOf e \<in> {Some LvStorageVolExist, Some LvNetworkExist}"

definition isNotFound :: "goerr \<Rightarrow> bool" where
  "isNotFound e \<longleftrightarrow> lvCodeOf e \<in> {Some LvNoDomain, Some LvNoStorageVol, Some LvNoStoragePool, Some LvNoNetwork}"

definition isNoStorageVol :: "goerr \<Rightarrow> bool" where
  "isNoStorageVol e \<longleftrightarrow> lvCodeOf e = Some LvNoStorageVol"

definition isContextErr :: "goerr \<Rightarrow> bool" where
  "isContextErr e \<longleftrightarrow> errorsIs e ContextCanceled \<or> errorsIs e ContextDeadlineExceeded"

definition isInvalidState :: "goerr \<Rightarrow> bool" where
  "isInvalidState e \<longleftrightarrow> lvCodeOf e = Some LvOperationInvalid"

text \<open>A call whose error is nothing when it says the object is gone, or in the wrong state.\<close>

definition tolerating :: "(goerr \<Rightarrow> bool) \<Rightarrow> string \<Rightarrow> string list \<Rightarrow> ('d, unit) act \<Rightarrow> ('d, unit) act" where
  "tolerating P text as m = onError m (\<lambda>e. if P e then ret () else fail (WrapErr text as e))"

section \<open>Paths\<close>

fun splitPath :: "string \<Rightarrow> string \<Rightarrow> string list" where
  "splitPath acc [] = [rev acc]"
| "splitPath acc (c # cs) = (if c = CHR ''/'' then rev acc # splitPath [] cs else splitPath (c # acc) cs)"

text \<open>\<^verbatim>\<open>filepath.Clean\<close>: the stack holds the elements kept so far, the last one first.\<close>

fun cleanElems :: "bool \<Rightarrow> string list \<Rightarrow> string list \<Rightarrow> string list" where
  "cleanElems rooted stack [] = rev stack"
| "cleanElems rooted stack (e # es) =
     (if e = [] \<or> e = ''.'' then cleanElems rooted stack es
      else if e = ''..'' then
        (case stack of
           t # ts \<Rightarrow> if t = ''..'' then cleanElems rooted (e # stack) es else cleanElems rooted ts es
         | [] \<Rightarrow> if rooted then cleanElems rooted [] es else cleanElems rooted [e] es)
      else cleanElems rooted (e # stack) es)"

definition cleanPath :: "string \<Rightarrow> string" where
  "cleanPath s = (let rooted = (take 1 s = ''/'');
        body = joinStrings ''/'' (cleanElems rooted [] (splitPath [] s))
     in if rooted then ''/'' @ body else if body = [] then ''.'' else body)"

definition basePath :: "string \<Rightarrow> string" where
  "basePath s = (if s = [] then ''.''
     else let t = trimRight s ''/'' in if t = [] then ''/'' else last (splitPath [] t))"

definition dirPath :: "string \<Rightarrow> string" where
  "dirPath s = cleanPath (rev (dropWhile (\<lambda>c. c \<noteq> CHR ''/'') (rev s)))"

section \<open>Names and disks\<close>

definition rootVolumeName :: "string \<Rightarrow> string" where
  "rootVolumeName machineName = machineName @ ''.qcow2''"

definition cidataVolumeName :: "string \<Rightarrow> string" where
  "cidataVolumeName machineName = machineName @ ''-cidata.iso''"

definition partitionOwnedDisks :: "string \<Rightarrow> string list \<Rightarrow> string list \<times> string list" where
  "partitionOwnedDisks machineName disks =
     (let owned = (\<lambda>path. basePath path \<in> {rootVolumeName machineName, cidataVolumeName machineName})
      in (filter owned disks, filter (\<lambda>d. \<not> owned d) disks))"

definition StoragePoolFor :: "'d Provider \<Rightarrow> string \<Rightarrow> string" where
  "StoragePoolFor p requested = (if requested \<noteq> [] then requested else pv_storagePool p)"

section \<open>Pools and volumes\<close>

definition lookupPoolNamed :: "'d Provider \<Rightarrow> string \<Rightarrow> ('d, StoragePool) act" where
  "lookupPoolNamed p name0 =
     (let name = (if name0 = [] then pv_storagePool p else name0) in
      if name = []
      then fail (marked ErrTerminal ''libvirt: no storage pool named by the HydraCluster and none configured'' [])
      else onError (call p (lv_storagePoolLookupByName (pv_client p) name))
        (\<lambda>e. if isNotFound e then fail (marked ErrTerminal ''libvirt: storage pool does not exist'' [name])
             else fail (WrapErr ''libvirt: storage pool'' [name] e)))"

definition resolveBackingPath :: "'d Provider \<Rightarrow> StoragePool \<Rightarrow> Image \<Rightarrow> ('d, string) act" where
  "resolveBackingPath p pool img =
     (if img_name img = [] \<and> img_url img \<noteq> []
      then fail (marked ErrTerminal ''libvirt: image must already exist in pool; fetching by URL is not implemented'' [img_url img, sp_name pool])
      else let name = (if img_name img = [] then pv_baseImage p else img_name img) in
      if name = [] then fail (marked ErrTerminal ''libvirt: no image specified and no default base image configured'' [])
      else andThen (onError (call p (lv_storageVolLookupByName (pv_client p) pool name))
            (\<lambda>e. if isNotFound e then fail (marked ErrTerminal ''libvirt: image not found in pool'' [name, sp_name pool])
                 else fail (WrapErr ''libvirt: looking up image'' [name] e)))
          (\<lambda>vol. wrapping ''libvirt: resolving path for image'' [name] (call p (lv_storageVolGetPath (pv_client p) vol))))"

definition volumePath :: "'d Provider \<Rightarrow> StoragePool \<Rightarrow> string \<Rightarrow> ('d, string) act" where
  "volumePath p pool volName =
     andThen (wrapping ''libvirt: looking up volume in pool'' [volName, sp_name pool] (call p (lv_storageVolLookupByName (pv_client p) pool volName)))
       (\<lambda>vol. wrapping ''libvirt: resolving path for volume'' [volName] (call p (lv_storageVolGetPath (pv_client p) vol)))"

definition deleteVolume :: "'d Provider \<Rightarrow> string \<Rightarrow> string \<Rightarrow> ('d, unit) act" where
  "deleteVolume p poolName volName =
     andThen (onError (lookupPoolNamed p poolName)
         (\<lambda>e. fail (NewErr ''libvirt: storage pool is unavailable while deleting'' [poolName, volName])))
       (\<lambda>pool d. case call p (lv_storageVolLookupByName (pv_client p) pool volName) d of
          (Inl e, d1) \<Rightarrow> if isNotFound e then ret () d1 else fail (WrapErr ''libvirt: looking up volume'' [volName] e) d1
        | (Inr vol, d1) \<Rightarrow> tolerating isNotFound ''libvirt: deleting volume'' [volName]
            (call p (lv_storageVolDelete (pv_client p) vol)) d1)"

section \<open>Networks\<close>

text \<open>
  \<^verbatim>\<open>net.IP(mask).String()\<close>: a four-byte mask in dots, a sixteen-byte one in colons. A subnet whose
  network number is not IPv4 although its address is makes the sources index past the end; the panic
  ends the reconcile with an error.
\<close>

definition maskGroup :: "nat \<Rightarrow> string" where
  "maskGroup k = (if k = 0 then ''0'' else let n = 65536 - 2 ^ (16 - min k 16) in
     map (\<lambda>i. hexDigits ! (n div 16 ^ i mod 16)) [3, 2, 1, 0])"

definition maskString :: "IPNet \<Rightarrow> string" where
  "maskString n = (if net_is4 n then v4String (mask4 (net_ones n))
     else if net_ones n = 96 then ''ffff:ffff:ffff:ffff:ffff:ffff::''
     else joinStrings '':'' (replicate 6 ''ffff'' @ [maskGroup (net_ones n - 96), maskGroup (net_ones n - 112)]))"

definition subnetParts :: "string \<Rightarrow> goerr + (string \<times> string)" where
  "subnetParts cidr = (case ParseCIDR cidr of
     None \<Rightarrow> Inl (marked ErrTerminal ''libvirt: subnet is not valid CIDR'' [cidr])
   | Some (ip, ipnet) \<Rightarrow>
       if To4 ip = None then Inl (marked ErrTerminal ''libvirt: subnet is not IPv4'' [cidr])
       else if (if net_is4 ipnet then 32 else 128) - net_ones ipnet < 2
       then Inl (marked ErrTerminal ''libvirt: subnet leaves no addresses for machines after the gateway'' [cidr])
       else (case To4 (net_ip ipnet) of
           None \<Rightarrow> Inl (NewErr ''runtime error: index out of range [3] with length 0'' [])
         | Some base \<Rightarrow> Inr (v4String ((base AND NOT 0xff) OR ((base + 1) AND 0xff)), maskString ipnet)))"

text \<open>Up if it is not running, which something else may do meanwhile, and up again after a reboot.\<close>

definition bringUp :: "'d Provider \<Rightarrow> LvNetwork \<Rightarrow> string \<Rightarrow> ('d, unit) act" where
  "bringUp p n name =
     andThen (wrapping ''libvirt: checking whether network is running'' [name] (call p (lv_networkIsActive (pv_client p) n))) (\<lambda>active.
     andThen
       (if active = 0
        then onError (call p (lv_networkCreate (pv_client p) n))
          (\<lambda>e d. case call p (lv_networkIsActive (pv_client p) n) d of
             (Inr again, d1) \<Rightarrow> if again \<noteq> 1 then fail (WrapErr ''libvirt: starting network'' [name] e) d1 else ret () d1
           | (Inl _, d1) \<Rightarrow> fail (WrapErr ''libvirt: starting network'' [name] e) d1)
        else ret ())
       (\<lambda>_. wrapping ''libvirt: setting autostart on network'' [name] (call p (lv_networkSetAutostart (pv_client p) n 1))))"

definition networkBridge :: "'d Provider \<Rightarrow> LvNetwork \<Rightarrow> string \<Rightarrow> ('d, string) act" where
  "networkBridge p n name =
     andThen (wrapping ''libvirt: reading network'' [name] (call p (lv_networkGetXMLDesc (pv_client p) n))) (\<lambda>desc.
     andThen (wrapping ''libvirt: parsing network'' [name] (lift (unmarshalNetwork desc))) (\<lambda>parsed.
     if nd_bridgeName parsed = [] then fail (NewErr ''libvirt: network reports no bridge to attach machines to'' [name])
     else ret (nd_bridgeName parsed)))"

definition networkMismatch :: "networkDef \<Rightarrow> ManagedNetwork \<Rightarrow> string \<Rightarrow> string \<Rightarrow> goerr option" where
  "networkMismatch parsed spec gateway netmask =
     (if nd_forwardMode parsed \<noteq> netForwardOpen
      then Some (marked ErrTerminal ''libvirt: network has a forward mode other than open'' [mn_name spec, nd_forwardMode parsed])
      else if ni_address (nd_ip parsed) \<noteq> gateway \<or> ni_netmask (nd_ip parsed) \<noteq> netmask
      then Some (marked ErrTerminal ''libvirt: network is not the subnet the cluster declares'' [mn_name spec, mn_subnet spec])
      else (case ni_dhcp (nd_ip parsed) of
          None \<Rightarrow> Some (marked ErrTerminal ''libvirt: network hands out no addresses'' [mn_name spec])
        | Some (start, stop) \<Rightarrow>
            if start \<noteq> mn_dhcpStart spec \<or> stop \<noteq> mn_dhcpEnd spec
            then Some (marked ErrTerminal ''libvirt: network hands out another range than declared'' [mn_name spec, start, stop])
            else None))"

definition verifyNetwork :: "'d Provider \<Rightarrow> LvNetwork \<Rightarrow> ManagedNetwork \<Rightarrow> string \<Rightarrow> string \<Rightarrow> ('d, string) act" where
  "verifyNetwork p n spec gateway netmask =
     andThen (wrapping ''libvirt: reading network'' [mn_name spec] (call p (lv_networkGetXMLDesc (pv_client p) n))) (\<lambda>desc.
     andThen (wrapping ''libvirt: parsing network'' [mn_name spec] (lift (unmarshalNetwork desc))) (\<lambda>parsed.
     case networkMismatch parsed spec gateway netmask of
       Some e \<Rightarrow> fail e
     | None \<Rightarrow> andThen (bringUp p n (mn_name spec)) (\<lambda>_. networkBridge p n (mn_name spec))))"

definition createNetwork :: "'d Provider \<Rightarrow> ManagedNetwork \<Rightarrow> string \<Rightarrow> string \<Rightarrow> ('d, string) act" where
  "createNetwork p spec gateway netmask =
     andThen (wrapping ''libvirt: defining network'' [mn_name spec] (call p (lv_networkDefineXML (pv_client p) (networkXML spec gateway netmask)))) (\<lambda>created.
     andThen (bringUp p created (mn_name spec)) (\<lambda>_. networkBridge p created (mn_name spec)))"

definition attachableNetwork :: "'d Provider \<Rightarrow> ManagedNetwork \<Rightarrow> bool \<Rightarrow> ('d, string) act" where
  "attachableNetwork p spec define =
     (case subnetParts (mn_subnet spec) of
        Inl e \<Rightarrow> fail e
      | Inr (gateway, netmask) \<Rightarrow> (\<lambda>d.
          case call p (lv_networkLookupByName (pv_client p) (mn_name spec)) d of
            (Inl e, d1) \<Rightarrow>
              if \<not> isNotFound e then fail (WrapErr ''libvirt: looking up network'' [mn_name spec] e) d1
              else if \<not> define then fail (NewErr ''libvirt: managed network does not exist'' [mn_name spec]) d1
              else createNetwork p spec gateway netmask d1
          | (Inr existing, d1) \<Rightarrow> verifyNetwork p existing spec gateway netmask d1))"

definition ensureNetwork :: "'d Provider \<Rightarrow> ManagedNetwork \<Rightarrow> ('d, string) act" where
  "ensureNetwork p spec = attachableNetwork p spec True"

definition resolveNetwork :: "'d Provider \<Rightarrow> ManagedNetwork \<Rightarrow> ('d, string) act" where
  "resolveNetwork p spec = attachableNetwork p spec False"

section \<open>Observing machines\<close>

text \<open>\<^verbatim>\<open>IP.IsGlobalUnicast\<close>, on the two lengths of an address.\<close>

fun isGlobalUnicast :: "ip \<Rightarrow> bool" where
  "isGlobalUnicast (V4 w) \<longleftrightarrow> w \<noteq> 0xffffffff \<and> w \<noteq> 0 \<and> drop_bit 24 w \<noteq> 127 \<and> drop_bit 28 w \<noteq> 0xe \<and> drop_bit 16 w \<noteq> 0xa9fe"
| "isGlobalUnicast (V6 w) \<longleftrightarrow> w \<noteq> 0 \<and> w \<noteq> 1 \<and> drop_bit 120 w \<noteq> 0xff \<and> drop_bit 118 w \<noteq> 0x3fa"

definition isRoutable :: "string \<Rightarrow> bool" where
  "isRoutable addr = (case ParseIP addr of None \<Rightarrow> False | Some ip \<Rightarrow> isGlobalUnicast ip)"

definition routableOf :: "string list list \<Rightarrow> Address list" where
  "routableOf ifaces = map (\<lambda>a. \<lparr>addr_type = InternalIP, addr_value = a\<rparr>) (filter isRoutable (concat ifaces))"

fun addressesFrom :: "'d Provider \<Rightarrow> Domain \<Rightarrow> addrSource list \<Rightarrow> ('d, Address list) act" where
  "addressesFrom p dm [] d = (Inr [], d)"
| "addressesFrom p dm (source # sources) d =
     (case call p (lv_domainInterfaceAddresses (pv_client p) dm source) d of
        (Inl e, d1) \<Rightarrow>
          (case lv_ctxErr (pv_client p) d1 of
             Some c \<Rightarrow> (Inl (WrapErr ''libvirt: querying addresses'' [dom_name dm] (Sentinel c)), d1)
           | None \<Rightarrow> addressesFrom p dm sources d1)
      | (Inr ifaces, d1) \<Rightarrow>
          let out = routableOf ifaces in
          if out \<noteq> [] then (Inr out, d1) else addressesFrom p dm sources d1)"

definition addressesOf :: "'d Provider \<Rightarrow> Domain \<Rightarrow> ('d, Address list) act" where
  "addressesOf p dm = addressesFrom p dm [addrSourceAgent, addrSourceLease]"

definition stateOf :: "'d Provider \<Rightarrow> Domain \<Rightarrow> ('d, MachineState) act" where
  "stateOf p dm =
     andThen (wrapping ''libvirt: domain state'' [formatUUID (dom_uuid dm)] (call p (lv_domainGetState (pv_client p) dm))) (\<lambda>st.
     andThen (addressesOf p dm) (\<lambda>addrs.
     ret \<lparr>st_id = formatUUID (dom_uuid dm), st_name = dom_name dm, st_ready = (st = 1),
          st_addresses = addrs @ [\<lparr>addr_type = Hostname, addr_value = dom_name dm\<rparr>]\<rparr>))"

definition lookupByUUID :: "'d Provider \<Rightarrow> string \<Rightarrow> ('d, Domain) act" where
  "lookupByUUID p ident =
     (case parseUUID ident of
        Inl _ \<Rightarrow> fail (marked ErrInvalidID ''libvirt: machine id is not a UUID'' [ident])
      | Inr uuid \<Rightarrow> onError (call p (lv_domainLookupByUUID (pv_client p) uuid))
          (\<lambda>e. if isNotFound e then fail (Sentinel ErrNotFound) else fail (WrapErr ''libvirt: looking up domain'' [ident] e)))"

definition lvGet :: "'d Provider \<Rightarrow> string \<Rightarrow> ('d, MachineState) act" where
  "lvGet p ident = andThen (lv_begin (pv_client p)) (\<lambda>_. andThen (lookupByUUID p ident) (\<lambda>dm. stateOf p dm))"

definition lvFindByName :: "'d Provider \<Rightarrow> string \<Rightarrow> ('d, MachineState) act" where
  "lvFindByName p name = andThen (lv_begin (pv_client p)) (\<lambda>_.
     andThen (onError (call p (lv_domainLookupByName (pv_client p) name))
       (\<lambda>e. if isNotFound e then fail (Sentinel ErrNotFound) else fail (WrapErr ''libvirt: looking up domain'' [name] e)))
     (\<lambda>dm. stateOf p dm))"

section \<open>Creating\<close>

text \<open>\<^verbatim>\<open>startVerified\<close> with the steps \<^verbatim>\<open>startStepsFor\<close> gives it.\<close>

definition startVerified :: "'d Provider \<Rightarrow> Domain \<Rightarrow> ('d, unit) act" where
  "startVerified p dm =
     andThen (wrapping ''libvirt: checking whether domain is active'' [dom_name dm] (call p (lv_domainIsActive (pv_client p) dm))) (\<lambda>active.
     if active = 1 then ret ()
     else andThen (wrapping ''libvirt: reading back domain XML'' [dom_name dm] (call p (lv_domainGetXMLDesc (pv_client p) dm True))) (\<lambda>desc.
          andThen (wrapping ''libvirt: reading back domain XML'' [dom_name dm] (lift (hotplugRootPorts desc))) (\<lambda>bad.
          if bad \<noteq> [] then fail (marked ErrTerminal ''libvirt: not starting domain: pcie-root-ports have hotplug on'' (dom_name dm # bad))
          else wrapping ''libvirt: starting domain'' [dom_name dm] (call p (lv_domainCreate (pv_client p) dm)))))"

definition ensureRunning :: "'d Provider \<Rightarrow> Domain \<Rightarrow> ('d, unit) act" where
  "ensureRunning p dm = andThen (startVerified p dm) (\<lambda>_.
     wrapping ''libvirt: setting autostart on domain'' [dom_name dm] (call p (lv_domainSetAutostart (pv_client p) dm 1)))"

definition createCloudInitVolume :: "'d Provider \<Rightarrow> StoragePool \<Rightarrow> string \<Rightarrow> 64 word \<Rightarrow> ('d, StorageVol) act" where
  "createCloudInitVolume p pool volName sizeBytes =
     onError (call p (lv_storageVolCreateXML (pv_client p) pool (rawVolumeXML volName sizeBytes))) (\<lambda>e.
       if \<not> isAlreadyExists e then fail (WrapErr ''libvirt: creating cloud-init volume'' [volName] e)
       else andThen (wrapping ''libvirt: replacing a leftover cloud-init volume'' [volName] (deleteVolume p (sp_name pool) volName)) (\<lambda>_.
            wrapping ''libvirt: recreating cloud-init volume'' [volName]
              (call p (lv_storageVolCreateXML (pv_client p) pool (rawVolumeXML volName sizeBytes)))))"

definition ensureCloudInitVolume :: "'d Provider \<Rightarrow> StoragePool \<Rightarrow> MachineSpec \<Rightarrow> ('d, string) act" where
  "ensureCloudInitVolume p pool spec =
     (if ms_bootstrapData spec = [] then ret []
      else andThen
        (onError (ISO (pv_image p) \<lparr>meta_instanceID = ms_name spec, meta_hostname = ms_hostname spec\<rparr> (ms_bootstrapData spec))
          (\<lambda>e. if errorsIs e ErrCloudInitInvalid then fail (marked ErrTerminal ''libvirt: rendering cloud-init'' [ms_name spec])
               else fail (WrapErr ''libvirt: rendering cloud-init'' [ms_name spec] e))) (\<lambda>iso.
        let volName = cidataVolumeName (ms_name spec) in
        andThen (createCloudInitVolume p pool volName (of_nat (length iso))) (\<lambda>vol.
        andThen (onError (call p (lv_storageVolUpload (pv_client p) vol iso))
            (\<lambda>e. andThen (ignoring (deleteVolume p (sp_name pool) volName))
               (\<lambda>_. fail (WrapErr ''libvirt: uploading cloud-init image'' [volName] e)))) (\<lambda>_.
        ret volName))))"

definition rollbackVolumes :: "'d Provider \<Rightarrow> StoragePool \<Rightarrow> string \<Rightarrow> string \<Rightarrow> ('d, unit) act" where
  "rollbackVolumes p pool volName cidataVol =
     andThen (ignoring (deleteVolume p (sp_name pool) volName)) (\<lambda>_.
     if cidataVol \<noteq> [] then ignoring (deleteVolume p (sp_name pool) cidataVol) else ret ())"

definition orRollback :: "('d, unit) act \<Rightarrow> ('d, 'a) act \<Rightarrow> ('d, 'a) act" where
  "orRollback rollback m = onError m (\<lambda>e. andThen rollback (\<lambda>_. fail e))"

text \<open>What \<^verbatim>\<open>Create\<close> does once it knows there is no domain of that name.\<close>

definition defineDomain :: "'d Provider \<Rightarrow> StoragePool \<Rightarrow> string \<Rightarrow> string \<Rightarrow> MachineSpec \<Rightarrow> ('d, Domain) act" where
  "defineDomain p pool volName cidataVol spec =
     (let rollback = rollbackVolumes p pool volName cidataVol in
      andThen (orRollback rollback (volumePath p pool volName)) (\<lambda>rootPath.
      andThen (if cidataVol \<noteq> [] then orRollback rollback (volumePath p pool cidataVol) else ret []) (\<lambda>cidataPath.
      andThen (case ms_managedNetwork spec of
          None \<Rightarrow> ret spec
        | Some mn \<Rightarrow> andThen (orRollback rollback (resolveNetwork p mn))
            (\<lambda>bridge. ret (spec\<lparr>ms_networks := ms_networks spec @ [bridge]\<rparr>))) (\<lambda>spec1.
      orRollback rollback (wrapping ''libvirt: defining domain'' [ms_name spec1]
        (call p (lv_domainDefineXML (pv_client p) (domainXML spec1 rootPath cidataPath))))))))"

definition createFresh :: "'d Provider \<Rightarrow> MachineSpec \<Rightarrow> ('d, MachineState) act" where
  "createFresh p spec =
     andThen (lookupPoolNamed p (ms_storagePool spec)) (\<lambda>pool.
     andThen (resolveBackingPath p pool (ms_image spec)) (\<lambda>backingPath.
     let volName = rootVolumeName (ms_name spec) in
     andThen (onError (andThen (call p (lv_storageVolCreateXML (pv_client p) pool (volumeXML volName backingPath (ms_diskBytes spec)))) (\<lambda>_. ret ()))
         (\<lambda>e. if isAlreadyExists e then ret () else fail (WrapErr ''libvirt: creating volume'' [volName] e))) (\<lambda>_.
     andThen (orRollback (ignoring (deleteVolume p (sp_name pool) volName)) (ensureCloudInitVolume p pool spec)) (\<lambda>cidataVol.
     andThen (defineDomain p pool volName cidataVol spec) (\<lambda>dm.
     andThen (ensureRunning p dm) (\<lambda>_. stateOf p dm))))))"

definition lvCreate :: "'d Provider \<Rightarrow> MachineSpec \<Rightarrow> ('d, MachineState) act" where
  "lvCreate p spec = andThen (lv_begin (pv_client p)) (\<lambda>_ d.
     case call p (lv_domainLookupByName (pv_client p) (ms_name spec)) d of
       (Inr dm, d1) \<Rightarrow> andThen (ensureRunning p dm) (\<lambda>_. stateOf p dm) d1
     | (Inl e, d1) \<Rightarrow>
         if isContextErr e then fail e d1
         else if \<not> isNotFound e then fail (WrapErr ''libvirt: looking up domain'' [ms_name spec] e) d1
         else createFresh p spec d1)"

definition lvEnsureInfrastructure :: "'d Provider \<Rightarrow> InfrastructureSpec \<Rightarrow> ('d, unit) act" where
  "lvEnsureInfrastructure p spec = andThen (lv_begin (pv_client p)) (\<lambda>_.
     andThen (lookupPoolNamed p (is_storagePool spec)) (\<lambda>pool.
     andThen (wrapping ''libvirt: checking whether storage pool is active'' [sp_name pool] (call p (lv_storagePoolIsActive (pv_client p) pool))) (\<lambda>active.
     if active \<noteq> 1 then fail (NewErr ''libvirt: storage pool exists but is not running'' [sp_name pool])
     else andThen (case is_managedNetwork spec of None \<Rightarrow> ret () | Some mn \<Rightarrow> andThen (ensureNetwork p mn) (\<lambda>_. ret ())) (\<lambda>_.
     if is_image spec = emptyImage then ret ()
     else andThen (resolveBackingPath p pool (is_image spec)) (\<lambda>_. ret ())))))"

section \<open>Deleting\<close>

text \<open>The loop of \<^verbatim>\<open>deleteVolumeAnyPool\<close>: whether the machine's own pool answered for its contents.\<close>

fun sweepPools :: "'d Provider \<Rightarrow> string \<Rightarrow> string \<Rightarrow> bool \<Rightarrow> StoragePool list \<Rightarrow> ('d, bool) act" where
  "sweepPools p volName ownPool swept [] d = (Inr swept, d)"
| "sweepPools p volName ownPool swept (pool # pools) d =
     (case call p (lv_storageVolLookupByName (pv_client p) pool volName) d of
        (Inl e, d1) \<Rightarrow>
          if isNoStorageVol e then sweepPools p volName ownPool (swept \<or> sp_name pool = ownPool) pools d1
          else if isNotFound e then sweepPools p volName ownPool swept pools d1
          else (Inl (WrapErr ''libvirt: looking up volume in pool'' [volName, sp_name pool] e), d1)
      | (Inr vol, d1) \<Rightarrow>
          (case tolerating isNotFound ''libvirt: deleting volume from pool'' [volName, sp_name pool]
                  (call p (lv_storageVolDelete (pv_client p) vol)) d1 of
             (Inl e, d2) \<Rightarrow> (Inl e, d2)
           | (Inr _, d2) \<Rightarrow> sweepPools p volName ownPool (swept \<or> sp_name pool = ownPool) pools d2))"

definition ownPoolSettled :: "'d Provider \<Rightarrow> string \<Rightarrow> string \<Rightarrow> ('d, unit) act" where
  "ownPoolSettled p volName ownPool d =
     (case call p (lv_storagePoolLookupByName (pv_client p) ownPool) d of
        (Inr _, d1) \<Rightarrow> fail (NewErr ''libvirt: storage pool was not running when it was swept'' [ownPool, volName]) d1
      | (Inl e, d1) \<Rightarrow>
          if isContextErr e then fail e d1
          else if \<not> isNotFound e then fail (WrapErr ''libvirt: looking up storage pool'' [ownPool, volName] e) d1
          else ret () d1)"

definition deleteVolumeAnyPool :: "'d Provider \<Rightarrow> string \<Rightarrow> string \<Rightarrow> ('d, unit) act" where
  "deleteVolumeAnyPool p volName ownPool =
     andThen (onError (call p (lv_listStoragePools (pv_client p) True))
         (\<lambda>e. if isContextErr e then fail e else fail (WrapErr ''libvirt: listing storage pools'' [volName] e))) (\<lambda>pools.
     andThen (sweepPools p volName ownPool False pools) (\<lambda>swept.
     andThen (if ownPool \<noteq> [] \<and> \<not> swept then ownPoolSettled p volName ownPool else ret ()) (\<lambda>_.
     onError (andThen (call p (lv_listStoragePools (pv_client p) False)) (\<lambda>_. ret ()))
       (\<lambda>e. if isContextErr e then fail e else ret ()))))"

definition diskSourcesOf :: "'d Provider \<Rightarrow> Domain \<Rightarrow> ('d, string list) act" where
  "diskSourcesOf p dm d =
     (case call p (lv_domainGetXMLDesc (pv_client p) dm False) d of
        (Inl e, d1) \<Rightarrow> if isNotFound e then ret [] d1 else fail (WrapErr ''libvirt: reading domain XML'' [dom_name dm] e) d1
      | (Inr desc, d1) \<Rightarrow>
          (case unmarshalDomain desc of
             Inl e \<Rightarrow> fail (WrapErr ''libvirt: parsing domain XML'' [dom_name dm] e) d1
           | Inr parsed \<Rightarrow> ret (filter (\<lambda>f. f \<noteq> []) (map dk_sourceFile (dv_disks (dd_devices parsed)))) d1))"

definition networkPoolTypes :: "string set" where
  "networkPoolTypes = {''rbd'', ''sheepdog'', ''gluster'', ''iscsi-direct''}"

text \<open>The stopped pools and their directories.\<close>

fun readPools :: "'d Provider \<Rightarrow> StoragePool list \<Rightarrow> ('d, (string \<times> string) list) act" where
  "readPools p [] d = (Inr [], d)"
| "readPools p (pool # pools) d =
     (case call p (lv_storagePoolGetXMLDesc (pv_client p) pool) d of
        (Inl e, d1) \<Rightarrow> (Inl (WrapErr ''reading storage pool'' [sp_name pool] e), d1)
      | (Inr desc, d1) \<Rightarrow>
          (case unmarshalPool desc of
             Inl e \<Rightarrow> (Inl (WrapErr ''parsing storage pool'' [sp_name pool] e), d1)
           | Inr df \<Rightarrow>
               if pd_targetPath df = []
               then if pd_type df \<in> networkPoolTypes then readPools p pools d1
                    else (Inl (NewErr ''storage pool defines no target path, so it cannot be ruled out'' [sp_name pool, pd_type df]), d1)
               else (case readPools p pools d1 of
                   (Inl e, d2) \<Rightarrow> (Inl e, d2)
                 | (Inr out, d2) \<Rightarrow> (Inr ((sp_name pool, pd_targetPath df) # out), d2))))"

definition stoppedPools :: "'d Provider \<Rightarrow> ('d, (string \<times> string) list) act" where
  "stoppedPools p = andThen (wrapping ''listing stopped storage pools'' [] (call p (lv_listStoragePools (pv_client p) False)))
     (\<lambda>pools. readPools p pools)"

definition confirmReclaimed :: "'d Provider \<Rightarrow> string \<Rightarrow> ('d, unit) act" where
  "confirmReclaimed p volPath =
     andThen (wrapping ''libvirt: volume was not found, and a stopped pool holding it cannot be ruled out'' [volPath] (stoppedPools p)) (\<lambda>stopped.
     case filter (\<lambda>sp. cleanPath (snd sp) = dirPath volPath) stopped of
       [] \<Rightarrow> ret ()
     | sp # _ \<Rightarrow> fail (NewErr ''libvirt: storage pool is not running; keeping the domain until it is'' [fst sp, volPath]))"

definition deleteVolumeByPath :: "'d Provider \<Rightarrow> string \<Rightarrow> ('d, unit) act" where
  "deleteVolumeByPath p path =
     (let lookup = call p (lv_storageVolLookupByPath (pv_client p) path);
          remove = (\<lambda>vol. tolerating isNotFound ''libvirt: deleting volume'' [path] (call p (lv_storageVolDelete (pv_client p) vol)))
      in (\<lambda>d. case lookup d of
           (Inr vol, d1) \<Rightarrow> remove vol d1
         | (Inl e, d1) \<Rightarrow>
             if \<not> isNotFound e then fail (WrapErr ''libvirt: looking up volume'' [path] e) d1
             else andThen (confirmReclaimed p path) (\<lambda>_ d2.
               case lookup d2 of
                 (Inr vol, d3) \<Rightarrow> remove vol d3
               | (Inl e2, d3) \<Rightarrow> if isNotFound e2 then ret () d3
                   else fail (WrapErr ''libvirt: looking up volume again'' [path] e2) d3) d1))"

text \<open>Stopped, not started again by the host, its own disks removed, and only then undefined.\<close>

definition deleteDomain :: "'d Provider \<Rightarrow> Domain \<Rightarrow> ('d, unit) act" where
  "deleteDomain p dm =
     andThen (tolerating (\<lambda>e. isNotFound e \<or> isInvalidState e) ''libvirt: destroying domain'' [dom_name dm]
       (call p (lv_domainDestroy (pv_client p) dm))) (\<lambda>_.
     andThen (tolerating (\<lambda>e. isNotFound e \<or> isInvalidState e) ''libvirt: clearing autostart on domain'' [dom_name dm]
       (call p (lv_domainSetAutostart (pv_client p) dm 0))) (\<lambda>_.
     andThen (diskSourcesOf p dm) (\<lambda>disks.
     andThen (eachOf (deleteVolumeByPath p) (fst (partitionOwnedDisks (dom_name dm) disks))) (\<lambda>_.
     tolerating isNotFound ''libvirt: undefining domain'' [dom_name dm] (call p (lv_domainUndefineFlags (pv_client p) dm))))))"

definition lvDelete :: "'d Provider \<Rightarrow> string \<Rightarrow> ('d, unit) act" where
  "lvDelete p ident = andThen (lv_begin (pv_client p)) (\<lambda>_ d.
     case lookupByUUID p ident d of
       (Inl e, d1) \<Rightarrow> if errorsIs e ErrNotFound then ret () d1 else fail e d1
     | (Inr dm, d1) \<Rightarrow> deleteDomain p dm d1)"

definition lvDeleteByName :: "'d Provider \<Rightarrow> string \<Rightarrow> string \<Rightarrow> ('d, unit) act" where
  "lvDeleteByName p name storagePool = andThen (lv_begin (pv_client p)) (\<lambda>_ d.
     case call p (lv_domainLookupByName (pv_client p) name) d of
       (Inr dm, d1) \<Rightarrow> deleteDomain p dm d1
     | (Inl e, d1) \<Rightarrow>
         if isContextErr e then fail e d1
         else if \<not> isNotFound e then fail (WrapErr ''libvirt: looking up domain'' [name] e) d1
         else let own = (if storagePool = [] then pv_storagePool p else storagePool) in
           eachOf (\<lambda>volName. deleteVolumeAnyPool p volName own) [rootVolumeName name, cidataVolumeName name] d1)"

section \<open>The interface\<close>

definition asOption :: "(goerr + unit) \<times> 'd \<Rightarrow> goerr option \<times> 'd" where
  "asOption r = (case r of (Inl e, d) \<Rightarrow> (Some e, d) | (Inr _, d) \<Rightarrow> (None, d))"

definition libvirtProvider :: "'d Provider \<Rightarrow> 'd MachineProvider" where
  "libvirtProvider p = \<lparr>prov_name = ''libvirt'', prov_storagePoolFor = StoragePoolFor p, prov_create = lvCreate p,
     prov_get = lvGet p, prov_findByName = lvFindByName p, prov_delete = (\<lambda>i d. asOption (lvDelete p i d)),
     prov_ensureInfrastructure = (\<lambda>s d. asOption (lvEnsureInfrastructure p s d)),
     prov_deleteByName = (\<lambda>n pool d. asOption (lvDeleteByName p n pool d))\<rparr>"

end
