(* ===== verification/Libvirt_Calls.thy ===== *)
theory Libvirt_Calls
  imports Libvirt_Provider
begin

text \<open>
  Which relations on the state of the host an operation of the libvirt backend keeps: those that
  every call of the daemon keeps, apart from defining, starting, destroying and undefining a domain,
  which only creating and deleting do, and from removing a volume, where it is enough that removing keeps
  it for the volumes of some names. \<open>Libvirt_Contract\<close> takes the domains of the host for the relation,
  \<open>Libvirt_Props\<close> the volumes of others.
\<close>

section \<open>Calls that keep a relation\<close>

definition callsKeep :: "('d \<Rightarrow> 'd \<Rightarrow> bool) \<Rightarrow> 'd client \<Rightarrow> bool" where
  "callsKeep R cl \<longleftrightarrow>
     (\<forall>n. keeps R (lv_domainLookupByName cl n)) \<and> (\<forall>u. keeps R (lv_domainLookupByUUID cl u))
   \<and> (\<forall>x. keeps R (lv_domainIsActive cl x)) \<and> (\<forall>x b. keeps R (lv_domainGetXMLDesc cl x b))
   \<and> (\<forall>x a. keeps R (lv_domainSetAutostart cl x a))
   \<and> (\<forall>x. keeps R (lv_domainGetState cl x)) \<and> (\<forall>x s. keeps R (lv_domainInterfaceAddresses cl x s))
   \<and> (\<forall>b. keeps R (lv_listStoragePools cl b)) \<and> (\<forall>n. keeps R (lv_storagePoolLookupByName cl n))
   \<and> (\<forall>x. keeps R (lv_storagePoolIsActive cl x)) \<and> (\<forall>x. keeps R (lv_storagePoolGetXMLDesc cl x))
   \<and> (\<forall>x t. keeps R (lv_storageVolCreateXML cl x t)) \<and> (\<forall>x n. keeps R (lv_storageVolLookupByName cl x n))
   \<and> (\<forall>n. keeps R (lv_storageVolLookupByPath cl n)) \<and> (\<forall>v. keeps R (lv_storageVolGetPath cl v))
   \<and> (\<forall>v b. keeps R (lv_storageVolUpload cl v b))
   \<and> (\<forall>n. keeps R (lv_networkLookupByName cl n)) \<and> (\<forall>t. keeps R (lv_networkDefineXML cl t))
   \<and> (\<forall>n. keeps R (lv_networkIsActive cl n)) \<and> (\<forall>n. keeps R (lv_networkCreate cl n))
   \<and> (\<forall>n a. keeps R (lv_networkSetAutostart cl n a)) \<and> (\<forall>n. keeps R (lv_networkGetXMLDesc cl n))
   \<and> keeps R (lv_begin cl) \<and> (\<forall>d. R d (lv_recycle cl d))"

definition imageKeeps :: "('d \<Rightarrow> 'd \<Rightarrow> bool) \<Rightarrow> 'd imageLib \<Rightarrow> bool" where
  "imageKeeps R il \<longleftrightarrow> keeps R (iso_newWriter il) \<and> (\<forall>w bs n. keeps R (iso_addFile il w bs n))
   \<and> (\<forall>w l. keeps R (iso_writeTo il w l)) \<and> (\<forall>w d. R d (iso_cleanup il w d))"

lemma call_Inr: "call p m d = (Inr x, d1) \<Longrightarrow> m d = (Inr x, d1)"
  by (auto simp: call_def split: prod.splits option.splits if_splits)

locale calls_kept = kept R for R :: "'d \<Rightarrow> 'd \<Rightarrow> bool" +
  fixes p :: "'d Provider" and named :: "string \<Rightarrow> bool"
  assumes calls: "callsKeep R (pv_client p)" and image: "imageKeeps R (pv_image p)"
    and delete_named: "named n \<Longrightarrow> lv_storageVolLookupByName (pv_client p) pool n d = (Inr v, d1) \<Longrightarrow> keeps R (lv_storageVolDelete (pv_client p) v)"
    and delete_path: "named (basePath path) \<Longrightarrow> lv_storageVolLookupByPath (pv_client p) path d = (Inr v, d1) \<Longrightarrow> keeps R (lv_storageVolDelete (pv_client p) v)"
begin

lemma quiet_call: "keeps R m \<Longrightarrow> keeps R (call p m)"
  using calls unfolding keeps_def call_def callsKeep_def
  by (auto split: prod.splits option.splits) (metis kept_trans snd_conv)+

lemmas quiet_ops = calls [unfolded callsKeep_def]

lemma quiet_rpc:
  "keeps R (call p (lv_domainLookupByName (pv_client p) n))" "keeps R (call p (lv_domainLookupByUUID (pv_client p) u))"
  "keeps R (call p (lv_domainIsActive (pv_client p) x))" "keeps R (call p (lv_domainGetXMLDesc (pv_client p) x b))"
  "keeps R (call p (lv_domainSetAutostart (pv_client p) x a))"
  "keeps R (call p (lv_domainGetState (pv_client p) x))" "keeps R (call p (lv_domainInterfaceAddresses (pv_client p) x s))"
  "keeps R (call p (lv_listStoragePools (pv_client p) b))" "keeps R (call p (lv_storagePoolLookupByName (pv_client p) n))"
  "keeps R (call p (lv_storagePoolIsActive (pv_client p) sp))" "keeps R (call p (lv_storagePoolGetXMLDesc (pv_client p) sp))"
  "keeps R (call p (lv_storageVolCreateXML (pv_client p) sp t))" "keeps R (call p (lv_storageVolLookupByName (pv_client p) sp n))"
  "keeps R (call p (lv_storageVolLookupByPath (pv_client p) n))" "keeps R (call p (lv_storageVolGetPath (pv_client p) v))"
  "keeps R (call p (lv_storageVolUpload (pv_client p) v bs))"
  "keeps R (call p (lv_networkLookupByName (pv_client p) n))" "keeps R (call p (lv_networkDefineXML (pv_client p) t))"
  "keeps R (call p (lv_networkIsActive (pv_client p) nw))" "keeps R (call p (lv_networkCreate (pv_client p) nw))"
  "keeps R (call p (lv_networkSetAutostart (pv_client p) nw a))" "keeps R (call p (lv_networkGetXMLDesc (pv_client p) nw))"
  using quiet_ops by (auto intro!: quiet_call)

lemma quiet_begin: "keeps R (lv_begin (pv_client p))"
  using quiet_ops by blast

lemmas quiet_intros = keeps_intros quiet_rpc quiet_begin

lemma quiet_tolerating: "keeps R m \<Longrightarrow> keeps R (tolerating P t as m)"
  unfolding tolerating_def by (rule keeps_onError) (auto intro: quiet_intros)

lemma quiet_orRollback: "keeps R rb \<Longrightarrow> keeps R m \<Longrightarrow> keeps R (orRollback rb m)"
  unfolding orRollback_def by (intro quiet_intros)

lemmas quiet_steps = quiet_intros quiet_tolerating quiet_orRollback

lemma quiet_removeNamed: "named n \<Longrightarrow> call p (lv_storageVolLookupByName (pv_client p) pool n) d = (Inr v, d1) \<Longrightarrow> keeps R (call p (lv_storageVolDelete (pv_client p) v))"
  by (rule quiet_call [OF delete_named [OF _ call_Inr]])

lemma quiet_removePath: "named (basePath path) \<Longrightarrow> call p (lv_storageVolLookupByPath (pv_client p) path) d = (Inr v, d1) \<Longrightarrow> keeps R (call p (lv_storageVolDelete (pv_client p) v))"
  by (rule quiet_call [OF delete_path [OF _ call_Inr]])

text \<open>What the operations do besides defining, destroying and undefining a domain.\<close>

lemma quiet_lookupPoolNamed: "keeps R (lookupPoolNamed p n)"
  unfolding lookupPoolNamed_def Let_def by (intro quiet_steps)

lemma quiet_resolveBackingPath: "keeps R (resolveBackingPath p pool img)"
  unfolding resolveBackingPath_def Let_def by (intro quiet_steps)

lemma quiet_volumePath: "keeps R (volumePath p pool n)"
  unfolding volumePath_def by (intro quiet_steps)

lemma quiet_deleteVolume: "named n \<Longrightarrow> keeps R (deleteVolume p pn n)"
  unfolding deleteVolume_def by (intro quiet_steps quiet_lookupPoolNamed quiet_removeNamed; assumption)

lemma quiet_bringUp: "keeps R (bringUp p nw n)"
  unfolding bringUp_def by (intro quiet_steps)

lemma quiet_networkBridge: "keeps R (networkBridge p nw n)"
  unfolding networkBridge_def by (intro quiet_steps)

lemma quiet_verifyNetwork: "keeps R (verifyNetwork p nw spec g m)"
  unfolding verifyNetwork_def
  by (intro quiet_steps) (auto split: option.split intro!: quiet_steps quiet_bringUp quiet_networkBridge)

lemma quiet_createNetwork: "keeps R (createNetwork p spec g m)"
  unfolding createNetwork_def by (intro quiet_steps quiet_bringUp quiet_networkBridge)

lemma quiet_attachableNetwork: "keeps R (attachableNetwork p spec def)"
proof (cases "subnetParts (mn_subnet spec)")
  case (Inr gm)
  then show ?thesis
    by (cases gm) (auto simp: attachableNetwork_def intro!: quiet_steps quiet_createNetwork quiet_verifyNetwork)
qed (simp add: attachableNetwork_def quiet_steps)

lemma quiet_addressesFrom: "keeps R (addressesFrom p x ss)"
  unfolding keeps_def
proof
  fix d show "R d (snd (addressesFrom p x ss d))"
  proof (induction ss arbitrary: d)
    case (Cons s ss)
    obtain r d1 where c: "call p (lv_domainInterfaceAddresses (pv_client p) x s) d = (r, d1)" by fastforce
    then have "R d d1" using quiet_rpc(7) [of x s] unfolding keeps_def by (metis snd_conv)
    then show ?case using Cons [of d1] c
      by (auto simp: Let_def split: sum.splits option.splits intro: kept_trans)
  qed (simp add: kept_refl)
qed

lemma quiet_stateOf: "keeps R (stateOf p x)"
  unfolding stateOf_def addressesOf_def by (intro quiet_steps quiet_addressesFrom)

lemma quiet_lookupByUUID: "keeps R (lookupByUUID p i)"
  unfolding lookupByUUID_def by (cases "parseUUID i") (auto intro!: quiet_steps)

lemma quiet_ISO: "keeps R (ISO (pv_image p) meta u)"
  using image unfolding imageKeeps_def by (intro keeps_ISO) auto

lemma quiet_ensureCloudInitVolume: "named (cidataVolumeName (ms_name spec)) \<Longrightarrow> keeps R (ensureCloudInitVolume p pool spec)"
  unfolding ensureCloudInitVolume_def createCloudInitVolume_def Let_def by (intro quiet_steps quiet_ISO quiet_deleteVolume; assumption)

lemma quiet_rollbackVolumes: "named v \<Longrightarrow> c = [] \<or> named c \<Longrightarrow> keeps R (rollbackVolumes p pool v c)"
  unfolding rollbackVolumes_def by (auto intro!: quiet_steps quiet_deleteVolume)

lemma quiet_ensureInfrastructure: "keeps R (lvEnsureInfrastructure p ispec)"
  unfolding lvEnsureInfrastructure_def ensureNetwork_def
  by (cases "is_managedNetwork ispec")
    (auto intro!: quiet_steps quiet_lookupPoolNamed quiet_attachableNetwork quiet_resolveBackingPath)

lemma quiet_call_to: "keeps R m \<Longrightarrow> m d = (r, d1) \<Longrightarrow> R d d1"
  unfolding keeps_def by (metis snd_conv)

lemma quiet_sweepPools:
  assumes "named v"
  shows "keeps R (sweepPools p v own sw pools)"
  unfolding keeps_def
proof
  fix d show "R d (snd (sweepPools p v own sw pools d))"
  proof (induction pools arbitrary: sw d)
    case (Cons pool pools)
    obtain r d1 where c: "call p (lv_storageVolLookupByName (pv_client p) pool v) d = (r, d1)" by fastforce
    have 1: "R d d1" by (rule quiet_call_to [OF quiet_rpc(13) c])
    show ?case
    proof (cases r)
      case (Inl e)
      then show ?thesis using c 1 Cons [of d1] by (auto intro: kept_trans)
    next
      case (Inr vol)
      obtain r2 d2 where c2: "tolerating isNotFound ''libvirt: deleting volume from pool'' [v, sp_name pool]
          (call p (lv_storageVolDelete (pv_client p) vol)) d1 = (r2, d2)" by fastforce
      have "keeps R (call p (lv_storageVolDelete (pv_client p) vol))" using quiet_removeNamed [OF assms] c Inr by simp
      then have "R d1 d2" using quiet_call_to [OF quiet_tolerating c2] by simp
      then show ?thesis using Inr c c2 1 Cons [of d2] by (cases r2) (auto intro: kept_trans)
    qed
  qed (simp add: kept_refl)
qed

lemma quiet_deleteVolumeAnyPool: "named v \<Longrightarrow> keeps R (deleteVolumeAnyPool p v own)"
proof -
  assume v: "named v"
  have "keeps R (ownPoolSettled p v own)" unfolding ownPoolSettled_def [abs_def] by (intro quiet_steps)
  then show ?thesis unfolding deleteVolumeAnyPool_def by (intro quiet_steps quiet_sweepPools v)
qed

lemma quiet_diskSourcesOf: "keeps R (diskSourcesOf p x)"
proof -
  have "keeps R (\<lambda>d1. case unmarshalDomain desc of Inl e \<Rightarrow> fail (h e) d1 | Inr df \<Rightarrow> ret (g df) d1)" for desc h and g :: "domainDef \<Rightarrow> string list"
    by (cases "unmarshalDomain desc") (auto intro: quiet_steps)
  then show ?thesis unfolding diskSourcesOf_def [abs_def] by (intro quiet_steps)
qed

lemma quiet_readPools: "keeps R (readPools p pools)"
  unfolding keeps_def
proof
  fix d show "R d (snd (readPools p pools d))"
  proof (induction pools arbitrary: d)
    case (Cons pool pools)
    obtain r d1 where c: "call p (lv_storagePoolGetXMLDesc (pv_client p) pool) d = (r, d1)" by fastforce
    have 1: "R d d1" by (rule quiet_call_to [OF quiet_rpc(11) c])
    moreover have "R d (snd (readPools p pools d1))" using 1 Cons by (rule kept_trans)
    ultimately show ?case using c by (auto split: sum.splits prod.splits)
  qed (simp add: kept_refl)
qed

lemma quiet_confirmReclaimed: "keeps R (confirmReclaimed p path)"
  unfolding confirmReclaimed_def stoppedPools_def
  by (intro quiet_steps quiet_readPools) (auto split: list.split intro!: quiet_steps)

lemma quiet_deleteVolumeByPath: "named (basePath path) \<Longrightarrow> keeps R (deleteVolumeByPath p path)"
  unfolding deleteVolumeByPath_def Let_def by (intro quiet_steps quiet_confirmReclaimed quiet_removePath; assumption)

lemma quiet_lvGet: "keeps R (lvGet p i)" and quiet_lvFindByName: "keeps R (lvFindByName p n)"
  unfolding lvGet_def lvFindByName_def by (intro quiet_steps quiet_lookupByUUID quiet_stateOf)+

end

text \<open>Starting a domain changes whether it runs; what else it keeps, bringing a machine up keeps.\<close>

locale starts_kept = calls_kept R p named for R :: "'d \<Rightarrow> 'd \<Rightarrow> bool" and p :: "'d Provider" and named :: "string \<Rightarrow> bool" +
  assumes start_kept: "keeps R (lv_domainCreate (pv_client p) x)"
begin

lemma quiet_ensureRunning: "keeps R (ensureRunning p x)"
  unfolding ensureRunning_def startVerified_def by (intro quiet_steps quiet_call start_kept)

end

section \<open>Volumes\<close>

text \<open>
  The volumes of a host. Every call but the removal of a volume leaves them there, and the removal
  takes those of the handle's name at most; a handle has the name it was looked up by, or the last
  element of its path.
\<close>

definition keepsVolumes :: "('d \<Rightarrow> StorageVol set) \<Rightarrow> string set \<Rightarrow> 'd \<Rightarrow> 'd \<Rightarrow> bool" where
  "keepsVolumes vols N d d' \<longleftrightarrow> (\<forall>v\<in>vols d. sv_name v \<notin> N \<longrightarrow> v \<in> vols d')"

definition addingCalls :: "('d \<Rightarrow> StorageVol set) \<Rightarrow> 'd client \<Rightarrow> bool" where
  "addingCalls vols cl \<longleftrightarrow> callsKeep (keepsVolumes vols {}) cl \<and> (\<forall>x. keeps (keepsVolumes vols {}) (lv_domainCreate cl x)) \<and> (\<forall>t. keeps (keepsVolumes vols {}) (lv_domainDefineXML cl t))
     \<and> (\<forall>x. keeps (keepsVolumes vols {}) (lv_domainDestroy cl x)) \<and> (\<forall>x. keeps (keepsVolumes vols {}) (lv_domainUndefineFlags cl x))"

lemma keepsVolumes_mono: "keepsVolumes vols {} d d' \<Longrightarrow> keepsVolumes vols N d d'"
  by (simp add: keepsVolumes_def)

lemma keeps_mono: "(\<And>d d'. R d d' \<Longrightarrow> S d d') \<Longrightarrow> keeps R m \<Longrightarrow> keeps S m"
  by (simp add: keeps_def)

lemma callsKeep_mono: "(\<And>d d'. R d d' \<Longrightarrow> S d d') \<Longrightarrow> callsKeep R cl \<Longrightarrow> callsKeep S cl"
  unfolding callsKeep_def keeps_def by simp

lemma imageKeeps_mono: "(\<And>d d'. R d d' \<Longrightarrow> S d d') \<Longrightarrow> imageKeeps R il \<Longrightarrow> imageKeeps S il"
  unfolding imageKeeps_def keeps_def by simp

locale volume_store =
  fixes p :: "'d Provider" and vols :: "'d \<Rightarrow> StorageVol set"
  assumes adding: "addingCalls vols (pv_client p)" and adding_image: "imageKeeps (keepsVolumes vols {}) (pv_image p)"
    and named_as: "lv_storageVolLookupByName (pv_client p) pool n d = (Inr v, d1) \<Longrightarrow> sv_name v = n"
    and named_by_path: "lv_storageVolLookupByPath (pv_client p) path d = (Inr v, d1) \<Longrightarrow> sv_name v = basePath path"
    and handle_named: "lv_domainLookupByName (pv_client p) n d = (Inr x, d1) \<Longrightarrow> dom_name x = n"
    and removes_named: "keeps (keepsVolumes vols {sv_name v}) (lv_storageVolDelete (pv_client p) v)"

sublocale volume_store \<subseteq> vs: starts_kept "keepsVolumes vols N" p "\<lambda>n. n \<in> N" for N
proof
  have removed: "keeps (keepsVolumes vols N) (lv_storageVolDelete (pv_client p) v)" if "sv_name v \<in> N" for v
    by (rule keeps_mono [OF _ removes_named]) (use that in \<open>auto simp: keepsVolumes_def\<close>)
  show "keeps (keepsVolumes vols N) (lv_storageVolDelete (pv_client p) v)"
    if "n \<in> N" "lv_storageVolLookupByName (pv_client p) pool n d = (Inr v, d1)" for n pool d v d1
    using removed [of v] named_as [OF that(2)] that(1) by simp
  show "keeps (keepsVolumes vols N) (lv_storageVolDelete (pv_client p) v)"
    if "basePath path \<in> N" "lv_storageVolLookupByPath (pv_client p) path d = (Inr v, d1)" for path d v d1
    using removed [of v] named_by_path [OF that(2)] that(1) by simp
  show "callsKeep (keepsVolumes vols N) (pv_client p)"
    using adding callsKeep_mono [OF keepsVolumes_mono] by (auto simp: addingCalls_def)
  show "keeps (keepsVolumes vols N) (lv_domainCreate (pv_client p) x)" for x
    by (rule keeps_mono [OF keepsVolumes_mono]) (use adding in \<open>auto simp: addingCalls_def\<close>)
  show "imageKeeps (keepsVolumes vols N) (pv_image p)" by (rule imageKeeps_mono [OF keepsVolumes_mono adding_image])
qed (auto simp: keepsVolumes_def)

context volume_store
begin

lemma vs_changing:
  "keeps (keepsVolumes vols N) (call p (lv_domainDefineXML (pv_client p) t))" "keeps (keepsVolumes vols N) (call p (lv_domainDestroy (pv_client p) x))"
  "keeps (keepsVolumes vols N) (call p (lv_domainUndefineFlags (pv_client p) x))"
  using adding unfolding addingCalls_def by (auto intro!: vs.quiet_call keeps_mono [OF keepsVolumes_mono])

abbreviation "own n \<equiv> {rootVolumeName n, cidataVolumeName n}"

lemma vs_ensureCloudInitVolume_result: "ensureCloudInitVolume p pool spec d = (Inr c, d1) \<Longrightarrow> c \<in> {[], cidataVolumeName (ms_name spec)}"
  by (auto simp: ensureCloudInitVolume_def act_simps ret_def Let_def split: if_splits)

lemma vs_createFresh: "keeps (keepsVolumes vols (own (ms_name spec))) (createFresh p spec)"
proof -
  let ?R = "keepsVolumes vols (own (ms_name spec))"
  have d: "keeps ?R (defineDomain p pool (rootVolumeName (ms_name spec)) c spec)" if "c \<in> {[], cidataVolumeName (ms_name spec)}" for pool c
  proof -
    have rb: "keeps ?R (rollbackVolumes p pool (rootVolumeName (ms_name spec)) c)" using that by (intro vs.quiet_rollbackVolumes) auto
    show ?thesis unfolding defineDomain_def Let_def resolveNetwork_def
      by (cases "ms_managedNetwork spec"; simp only: option.case;
          intro vs.quiet_steps rb vs.quiet_volumePath vs.quiet_attachableNetwork vs_changing)
  qed
  have c: "keeps ?R (orRollback (ignoring (deleteVolume p (sp_name pool) (rootVolumeName (ms_name spec)))) (ensureCloudInitVolume p pool spec))" for pool
    by (intro vs.quiet_steps vs.quiet_deleteVolume vs.quiet_ensureCloudInitVolume) simp_all
  have r: "orRollback (ignoring (deleteVolume p (sp_name pool) (rootVolumeName (ms_name spec)))) (ensureCloudInitVolume p pool spec) d0 = (Inr c, d1)
      \<Longrightarrow> c \<in> {[], cidataVolumeName (ms_name spec)}" for pool d0 c d1
    by (auto simp: orRollback_def act_simps fail_def dest: vs_ensureCloudInitVolume_result)
  show ?thesis unfolding createFresh_def Let_def
    by (intro vs.quiet_steps vs.quiet_lookupPoolNamed vs.quiet_resolveBackingPath vs.quiet_ensureRunning vs.quiet_stateOf
        vs.keeps_andThen_found [OF c] d r; assumption)
qed

lemma vs_create: "keeps (keepsVolumes vols (own (ms_name spec))) (lvCreate p spec)"
  unfolding lvCreate_def by (intro vs.quiet_steps vs.quiet_ensureRunning vs.quiet_stateOf vs_createFresh)

lemma partition_named: "path \<in> set (fst (partitionOwnedDisks n disks)) \<Longrightarrow> basePath path \<in> own n"
  by (simp add: partitionOwnedDisks_def Let_def)

lemma vs_deleteDomain: "keeps (keepsVolumes vols (own (dom_name x))) (deleteDomain p x)"
  unfolding deleteDomain_def
  by (intro vs.quiet_steps vs.quiet_diskSourcesOf vs.quiet_deleteVolumeByPath partition_named vs_changing; assumption)

lemma vs_deleteByName: "keeps (keepsVolumes vols (own n)) (lvDeleteByName p n pool)"
proof -
  have d: "keeps (keepsVolumes vols (own n)) (deleteDomain p x)"
    if "call p (lv_domainLookupByName (pv_client p) n) d = (Inr x, d1)" for x d d1
    using vs_deleteDomain [of x] handle_named [OF call_Inr [OF that]] by simp
  have v: "keeps (keepsVolumes vols (own n)) (deleteVolumeAnyPool p v q)" if "v \<in> set [rootVolumeName n, cidataVolumeName n]" for v q
    using that by (intro vs.quiet_deleteVolumeAnyPool) simp
  show ?thesis unfolding lvDeleteByName_def Let_def
    by (intro vs.quiet_steps d v; assumption)
qed

lemma vs_delete:
  assumes "\<And>x d1 d2. lookupByUUID p i d1 = (Inr x, d2) \<Longrightarrow> dom_name x = n"
  shows "keeps (keepsVolumes vols (own n)) (lvDelete p i)"
proof -
  have d: "keeps (keepsVolumes vols (own n)) (deleteDomain p x)" if "lookupByUUID p i d = (Inr x, d1)" for x d d1
    using vs_deleteDomain [of x] assms [OF that] by simp
  show ?thesis unfolding lvDelete_def by (intro vs.quiet_steps vs.quiet_lookupByUUID d; assumption)
qed

lemma vs_ensureInfrastructure: "keeps (keepsVolumes vols N) (lvEnsureInfrastructure p ispec)"
  by (rule vs.quiet_ensureInfrastructure)

text \<open>The volumes named after a machine aside, all are there after an operation on it.\<close>

lemma vs_there:
  assumes "keeps (keepsVolumes vols (own n)) m" "v \<in> vols d" "sv_name v \<notin> own n"
  shows "v \<in> vols (snd (m d))"
  using assms by (auto simp: keeps_def keepsVolumes_def)

end

end
