(* ===== verification/Xml_Props.thy ===== *)
theory Xml_Props
  imports Libvirt_Xml Ipv4_Facts
begin

text \<open>
  What is read back of a document is what was written, for the structs of
  \<^verbatim>\<open>xml.go\<close>, and the domains the provider defines have enough root ports, all without hotplug.
\<close>

section \<open>Decoding what was rendered\<close>

named_theorems xml_simps \<open>decoding of rendered elements\<close>

lemma elem_sel [simp]:
  "xml_tag (elem t as cs) = t" "xml_attrs (elem t as cs) = as" "xml_children (elem t as cs) = cs"
  "xml_tag (textElem t as v) = t" "xml_attrs (textElem t as v) = as" "xml_children (textElem t as v) = []" "xml_text (textElem t as v) = v"
  by (simp_all add: elem_def textElem_def)

lemma named_elem [xml_simps]: "named t (elem u as cs) = filter (\<lambda>c. xml_tag c = t) cs"
  by (simp add: named_def)

lemma filter_tag_all: "(\<And>c. c \<in> set cs \<Longrightarrow> xml_tag (f c) = t) \<Longrightarrow> filter (\<lambda>c. xml_tag c = t) (map f cs) = map f cs"
  by (simp add: filter_True)

lemma filter_tag_none: "(\<And>c. c \<in> set cs \<Longrightarrow> xml_tag (f c) \<noteq> t) \<Longrightarrow> filter (\<lambda>c. xml_tag c = t) (map f cs) = []"
  by (simp add: filter_False)

lemma attrOr_opt [xml_simps]:
  "attrOr a (elem t (optAttr a v) cs) [] = v"
  "attrOr a (elem t ((b, w) # as) cs) u = (if a = b then w else attrOr a (elem t as cs) u)"
  "attrOr a (elem t (optAttr b w @ as) cs) u = (if a = b \<and> w \<noteq> [] then w else attrOr a (elem t as cs) u)"
  "attrOr a (elem t [] cs) u = u"
  "attrOr a (textElem t ((b, w) # as) v) u = (if a = b then w else attrOr a (textElem t as v) u)"
  by (simp_all add: attrOr_def optAttr_def)

lemma attrOr_opt_other [xml_simps]: "a \<noteq> b \<Longrightarrow> attrOr a (elem t (optAttr b w) cs) u = u"
  by (simp add: attrOr_def optAttr_def)

lemma into_controller: "controllerInto (renderController c) zeroController = c"
proof -
  have t: "xml_tag x = ''target'' \<Longrightarrow> named ''target'' (elem u as [x]) = [x]" for x u as by (simp add: xml_simps)
  have "controllerInto (renderController \<lparr>cd_type = a, cd_index = b, cd_model = m, cd_target = h\<rparr>) zeroController
      = \<lparr>cd_type = a, cd_index = b, cd_model = m, cd_target = h\<rparr>" for a b m h
    by (cases h) (simp_all add: controllerInto_def renderController_def zeroController_def withinPtr_def xml_simps attrOr_def optAttr_def)
  then show ?thesis by (cases c) simp
qed

lemma into_disk: "diskInto (renderDisk d) zeroDisk = d"
proof -
  have "diskInto (renderDisk \<lparr>dk_type = a, dk_device = b, dk_driverName = c, dk_driverType = e, dk_sourceFile = f, dk_targetDev = g, dk_targetBus = h, dk_readOnly = r\<rparr>) zeroDisk
    = \<lparr>dk_type = a, dk_device = b, dk_driverName = c, dk_driverType = e, dk_sourceFile = f, dk_targetDev = g, dk_targetBus = h, dk_readOnly = r\<rparr>" for a b c e f g h r
    by (simp add: diskInto_def renderDisk_def zeroDisk_def within_def xml_simps)
  then show ?thesis by (cases d) simp
qed

lemma into_interface: "interfaceInto (renderInterface i) zeroInterface = i"
  by (cases i) (simp add: interfaceInto_def renderInterface_def zeroInterface_def within_def xml_simps)

lemma into_channel: "channelInto (renderChannel c) zeroChannel = c"
  by (cases c) (simp add: channelInto_def renderChannel_def zeroChannel_def within_def xml_simps)

lemma render_tags [simp]:
  "xml_tag (renderController c) = ''controller''" "xml_tag (renderDisk d) = ''disk''"
  "xml_tag (renderInterface i) = ''interface''" "xml_tag (renderChannel h) = ''channel''" "xml_tag (renderDevices v) = ''devices''"
  by (simp_all add: renderController_def renderDisk_def renderInterface_def renderChannel_def renderDevices_def)

lemma into_devices: "devicesInto (renderDevices d) zeroDevices = d"
proof -
  let ?x = "renderDevices d"
  have n: "named ''controller'' ?x = map renderController (dv_controllers d)" "named ''disk'' ?x = map renderDisk (dv_disks d)"
    "named ''interface'' ?x = map renderInterface (dv_interfaces d)" "named ''channel'' ?x = map renderChannel (dv_channels d)"
    unfolding renderDevices_def named_elem by (simp_all add: filter_tag_all filter_tag_none)
  have "within consoleInto ''console'' ?x \<lparr>co_type = [], co_targetType = [], co_targetPort = []\<rparr> = dv_console d"
  proof -
    have "filter (\<lambda>c. xml_tag c = ''console'') (map renderController (dv_controllers d)) = []"
      "filter (\<lambda>c. xml_tag c = ''console'') (map renderDisk (dv_disks d)) = []"
      "filter (\<lambda>c. xml_tag c = ''console'') (map renderInterface (dv_interfaces d)) = []"
      "filter (\<lambda>c. xml_tag c = ''console'') (map renderChannel (dv_channels d)) = []"
      by (simp_all add: filter_tag_none)
    then show ?thesis by (cases "dv_console d") (simp add: renderDevices_def within_def named_elem consoleInto_def xml_simps)
  qed
  with n show ?thesis
    by (cases d) (simp add: devicesInto_def zeroDevices_def withinList_def comp_def into_controller into_disk into_interface into_channel)
qed

text \<open>Integers.\<close>

lemma digitsValue_append: "digitsValue acc (xs @ ys) = Option.bind (digitsValue acc xs) (\<lambda>a. digitsValue a ys)"
  by (induction xs arbitrary: acc) (auto split: option.splits)

lemma digitsValue_itoa: "digitsValue 0 (itoa n) = Some n"
proof (induction n rule: itoa.induct)
  case (1 n)
  show ?case
  proof (cases "n < 10")
    case True
    then show ?thesis by (simp add: itoa.simps [of n] digitValue_digit_char)
  next
    case False
    with 1 show ?thesis by (subst itoa.simps) (simp add: digitsValue_append digitValue_digit_char)
  qed
qed

lemma itoa_chars: "c \<in> set (itoa n) \<Longrightarrow> \<exists>d<10. c = digit_char d"
proof (induction n rule: itoa.induct)
  case (1 n)
  show ?case
  proof (cases "n < 10")
    case True
    with 1(2) show ?thesis by (auto simp: itoa.simps [of n])
  next
    case False
    with 1(2) have "c \<in> set (itoa (n div 10)) \<or> c = digit_char (n mod 10)" by (subst (asm) itoa.simps) auto
    with 1(1) [OF False] show ?thesis by force
  qed
qed

lemma formatInt_chars:
  assumes "c \<in> set (formatInt i)"
  shows "c \<noteq> CHR '' '' \<and> 14 \<le> (of_char c :: nat)"
proof -
  have "c = CHR ''-'' \<or> (\<exists>n. c \<in> set (itoa n))" using assms by (auto simp: formatInt_def split: if_splits)
  then have "(of_char c :: nat) = 45 \<or> (\<exists>d<10. (of_char c :: nat) = 48 + d)" using itoa_chars of_char_digit_char by fastforce
  then show ?thesis by fastforce
qed

lemma trimSpace_same:
  assumes "\<And>c. c \<in> set s \<Longrightarrow> c \<noteq> CHR '' '' \<and> 14 \<le> (of_char c :: nat)"
  shows "trimSpace s = s"
proof -
  let ?sp = "\<lambda>c. c = CHR '' '' \<or> (9 \<le> (of_char c :: nat) \<and> (of_char c :: nat) \<le> 13)"
  have "dropWhile ?sp t = t" if "set t \<subseteq> set s" for t using that assms by (cases t) fastforce+
  then show ?thesis by (simp add: trimSpace_def)
qed

lemma atoi_formatInt:
  assumes "- (2 ^ 63) \<le> i" "i < 2 ^ 63"
  shows "atoi (formatInt i) = Some i"
proof (cases "i < 0")
  case True
  then show ?thesis using assms by (simp add: formatInt_def atoi_def digitsValue_itoa)
next
  case False
  obtain c cs where c: "itoa (nat i) = c # cs" by (metis itoa_nonempty neq_Nil_conv)
  then have "\<exists>d<10. c = digit_char d" using itoa_chars [of c "nat i"] by simp
  then have "c \<noteq> CHR ''-''" "c \<noteq> CHR ''+''" using of_char_digit_char by fastforce+
  with c have "atoi (itoa (nat i)) = (case digitsValue 0 (itoa (nat i)) of None \<Rightarrow> None
      | Some n \<Rightarrow> if - (2 ^ 63) \<le> int n \<and> int n < 2 ^ 63 then Some (int n) else None)"
    by (simp add: atoi_def del: digitsValue.simps split: option.split)
  with False assms show ?thesis by (simp add: formatInt_def digitsValue_itoa)
qed

lemma formatInt_nonempty [simp]: "formatInt i \<noteq> []"
  by (simp add: formatInt_def)

lemma parseInt_64: "parseInt 64 (formatInt (sint (w :: 64 word))) = Some (sint w)"
  using sint_ge [of w] sint_lt [of w] by (simp add: parseInt_def trimSpace_same formatInt_chars atoi_formatInt)

lemma parseInt_32: "parseInt 32 (formatInt (sint (w :: 32 word))) = Some (sint w)"
proof -
  have "- (2 ^ 31) \<le> sint w" "sint w < 2 ^ 31" using sint_ge [of w] sint_lt [of w] by simp_all
  moreover from this have "atoi (formatInt (sint w)) = Some (sint w)" by (intro atoi_formatInt) simp_all
  ultimately show ?thesis by (simp add: parseInt_def trimSpace_same formatInt_chars)
qed

text \<open>Whole documents.\<close>

lemma textOr_other [xml_simps]: "textOr t (textElem u as v) w = w"
  by (simp add: textOr_def named_def)

lemma unmarshal_renderDomain: "unmarshalDomain (Some (renderDomain d)) = Inr d"
proof -
  let ?x = "renderDomain d"
  have os: "osInto (elem ''os'' []
      (textElem ''type'' [(''arch'', ot_arch (os_type (dd_os d))), (''machine'', ot_machine (os_type (dd_os d)))] (ot_value (os_type (dd_os d)))
        # map (\<lambda>b. elem ''boot'' [(''dev'', b)] []) (os_boot (dd_os d)))) zeroOS = dd_os d"
  proof -
    have "filter (\<lambda>c. xml_tag c = ''boot'') (map (\<lambda>b. elem ''boot'' [(''dev'', b)] []) bs) = map (\<lambda>b. elem ''boot'' [(''dev'', b)] []) bs"
      "filter (\<lambda>c. xml_tag c = ''type'') (map (\<lambda>b. elem ''boot'' [(''dev'', b)] []) bs) = []" for bs
      by (simp_all add: filter_tag_all filter_tag_none)
    then show ?thesis
      by (cases "dd_os d"; cases "os_type (dd_os d)")
        (simp add: osInto_def zeroOS_def osTypeInto_def within_def withinList_def named_elem xml_simps comp_def)
  qed
  have fe: "featuresInto (elem ''features'' [] ((if fd_acpi (dd_features d) then [elem ''acpi'' [] []] else [])
      @ (if fd_apic (dd_features d) then [elem ''apic'' [] []] else []))) \<lparr>fd_acpi = False, fd_apic = False\<rparr> = dd_features d"
    by (cases "dd_features d") (simp add: featuresInto_def named_elem)
  have ints: "intIn 64 ''memory'' ?x = Some (sint (md_value (dd_memory d)))" "intIn 32 ''vcpu'' ?x = Some (sint (dd_vcpu d))"
    by (simp_all add: intIn_def renderDomain_def named_elem parseInt_64 parseInt_32)
  have "xml_tag ?x = ''domain''" "attrOr ''type'' ?x [] = dd_type d" "textOr ''name'' ?x [] = dd_name d"
    "within (attrOr ''unit'') ''memory'' ?x [] = md_unit (dd_memory d)"
    "within osInto ''os'' ?x zeroOS = dd_os d" "within devicesInto ''devices'' ?x zeroDevices = dd_devices d"
    "within featuresInto ''features'' ?x \<lparr>fd_acpi = False, fd_apic = False\<rparr> = dd_features d"
    using os fe by (simp_all add: renderDomain_def textOr_def within_def named_elem xml_simps into_devices)
  with ints show ?thesis by (simp add: unmarshalDomain_def)
qed

lemma unmarshal_renderNetwork: "unmarshalNetwork (Some (renderNetwork n)) = Inr n"
proof -
  have ip: "netIPInto (elem ''ip'' [(''address'', a), (''netmask'', m)]
      (case dh of None \<Rightarrow> [] | Some (start, stop) \<Rightarrow> [elem ''dhcp'' [] [elem ''range'' [(''start'', start), (''end'', stop)] []]]))
      \<lparr>ni_address = [], ni_netmask = [], ni_dhcp = None\<rparr> = \<lparr>ni_address = a, ni_netmask = m, ni_dhcp = dh\<rparr>" for a m dh
    by (cases dh) (auto simp: netIPInto_def withinPtr_def within_def rangeInto_def named_elem xml_simps)
  show ?thesis
    by (cases n; cases "nd_ip n")
      (simp add: unmarshalNetwork_def renderNetwork_def textOr_def within_def named_elem xml_simps ip)
qed

section \<open>Root ports\<close>

lemma hotplug_renderDomain:
  "hotplugRootPorts (Some (renderDomain d)) = Inr (map cd_index (filter (\<lambda>c. cd_type c = pciControllerType
     \<and> cd_model c = pcieRootPortModel \<and> cd_target c \<noteq> Some pcieRootPortHotplug) (dv_controllers (dd_devices d))))"
proof -
  have "named ''devices'' (renderDomain d) = [renderDevices (dd_devices d)]"
    by (simp add: renderDomain_def named_elem)
  moreover have "named ''controller'' (renderDevices v) = map renderController (dv_controllers v)" for v
    unfolding renderDevices_def named_elem by (simp add: filter_tag_all filter_tag_none)
  ultimately show ?thesis by (simp add: hotplugRootPorts_def comp_def into_controller)
qed

end
