(* ===== verification/Libvirt_Contract.thy ===== *)
theory Libvirt_Contract
  imports Libvirt_Calls Xml_Props Provider_Contract
begin

text \<open>
  The libvirt backend keeps the contract of \<open>machine_provider\<close>, given what libvirt documents of its
  calls, the locale \<open>libvirt_daemon\<close>: the view is the domains of the host, from name to UUID, with
  those of them that run. Only defining, destroying and undefining change the domains, and only
  starting makes one run; a call that fails or whose context ends may have happened or not. Undefining
  removes a domain that does not run; one that runs is left, as a transient domain.
\<close>

section \<open>Triples\<close>

definition triple :: "('d \<Rightarrow> bool) \<Rightarrow> ('d, 'a) act \<Rightarrow> ('a \<Rightarrow> 'd \<Rightarrow> bool) \<Rightarrow> (goerr \<Rightarrow> 'd \<Rightarrow> bool) \<Rightarrow> bool" where
  "triple P m Q E \<longleftrightarrow> (\<forall>d. P d \<longrightarrow> (case m d of (Inl e, d1) \<Rightarrow> E e d1 | (Inr x, d1) \<Rightarrow> Q x d1))"

lemma tripleI: "(\<And>d x d1. P d \<Longrightarrow> m d = (Inr x, d1) \<Longrightarrow> Q x d1) \<Longrightarrow> (\<And>d e d1. P d \<Longrightarrow> m d = (Inl e, d1) \<Longrightarrow> E e d1) \<Longrightarrow> triple P m Q E"
  by (auto simp: triple_def split: sum.splits prod.splits)

lemma tripleD:
  assumes "triple P m Q E" "P d"
  shows "m d = (Inr x, d1) \<Longrightarrow> Q x d1" and "m d = (Inl e, d1) \<Longrightarrow> E e d1"
  using assms by (force simp: triple_def)+

lemma triple_ret: "(\<And>d. P d \<Longrightarrow> Q x d) \<Longrightarrow> triple P (ret x) Q E"
  by (simp add: triple_def ret_def)

lemma triple_fail: "(\<And>d. P d \<Longrightarrow> E e d) \<Longrightarrow> triple P (fail e) Q E"
  by (simp add: triple_def fail_def)

lemma triple_andThen: "triple P m B E \<Longrightarrow> (\<And>x. triple (B x) (f x) Q E) \<Longrightarrow> triple P (andThen m f) Q E"
  unfolding triple_def andThen_def by (force split: sum.splits prod.splits)

lemma triple_onError: "triple P m Q B \<Longrightarrow> (\<And>e. triple (B e) (h e) Q E) \<Longrightarrow> triple P (onError m h) Q E"
  unfolding triple_def onError_def by (force split: sum.splits prod.splits)

lemma triple_wrapping: "triple P m Q (\<lambda>e. E (WrapErr t as e)) \<Longrightarrow> triple P (wrapping t as m) Q E"
  unfolding wrapping_def by (rule triple_onError) (auto intro: triple_fail)

lemma triple_conseq:
  "triple P' m Q' E' \<Longrightarrow> (\<And>d. P d \<Longrightarrow> P' d) \<Longrightarrow> (\<And>x d. Q' x d \<Longrightarrow> Q x d) \<Longrightarrow> (\<And>e d. E' e d \<Longrightarrow> E e d) \<Longrightarrow> triple P m Q E"
  unfolding triple_def by (force split: sum.splits prod.splits)

lemma andThen_ret: "andThen (ret x) f = f x"
  by (rule ext) (simp add: andThen_def ret_def)

lemma andThen_mapped: "andThen (andThen m (\<lambda>b. ret (g b))) f = andThen m (\<lambda>b. f (g b))"
  by (rule ext) (auto simp: andThen_def ret_def split: prod.splits sum.splits)

section \<open>The daemon\<close>

definition sameDoms :: "('d \<Rightarrow> bool) \<Rightarrow> ('d \<Rightarrow> string \<rightharpoonup> UUID) \<Rightarrow> 'd \<Rightarrow> 'd \<Rightarrow> bool" where
  "sameDoms ok doms d d' \<longleftrightarrow> (ok d \<longrightarrow> ok d' \<and> doms d' = doms d)"

interpretation sd: kept "sameDoms ok doms" for ok doms
  by unfold_locales (auto simp: sameDoms_def)

text \<open>The same domains, and none of them was started.\<close>

definition sameRun :: "('d \<Rightarrow> bool) \<Rightarrow> ('d \<Rightarrow> string \<rightharpoonup> UUID) \<Rightarrow> ('d \<Rightarrow> string \<Rightarrow> bool) \<Rightarrow> 'd \<Rightarrow> 'd \<Rightarrow> bool" where
  "sameRun ok doms active d d' \<longleftrightarrow> (ok d \<longrightarrow> ok d' \<and> doms d' = doms d \<and> (\<forall>n. active d' n \<longrightarrow> active d n))"

interpretation sr: kept "sameRun ok doms active" for ok doms active
  by unfold_locales (auto simp: sameRun_def)

lemma sameRun_sameDoms: "sameRun ok doms active d d' \<Longrightarrow> sameDoms ok doms d d'"
  by (simp add: sameRun_def sameDoms_def)

text \<open>Errors that are not one of this program's own.\<close>

definition foreignErrors :: "('d, 'a) act \<Rightarrow> bool" where
  "foreignErrors m \<longleftrightarrow> (\<forall>d e d1. m d = (Inl e, d1) \<longrightarrow> \<not> errorsIs e ErrNotFound)"

lemma foreignD: "foreignErrors m \<Longrightarrow> m d = (Inl e, d1) \<Longrightarrow> \<not> errorsIs e ErrNotFound"
  by (auto simp: foreignErrors_def)

definition handleOf :: "('d \<Rightarrow> string \<rightharpoonup> UUID) \<Rightarrow> 'd \<Rightarrow> Domain \<Rightarrow> bool" where
  "handleOf doms d x \<longleftrightarrow> doms d (dom_name x) \<in> {None, Some (dom_uuid x)}"

locale libvirt_daemon =
  fixes p :: "'d Provider" and ok :: "'d \<Rightarrow> bool" and doms :: "'d \<Rightarrow> string \<rightharpoonup> UUID" and active :: "'d \<Rightarrow> string \<Rightarrow> bool"
  assumes quiet_calls: "callsKeep (sameRun ok doms active) (pv_client p)" and quiet_image: "imageKeeps (sameRun ok doms active) (pv_image p)"
    and quiet_removal: "keeps (sameRun ok doms active) (lv_storageVolDelete (pv_client p) v)"
    and start_frame: "keeps (sameDoms ok doms) (lv_domainCreate (pv_client p) x)"
    and lookup_ok: "ok d \<Longrightarrow> lv_domainLookupByName (pv_client p) n d = (Inr x, d1) \<Longrightarrow> dom_name x = n \<and> doms d n = Some (dom_uuid x)"
    and lookup_none: "ok d \<Longrightarrow> lv_domainLookupByName (pv_client p) n d = (Inl e, d1) \<Longrightarrow> isNotFound e \<Longrightarrow> doms d n = None"
    and uuid_ok: "ok d \<Longrightarrow> lv_domainLookupByUUID (pv_client p) u d = (Inr x, d1) \<Longrightarrow> dom_uuid x = u \<and> doms d (dom_name x) = Some u"
    and uuid_none: "ok d \<Longrightarrow> lv_domainLookupByUUID (pv_client p) u d = (Inl e, d1) \<Longrightarrow> isNotFound e \<Longrightarrow> u \<notin> ran (doms d)"
    and define_ok: "ok d \<Longrightarrow> unmarshalDomain doc = Inr df \<Longrightarrow> doms d (dd_name df) = None \<Longrightarrow>
      lv_domainDefineXML (pv_client p) doc d = (rd, d1) \<Longrightarrow>
      ok d1 \<and> (\<forall>n. n \<noteq> dd_name df \<longrightarrow> doms d1 n = doms d n)
      \<and> (\<forall>x. rd = Inr x \<longrightarrow> dom_name x = dd_name df \<and> doms d1 (dd_name df) = Some (dom_uuid x))"
    and destroy_ok: "ok d \<Longrightarrow> handleOf doms d x \<Longrightarrow> lv_domainDestroy (pv_client p) x d = (r, d1) \<Longrightarrow>
      ok d1 \<and> doms d1 \<in> {doms d, (doms d)(dom_name x := None)}
      \<and> (\<forall>e. r = Inr () \<or> r = Inl e \<and> (isNotFound e \<or> isInvalidState e) \<longrightarrow> \<not> active d1 (dom_name x))"
    and undefine_ok: "ok d \<Longrightarrow> handleOf doms d x \<Longrightarrow> lv_domainUndefineFlags (pv_client p) x d = (r, d1) \<Longrightarrow>
      ok d1 \<and> doms d1 \<in> {doms d, (doms d)(dom_name x := None)}
      \<and> (active d (dom_name x) \<longrightarrow> doms d1 = doms d)
      \<and> (\<forall>e. r = Inr () \<and> \<not> active d (dom_name x) \<or> r = Inl e \<and> isNotFound e \<longrightarrow> doms d1 (dom_name x) = None)"
    and uuids: "ok d \<Longrightarrow> inj_on (doms d) (dom (doms d)) \<and> (\<forall>u\<in>ran (doms d). length u = 16)"
    and foreign: "foreignErrors (lv_begin (pv_client p))" "\<And>n. foreignErrors (lv_domainLookupByName (pv_client p) n)"
      "\<And>u. foreignErrors (lv_domainLookupByUUID (pv_client p) u)" "\<And>x. foreignErrors (lv_domainGetState (pv_client p) x)"
    and contexts: "lv_ctxErr (pv_client p) d = Some c \<Longrightarrow> c \<in> {ContextCanceled, ContextDeadlineExceeded}"

sublocale libvirt_daemon \<subseteq> starts_kept "sameDoms ok doms" p "\<lambda>_. True"
proof
  show "callsKeep (sameDoms ok doms) (pv_client p)" by (rule callsKeep_mono [OF _ quiet_calls]) (rule sameRun_sameDoms)
  show "imageKeeps (sameDoms ok doms) (pv_image p)" by (rule imageKeeps_mono [OF _ quiet_image]) (rule sameRun_sameDoms)
  have r: "keeps (sameDoms ok doms) (lv_storageVolDelete (pv_client p) v)" for v
    by (rule keeps_mono [OF _ quiet_removal]) (rule sameRun_sameDoms)
  show "keeps (sameDoms ok doms) (lv_storageVolDelete (pv_client p) v)" for v by (rule r)
  show "keeps (sameDoms ok doms) (lv_storageVolDelete (pv_client p) v)" for v by (rule r)
qed (rule start_frame)

sublocale libvirt_daemon \<subseteq> st: calls_kept "sameRun ok doms active" p "\<lambda>_. True"
  by unfold_locales (rule quiet_calls quiet_image quiet_removal)+

context libvirt_daemon
begin

abbreviation "quietly m \<equiv> keeps (sameDoms ok doms) m"

lemma call_Inl:
  assumes "call p m d = (Inl e, d1)"
  shows "m d = (Inl e, d1) \<or> (\<exists>r d2 c. m d = (r, d2) \<and> e = Sentinel c \<and> c \<in> {ContextCanceled, ContextDeadlineExceeded} \<and> d1 = lv_recycle (pv_client p) d2)"
  using assms contexts by (fastforce simp: call_def split: prod.splits option.splits if_splits)

lemma call_NotFound: "call p m d = (Inl e, d1) \<Longrightarrow> isNotFound e \<Longrightarrow> m d = (Inl e, d1)"
  using call_Inl [of m d e d1] by (auto simp: isNotFound_def)

lemma call_foreign: "foreignErrors m \<Longrightarrow> foreignErrors (call p m)"
  unfolding foreignErrors_def using call_Inl by fastforce

text \<open>What a state reports, and when a lookup says there is no machine.\<close>

lemma quietlyD: "quietly m \<Longrightarrow> ok d \<Longrightarrow> m d = (r, d1) \<Longrightarrow> ok d1 \<and> doms d1 = doms d"
  using quiet_call_to [of m d r d1] by (simp add: sameDoms_def)

lemma stateOf_result: "stateOf p x d = (Inr st, d1) \<Longrightarrow> st_id st = formatUUID (dom_uuid x) \<and> st_name st = dom_name x"
  by (auto simp: stateOf_def act_simps ret_def)

lemma foreign_addressesFrom: "addressesFrom p x ss d = (Inl e, d1) \<Longrightarrow> \<not> errorsIs e ErrNotFound"
  by (induction ss arbitrary: d) (auto simp: Let_def dest: contexts split: prod.splits sum.splits option.splits if_splits)

lemma foreign_stateOf: "stateOf p x d = (Inl e, d1) \<Longrightarrow> \<not> errorsIs e ErrNotFound"
  by (auto simp: stateOf_def act_simps ret_def addressesOf_def simp del: addressesFrom.simps
      dest: foreign_addressesFrom foreignD [OF call_foreign [OF foreign(4)]])

lemma lookupByUUID_ok:
  assumes "ok d" "lookupByUUID p i d = (Inr x, d1)"
  shows "parseUUID i = Inr (dom_uuid x) \<and> doms d (dom_name x) = Some (dom_uuid x)"
proof -
  obtain u where u: "parseUUID i = Inr u" using assms(2) by (cases "parseUUID i") (auto simp: lookupByUUID_def fail_def)
  then have "lv_domainLookupByUUID (pv_client p) u d = (Inr x, d1)"
    using assms(2) by (auto simp: lookupByUUID_def act_simps fail_def dest!: call_Inr split: if_splits)
  with uuid_ok [OF assms(1) this] u show ?thesis by simp
qed

lemma lookupByUUID_none:
  assumes "ok d" "lookupByUUID p i d = (Inl e, d1)" "errorsIs e ErrNotFound"
  shows "\<exists>u. parseUUID i = Inr u \<and> u \<notin> ran (doms d)"
proof -
  obtain u where u: "parseUUID i = Inr u" using assms(2,3) by (cases "parseUUID i") (auto simp: lookupByUUID_def fail_def)
  obtain e1 d2 where c: "call p (lv_domainLookupByUUID (pv_client p) u) d = (Inl e1, d2)"
    and h: "(if isNotFound e1 then fail (Sentinel ErrNotFound) else fail (WrapErr ''libvirt: looking up domain'' [i] e1)) d2 = (Inl e :: goerr + Domain, d1)"
    using assms(2) u by (auto simp: lookupByUUID_def act_simps)
  have "isNotFound e1"
    using h assms(3) foreignD [OF call_foreign [OF foreign(3)] c] by (auto simp: fail_def split: if_splits)
  with uuid_none [OF assms(1) call_NotFound [OF c]] u show ?thesis by blast
qed

lemma lookupByName_ok:
  assumes "ok d" "call p (lv_domainLookupByName (pv_client p) n) d = (Inr x, d1)"
  shows "ok d1 \<and> doms d1 = doms d \<and> dom_name x = n \<and> doms d n = Some (dom_uuid x)"
  using quietlyD [OF quiet_rpc(1) assms] lookup_ok [OF assms(1) call_Inr [OF assms(2)]] by blast

lemma lookupByName_none:
  assumes "ok d" "call p (lv_domainLookupByName (pv_client p) n) d = (Inl e, d1)"
  shows "ok d1 \<and> doms d1 = doms d \<and> (isNotFound e \<longrightarrow> doms d n = None) \<and> \<not> errorsIs e ErrNotFound"
  using quietlyD [OF quiet_rpc(1) assms] lookup_none [OF assms(1) call_NotFound [OF assms(2)]]
    call_foreign [OF foreign(2) [of n]] assms(2) by (auto simp: foreignErrors_def)

abbreviation "vms d n \<equiv> map_option formatUUID (doms d n)"

lemma vms_ran: "ok d \<Longrightarrow> length u = 16 \<Longrightarrow> formatUUID u \<in> ran (vms d) \<longleftrightarrow> u \<in> ran (doms d)"
  using uuids [of d] by (auto simp: ran_def) (metis formatUUID_inj mem_Collect_eq)

lemma canonID_parsed: "parseUUID i = Inr u \<Longrightarrow> canonID i = formatUUID u \<and> length u = 16"
  by (simp add: canonID_def parseUUID_length)

lemma get_ok:
  assumes "ok d" "lvGet p i d = (Inr st, d1)"
  shows "ok d1 \<and> doms d1 = doms d \<and> st_id st = canonID i \<and> vms d (st_name st) = Some (canonID i)"
proof -
  obtain d2 x d3 where b: "lv_begin (pv_client p) d = (Inr (), d2)" and l: "lookupByUUID p i d2 = (Inr x, d3)"
    and st: "stateOf p x d3 = (Inr st, d1)"
    using assms(2) by (auto simp: lvGet_def act_simps)
  have 2: "ok d2 \<and> doms d2 = doms d" by (rule quietlyD [OF quiet_begin assms(1) b])
  then have 3: "ok d3 \<and> doms d3 = doms d2" using quietlyD [OF quiet_lookupByUUID _ l] by blast
  then have 4: "ok d1 \<and> doms d1 = doms d3" using quietlyD [OF quiet_stateOf _ st] by blast
  show ?thesis
    using 2 3 4 lookupByUUID_ok [OF _ l] stateOf_result [OF st] canonID_parsed [of i "dom_uuid x"] by auto
qed

lemma get_none:
  assumes "ok d" "lvGet p i d = (Inl e, d1)" "errorsIs e ErrNotFound"
  shows "canonID i \<notin> ran (vms d)"
proof -
  have "\<not> lv_begin (pv_client p) d = (Inl e, d1)" using foreign(1) assms(3) by (auto simp: foreignErrors_def)
  then obtain d2 where b: "lv_begin (pv_client p) d = (Inr (), d2)" and l: "lookupByUUID p i d2 = (Inl e, d1)"
    using assms(2,3) by (auto simp: lvGet_def act_simps dest: foreign_stateOf)
  have 2: "ok d2 \<and> doms d2 = doms d" by (rule quietlyD [OF quiet_begin assms(1) b])
  then show ?thesis using lookupByUUID_none [OF _ l assms(3)] vms_ran [of d2] canonID_parsed [of i] by auto
qed

lemma find_ok:
  assumes "ok d" "lvFindByName p n d = (Inr st, d1)"
  shows "st_name st = n \<and> vms d n = Some (st_id st)"
proof -
  obtain d2 x d3 where b: "lv_begin (pv_client p) d = (Inr (), d2)"
    and l: "call p (lv_domainLookupByName (pv_client p) n) d2 = (Inr x, d3)" and st: "stateOf p x d3 = (Inr st, d1)"
    using assms(2) by (auto simp: lvFindByName_def act_simps fail_def split: if_splits)
  have 2: "ok d2 \<and> doms d2 = doms d" by (rule quietlyD [OF quiet_begin assms(1) b])
  then show ?thesis using lookupByName_ok [OF _ l] stateOf_result [OF st] by auto
qed

lemma find_none:
  assumes "ok d" "lvFindByName p n d = (Inl e, d1)" "errorsIs e ErrNotFound"
  shows "vms d n = None"
proof -
  have "\<not> lv_begin (pv_client p) d = (Inl e, d1)" using foreign(1) assms(3) by (auto simp: foreignErrors_def)
  then obtain d2 e1 d3 where b: "lv_begin (pv_client p) d = (Inr (), d2)"
    and l: "call p (lv_domainLookupByName (pv_client p) n) d2 = (Inl e1, d3)"
    and h: "(if isNotFound e1 then fail (Sentinel ErrNotFound) else fail (WrapErr ''libvirt: looking up domain'' [n] e1)) d3 = (Inl e :: goerr + Domain, d1)"
    using assms(2,3) by (auto simp: lvFindByName_def act_simps dest: foreign_stateOf)
  have 2: "ok d2 \<and> doms d2 = doms d" by (rule quietlyD [OF quiet_begin assms(1) b])
  then show ?thesis using lookupByName_none [OF _ l] h assms(3) by (auto simp: fail_def split: if_splits)
qed

text \<open>Creating: the domain is defined at most once, under the machine's name.\<close>

lemma quiet_triple: "quietly m \<Longrightarrow> triple (\<lambda>d. ok d \<and> P (doms d)) m (\<lambda>_ d. ok d \<and> P (doms d)) (\<lambda>_ d. ok d \<and> P (doms d))"
  by (rule tripleI) (auto dest!: quietlyD)

definition created :: "(string \<rightharpoonup> UUID) \<Rightarrow> string \<Rightarrow> UUID \<Rightarrow> 'd \<Rightarrow> bool" where
  "created D n u d \<longleftrightarrow> ok d \<and> doms d = D(n \<mapsto> u)"

definition onlyAt :: "(string \<rightharpoonup> UUID) \<Rightarrow> string \<Rightarrow> 'd \<Rightarrow> bool" where
  "onlyAt D n d \<longleftrightarrow> ok d \<and> (\<forall>n'. n' \<noteq> n \<longrightarrow> doms d n' = D n')"

lemma at_onlyAt: "ok d \<and> doms d = D \<Longrightarrow> onlyAt D n d" and created_onlyAt: "created D n u d \<Longrightarrow> onlyAt D n d"
  by (auto simp: onlyAt_def created_def)

lemma quiet_first:
  assumes "quietly m" "\<And>x. triple (\<lambda>d. ok d \<and> doms d = D) (f x) Q (\<lambda>_. onlyAt D n)"
  shows "triple (\<lambda>d. ok d \<and> doms d = D) (andThen m f) Q (\<lambda>_. onlyAt D n)"
  by (rule triple_andThen [OF triple_conseq [OF quiet_triple [OF assms(1), of "\<lambda>D'. D' = D"]] assms(2)])
    (auto intro: at_onlyAt)

lemma define_triple:
  assumes "D n = None" "ms_name spec = n"
  shows "triple (\<lambda>d. ok d \<and> doms d = D) (call p (lv_domainDefineXML (pv_client p) (domainXML spec r c)))
    (\<lambda>x d. dom_name x = n \<and> created D n (dom_uuid x) d) (\<lambda>_. onlyAt D n)"
proof (rule tripleI)
  have doc: "unmarshalDomain (domainXML spec r c) = Inr (domainOf spec r c)" by (simp add: domainXML_def unmarshal_renderDomain)
  have nm: "dd_name (domainOf spec r c) = n" using assms(2) by (simp add: domainOf_def)
  fix d x d1 assume d: "ok d \<and> doms d = D" and c: "call p (lv_domainDefineXML (pv_client p) (domainXML spec r c)) d = (Inr x, d1)"
  show "dom_name x = n \<and> created D n (dom_uuid x) d1"
    using define_ok [OF _ doc _ call_Inr [OF c]] d assms(1) nm by (auto simp: created_def)
next
  have doc: "unmarshalDomain (domainXML spec r c) = Inr (domainOf spec r c)" by (simp add: domainXML_def unmarshal_renderDomain)
  have nm: "dd_name (domainOf spec r c) = n" using assms(2) by (simp add: domainOf_def)
  fix d e d1 assume d: "ok d \<and> doms d = D" and c: "call p (lv_domainDefineXML (pv_client p) (domainXML spec r c)) d = (Inl e, d1)"
  have "onlyAt D n d2" if "lv_domainDefineXML (pv_client p) (domainXML spec r c) d = (rr, d2)" for rr d2
    using define_ok [OF _ doc _ that] d assms(1) nm by (auto simp: onlyAt_def)
  moreover have "onlyAt D n d2 \<Longrightarrow> onlyAt D n (lv_recycle (pv_client p) d2)" for d2
    using quiet_ops by (auto simp: onlyAt_def sameDoms_def)
  ultimately show "onlyAt D n d1" using call_Inl [OF c] by auto
qed

lemma rollback_triple:
  assumes "triple P m Q (\<lambda>_. onlyAt D n)" "quietly rb"
  shows "triple P (orRollback rb m) Q (\<lambda>_. onlyAt D n)"
proof -
  have "triple (onlyAt D n) (andThen rb (\<lambda>_. fail e)) Q (\<lambda>_. onlyAt D n)" for e
    using quiet_triple [OF assms(2), of "\<lambda>D'. \<forall>n'. n' \<noteq> n \<longrightarrow> D' n' = D n'"]
    unfolding onlyAt_def [symmetric] by (rule triple_andThen) (auto intro: triple_fail)
  then show ?thesis unfolding orRollback_def by (rule triple_onError [OF assms(1)])
qed

lemma defineDomain_triple:
  assumes "D (ms_name spec) = None"
  shows "triple (\<lambda>d. ok d \<and> doms d = D) (defineDomain p pool v c spec)
    (\<lambda>x d. dom_name x = ms_name spec \<and> created D (ms_name spec) (dom_uuid x) d) (\<lambda>_. onlyAt D (ms_name spec))"
proof -
  have rb: "quietly (rollbackVolumes p pool v c)" by (rule quiet_rollbackVolumes) simp_all
  have last: "triple (\<lambda>d. ok d \<and> doms d = D) (orRollback (rollbackVolumes p pool v c) (wrapping t as
      (call p (lv_domainDefineXML (pv_client p) (domainXML spec1 r cp)))))
      (\<lambda>x d. dom_name x = ms_name spec \<and> created D (ms_name spec) (dom_uuid x) d) (\<lambda>_. onlyAt D (ms_name spec))"
    if "ms_name spec1 = ms_name spec" for spec1 t as r cp
    by (intro rollback_triple triple_wrapping define_triple assms that rb)
  have paths: "quietly (if c \<noteq> [] then orRollback (rollbackVolumes p pool v c) (volumePath p pool c) else ret [])"
    by (intro quiet_steps rb quiet_volumePath)
  show ?thesis
  proof (cases "ms_managedNetwork spec")
    case None
    show ?thesis unfolding defineDomain_def Let_def None option.case andThen_ret
      by (intro quiet_first quiet_orRollback rb quiet_volumePath paths last refl)
  next
    case (Some mn)
    show ?thesis unfolding defineDomain_def Let_def Some option.case resolveNetwork_def andThen_mapped
      by (intro quiet_first quiet_orRollback rb quiet_volumePath quiet_attachableNetwork paths last) simp
  qed
qed

lemma createFresh_triple:
  assumes "D (ms_name spec) = None"
  shows "triple (\<lambda>d. ok d \<and> doms d = D) (createFresh p spec)
    (\<lambda>st d. st_name st = ms_name spec \<and> (\<exists>u. st_id st = formatUUID u \<and> created D (ms_name spec) u d)) (\<lambda>_. onlyAt D (ms_name spec))"
proof -
  let ?n = "ms_name spec"
  have last: "triple (\<lambda>d. dom_name x = ?n \<and> created D ?n (dom_uuid x) d) (andThen (ensureRunning p x) (\<lambda>_. stateOf p x))
      (\<lambda>st d. st_name st = ?n \<and> (\<exists>u. st_id st = formatUUID u \<and> created D ?n u d)) (\<lambda>_. onlyAt D ?n)" for x
  proof -
    have q: "quietly (andThen (ensureRunning p x) (\<lambda>_. stateOf p x))" by (intro quiet_steps quiet_ensureRunning quiet_stateOf)
    have r: "andThen (ensureRunning p x) (\<lambda>_. stateOf p x) d = (Inr st, d1) \<Longrightarrow> st_id st = formatUUID (dom_uuid x) \<and> st_name st = dom_name x" for d st d1
      by (auto simp: andThen_Inr dest: stateOf_result)
    show ?thesis
      by (rule tripleI) (use r quietlyD [OF q] in \<open>auto simp: created_def onlyAt_def\<close>)
  qed
  show ?thesis unfolding createFresh_def Let_def
    by (intro quiet_first quiet_steps quiet_lookupPoolNamed quiet_resolveBackingPath quiet_deleteVolume
        quiet_ensureCloudInitVolume TrueI triple_andThen [OF defineDomain_triple last] assms)
qed

lemma create_cases:
  assumes "ok d" "lvCreate p spec d = (r, d1)"
  obtains (stopped) e where "r = Inl e" "ok d1" "doms d1 = doms d"
  | (found) x d2 where "doms d (ms_name spec) = Some (dom_uuid x)" "dom_name x = ms_name spec" "ok d2" "doms d2 = doms d"
      "andThen (ensureRunning p x) (\<lambda>_. stateOf p x) d2 = (r, d1)"
  | (fresh) d2 where "doms d (ms_name spec) = None" "ok d2" "doms d2 = doms d" "createFresh p spec d2 = (r, d1)"
proof -
  obtain rb d2 where b: "lv_begin (pv_client p) d = (rb, d2)" by fastforce
  have 2: "ok d2 \<and> doms d2 = doms d" by (rule quietlyD [OF quiet_begin assms(1) b])
  obtain rl d3 where l: "call p (lv_domainLookupByName (pv_client p) (ms_name spec)) d2 = (rl, d3)" by fastforce
  show thesis
  proof (cases rb)
    case (Inl e)
    then show thesis using stopped [of e] assms(2) b 2 by (simp add: lvCreate_def andThen_def)
  next
    case rb: (Inr u)
    show thesis
    proof (cases rl)
      case (Inr x)
      then show thesis using found [of x d3] lookupByName_ok [of d2 "ms_name spec" x d3] assms(2) b l rb 2
        by (auto simp: lvCreate_def andThen_def)
    next
      case (Inl e)
      have 3: "ok d3 \<and> doms d3 = doms d \<and> (isNotFound e \<longrightarrow> doms d (ms_name spec) = None)"
        using lookupByName_none [of d2 "ms_name spec" e d3] l Inl 2 by auto
      have "\<not> isNotFound e \<or> isContextErr e \<Longrightarrow> \<exists>e'. r = Inl e' \<and> d1 = d3" and
        "isNotFound e \<Longrightarrow> \<not> isContextErr e \<Longrightarrow> createFresh p spec d3 = (r, d1)"
        using assms(2) b l rb Inl by (auto simp: lvCreate_def andThen_def fail_def split: if_splits)
      then show thesis using 3 stopped fresh [of d3] by blast
    qed
  qed
qed

lemma create_ok:
  assumes "ok d" "lvCreate p spec d = (Inr st, d1)"
  shows "ok d1 \<and> st_name st = ms_name spec \<and> (\<exists>u. st_id st = formatUUID u \<and> doms d1 = (doms d)(ms_name spec \<mapsto> u)
    \<and> doms d (ms_name spec) \<in> {None, Some u})"
  using assms
proof (cases rule: create_cases)
  case (found x d2)
  have q: "quietly (andThen (ensureRunning p x) (\<lambda>_. stateOf p x))" by (intro quiet_steps quiet_ensureRunning quiet_stateOf)
  have "ok d1 \<and> doms d1 = doms d" using quietlyD [OF q found(3,5)] found(4) by simp
  moreover have "st_id st = formatUUID (dom_uuid x) \<and> st_name st = ms_name spec"
    using found(2,5) by (auto simp: andThen_Inr dest: stateOf_result)
  ultimately show ?thesis using found(1) by (auto simp: fun_upd_idem)
next
  case (fresh d2)
  then show ?thesis using tripleD(1) [OF createFresh_triple [where D = "doms d"] _ fresh(4)] by (auto simp: created_def)
qed simp

text \<open>Without a pool, of the machine or of the backend, nothing is made.\<close>

lemma create_poolless:
  assumes "ok d" "StoragePoolFor p (ms_storagePool spec) = []" "lvCreate p spec d = (r, d1)"
  shows "doms d1 = doms d"
  using assms(1,3)
proof (cases rule: create_cases)
  case (found x d2)
  have q: "quietly (andThen (ensureRunning p x) (\<lambda>_. stateOf p x))" by (intro quiet_steps quiet_ensureRunning quiet_stateOf)
  show ?thesis using quietlyD [OF q found(3,5)] found(4) by simp
next
  case (fresh d2)
  obtain e where "lookupPoolNamed p (ms_storagePool spec) d2 = (Inl e, d2)"
    using assms(2) by (auto simp: lookupPoolNamed_def StoragePoolFor_def fail_def split: if_splits)
  then have "d1 = d2" using fresh(4) by (simp add: createFresh_def andThen_def [of "lookupPoolNamed p (ms_storagePool spec)"])
  then show ?thesis using fresh(3) by simp
qed simp

lemma create_err:
  assumes "ok d" "lvCreate p spec d = (Inl e, d1)"
  shows "ok d1 \<and> (\<forall>n. n \<noteq> ms_name spec \<longrightarrow> doms d1 n = doms d n)
    \<and> (doms d (ms_name spec) \<noteq> None \<longrightarrow> doms d1 (ms_name spec) = doms d (ms_name spec))"
  using assms
proof (cases rule: create_cases)
  case (found x d2)
  have q: "quietly (andThen (ensureRunning p x) (\<lambda>_. stateOf p x))" by (intro quiet_steps quiet_ensureRunning quiet_stateOf)
  show ?thesis using quietlyD [OF q found(3,5)] found(4) by simp
next
  case (fresh d2)
  then show ?thesis using tripleD(2) [OF createFresh_triple [where D = "doms d"] _ fresh(4)] by (auto simp: onlyAt_def)
qed simp

text \<open>Deleting: nothing but the domain goes, and it is gone when nothing failed.\<close>

definition atMostWithout :: "(string \<rightharpoonup> UUID) \<Rightarrow> string \<Rightarrow> 'd \<Rightarrow> bool" where
  "atMostWithout D n d \<longleftrightarrow> ok d \<and> doms d \<in> {D, D(n := None)}"

lemma removal_triple:
  assumes "\<And>d r d1. atMostWithout D n d \<Longrightarrow> m d = (r, d1) \<Longrightarrow> atMostWithout D n d1"
  shows "triple (atMostWithout D n) (call p m) (\<lambda>_. atMostWithout D n) (\<lambda>_. atMostWithout D n)"
proof -
  have rc: "atMostWithout D n d \<Longrightarrow> atMostWithout D n (lv_recycle (pv_client p) d)" for d
    using quiet_ops by (auto simp: atMostWithout_def sameDoms_def)
  show ?thesis by (rule tripleI) (use assms rc in \<open>auto dest!: call_Inr call_Inl\<close>)
qed

lemma atMostWithout_handle: "D (dom_name x) = Some (dom_uuid x) \<Longrightarrow> atMostWithout D (dom_name x) d \<Longrightarrow> ok d \<and> handleOf doms d x"
  by (auto simp: atMostWithout_def handleOf_def)

lemma removed_again: "D' \<in> {D, D(n := None)} \<Longrightarrow> D'' \<in> {D', D'(n := None)} \<Longrightarrow> D'' \<in> {D, D(n := None)}"
  by auto

lemma tolerating_triple:
  assumes "triple P m Q E" "\<And>e d. E e d \<Longrightarrow> G e \<Longrightarrow> Q () d" "\<And>e d. E e d \<Longrightarrow> E' (WrapErr t as e) d"
  shows "triple P (tolerating G t as m) Q E'"
  unfolding tolerating_def by (rule triple_onError [OF assms(1)]) (use assms(2,3) in \<open>auto simp: triple_def ret_def fail_def\<close>)

text \<open>A domain that was destroyed does not run until it is undefined: nothing in between starts it.\<close>

definition stoppedWithout :: "(string \<rightharpoonup> UUID) \<Rightarrow> string \<Rightarrow> 'd \<Rightarrow> bool" where
  "stoppedWithout D n d \<longleftrightarrow> atMostWithout D n d \<and> \<not> active d n"

lemma quiet_stopped:
  "keeps (sameRun ok doms active) m \<Longrightarrow> triple (stoppedWithout D n) m (\<lambda>_. stoppedWithout D n) (\<lambda>_. atMostWithout D n)"
  by (rule tripleI) (fastforce simp: stoppedWithout_def atMostWithout_def sameRun_def dest: st.quiet_call_to)+

lemma without_step:
  assumes "D (dom_name x) = Some (dom_uuid x)" "atMostWithout D (dom_name x) d"
    and "ok d \<Longrightarrow> handleOf doms d x \<Longrightarrow> ok d1 \<and> doms d1 \<in> {doms d, (doms d)(dom_name x := None)}"
  shows "atMostWithout D (dom_name x) d1"
  using assms(3) atMostWithout_handle [where D = D and x = x, OF assms(1,2)] assms(2)
    removed_again [of "doms d" D "dom_name x" "doms d1"] by (auto simp: atMostWithout_def)

lemma destroy_triple:
  assumes "D (dom_name x) = Some (dom_uuid x)"
  shows "triple (atMostWithout D (dom_name x)) (call p (lv_domainDestroy (pv_client p) x))
    (\<lambda>_. stoppedWithout D (dom_name x))
    (\<lambda>e d. atMostWithout D (dom_name x) d \<and> (isNotFound e \<or> isInvalidState e \<longrightarrow> stoppedWithout D (dom_name x) d))"
proof -
  let ?m = "lv_domainDestroy (pv_client p) x" and ?P = "atMostWithout D (dom_name x)"
  have step: "?P d1" if "?P d" "?m d = (r, d1)" for d r d1
    using without_step [where D = D and x = x, OF assms that(1)] destroy_ok [OF _ _ that(2)] by blast
  have stops: "\<not> active d1 (dom_name x)"
    if "?P d" "?m d = (r, d1)" "r = Inr () \<or> (\<exists>e. r = Inl e \<and> (isNotFound e \<or> isInvalidState e))" for d r d1
    using destroy_ok [OF _ _ that(2)] atMostWithout_handle [where D = D and x = x, OF assms that(1)] that(3) by blast
  have "triple ?P (call p ?m) (\<lambda>_. ?P) (\<lambda>_. ?P)" by (rule removal_triple) (rule step)
  note t = tripleD [OF this]
  show ?thesis
  proof (rule tripleI)
    fix d u d1 assume a: "?P d" "call p ?m d = (Inr u, d1)"
    show "stoppedWithout D (dom_name x) d1"
      using t(1) [OF a] stops [OF a(1) call_Inr [OF a(2)]] by (simp add: stoppedWithout_def)
  next
    fix d e d1 assume a: "?P d" "call p ?m d = (Inl e, d1)"
    have "?m d = (Inl e, d1)" if "isNotFound e \<or> isInvalidState e"
      using call_Inl [OF a(2)] that by (auto simp: isNotFound_def isInvalidState_def)
    with t(2) [OF a] stops [OF a(1)] show "?P d1 \<and> (isNotFound e \<or> isInvalidState e \<longrightarrow> stoppedWithout D (dom_name x) d1)"
      by (auto simp: stoppedWithout_def)
  qed
qed

lemma undefine_triple:
  assumes "D (dom_name x) = Some (dom_uuid x)"
  shows "triple (stoppedWithout D (dom_name x)) (call p (lv_domainUndefineFlags (pv_client p) x))
    (\<lambda>_ d. ok d \<and> doms d = D(dom_name x := None))
    (\<lambda>e d. atMostWithout D (dom_name x) d \<and> (isNotFound e \<longrightarrow> doms d = D(dom_name x := None)))"
proof -
  let ?m = "lv_domainUndefineFlags (pv_client p) x" and ?P = "atMostWithout D (dom_name x)"
  have step: "?P d1" if "?P d" "?m d = (r, d1)" for d r d1
    using without_step [where D = D and x = x, OF assms that(1)] undefine_ok [OF _ _ that(2)] by blast
  have gone: "doms d1 = D(dom_name x := None)"
    if "stoppedWithout D (dom_name x) d" "?m d = (r, d1)" "r = Inr () \<or> (\<exists>e. r = Inl e \<and> isNotFound e)" for d r d1
  proof -
    have w: "?P d" "\<not> active d (dom_name x)" using that(1) by (simp_all add: stoppedWithout_def)
    have "doms d1 (dom_name x) = None"
      using undefine_ok [OF _ _ that(2)] atMostWithout_handle [where D = D and x = x, OF assms w(1)] w(2) that(3) by blast
    with step [OF w(1) that(2)] assms show ?thesis by (auto simp: atMostWithout_def)
  qed
  have "triple ?P (call p ?m) (\<lambda>_. ?P) (\<lambda>_. ?P)" by (rule removal_triple) (rule step)
  note t = tripleD [OF this]
  show ?thesis
  proof (rule tripleI)
    fix d u d1 assume a: "stoppedWithout D (dom_name x) d" "call p ?m d = (Inr u, d1)"
    then have "?P d" by (simp add: stoppedWithout_def)
    from t(1) [OF this a(2)] gone [OF a(1) call_Inr [OF a(2)]] show "ok d1 \<and> doms d1 = D(dom_name x := None)"
      by (simp add: atMostWithout_def)
  next
    fix d e d1 assume a: "stoppedWithout D (dom_name x) d" "call p ?m d = (Inl e, d1)"
    then have "?P d" by (simp add: stoppedWithout_def)
    from t(2) [OF this a(2)] gone [OF a(1) call_NotFound [OF a(2)]]
    show "?P d1 \<and> (isNotFound e \<longrightarrow> doms d1 = D(dom_name x := None))" by blast
  qed
qed

lemma deleteDomain_triple:
  assumes "D (dom_name x) = Some (dom_uuid x)"
  shows "triple (atMostWithout D (dom_name x)) (deleteDomain p x) (\<lambda>_ d. ok d \<and> doms d = D(dom_name x := None)) (\<lambda>_. atMostWithout D (dom_name x))"
proof -
  let ?P = "atMostWithout D (dom_name x)" and ?S = "stoppedWithout D (dom_name x)"
  have ds: "triple ?P (tolerating (\<lambda>e. isNotFound e \<or> isInvalidState e) t as (call p (lv_domainDestroy (pv_client p) x))) (\<lambda>_. ?S) (\<lambda>_. ?P)" for t as
    by (rule tolerating_triple [OF destroy_triple [where D = D and x = x, OF assms]]) auto
  have us: "triple ?S (tolerating isNotFound t as (call p (lv_domainUndefineFlags (pv_client p) x)))
      (\<lambda>_ d. ok d \<and> doms d = D(dom_name x := None)) (\<lambda>_. ?P)" for t as
    by (rule tolerating_triple [OF undefine_triple [where D = D and x = x, OF assms]]) (auto simp: atMostWithout_def)
  show ?thesis unfolding deleteDomain_def
    by (intro triple_andThen [OF ds] triple_andThen [OF quiet_stopped] us st.quiet_steps st.quiet_diskSourcesOf
        st.quiet_deleteVolumeByPath TrueI)
qed

lemma deleteDomain_frame:
  assumes "ok d" "doms d (dom_name x) = Some (dom_uuid x)" "deleteDomain p x d = (r, d1)"
  shows "atMostWithout (doms d) (dom_name x) d1 \<and> (r = Inr () \<longrightarrow> doms d1 = (doms d)(dom_name x := None))"
proof -
  have s: "atMostWithout (doms d) (dom_name x) d" using assms(1) by (simp add: atMostWithout_def)
  note t = deleteDomain_triple [where D = "doms d" and x = x, OF assms(2)]
  show ?thesis using tripleD [OF t s] assms(3) by (cases r) (auto simp: atMostWithout_def)
qed

lemma delete_cases:
  assumes "ok d" "lvDelete p i d = (r, d1)"
  obtains (stopped) e where "r = Inl e" "ok d1" "doms d1 = doms d"
  | (absent) u where "parseUUID i = Inr u" "u \<notin> ran (doms d)" "ok d1" "doms d1 = doms d"
  | (found) x :: Domain where "parseUUID i = Inr (dom_uuid x)" "doms d (dom_name x) = Some (dom_uuid x)"
      "atMostWithout (doms d) (dom_name x) d1" "r = Inr () \<longrightarrow> doms d1 = (doms d)(dom_name x := None)"
proof -
  obtain rb d2 where b: "lv_begin (pv_client p) d = (rb, d2)" by fastforce
  have 2: "ok d2 \<and> doms d2 = doms d" by (rule quietlyD [OF quiet_begin assms(1) b])
  obtain rl d3 where l: "lookupByUUID p i d2 = (rl, d3)" by fastforce
  have 3: "ok d3 \<and> doms d3 = doms d" using quietlyD [OF quiet_lookupByUUID _ l] 2 by simp
  show thesis
  proof (cases rb)
    case (Inl e)
    then show thesis using stopped [of e] assms(2) b 2 by (simp add: lvDelete_def andThen_def)
  next
    case rb: (Inr u)
    show thesis
    proof (cases rl)
      case (Inr x)
      have "deleteDomain p x d3 = (r, d1)" using assms(2) b rb l Inr by (simp add: lvDelete_def andThen_def)
      then show thesis using found [of x] deleteDomain_frame [of d3 x r d1] lookupByUUID_ok [of d2 i x d3] l Inr 2 3 by auto
    next
      case (Inl e)
      show thesis
      proof (cases "errorsIs e ErrNotFound")
        case True
        then have "d1 = d3" using assms(2) b rb l Inl by (simp add: lvDelete_def andThen_def ret_def)
        then show thesis using absent lookupByUUID_none [of d2 i e d3] l Inl True 2 3 by auto
      next
        case False
        then show thesis using stopped [of e] assms(2) b rb l Inl 3 by (simp add: lvDelete_def andThen_def fail_def)
      qed
    qed
  qed
qed

lemma deleteByName_cases:
  assumes "ok d" "lvDeleteByName p n pl d = (r, d1)"
  obtains (kept) "ok d1" "doms d1 = doms d" "r = Inr () \<longrightarrow> doms d n = None"
  | (found) "atMostWithout (doms d) n d1" "r = Inr () \<longrightarrow> doms d1 = (doms d)(n := None)"
proof -
  obtain rb d2 where b: "lv_begin (pv_client p) d = (rb, d2)" by fastforce
  have 2: "ok d2 \<and> doms d2 = doms d" by (rule quietlyD [OF quiet_begin assms(1) b])
  obtain rl d3 where l: "call p (lv_domainLookupByName (pv_client p) n) d2 = (rl, d3)" by fastforce
  show thesis
  proof (cases rb)
    case (Inl e)
    then show thesis using kept assms(2) b 2 by (auto simp: lvDeleteByName_def andThen_def)
  next
    case rb: (Inr u)
    show thesis
    proof (cases rl)
      case (Inr x)
      have x: "ok d3 \<and> doms d3 = doms d \<and> dom_name x = n \<and> doms d n = Some (dom_uuid x)" using lookupByName_ok [of d2 n x d3] l Inr 2 by auto
      have "deleteDomain p x d3 = (r, d1)" using assms(2) b rb l Inr by (simp add: lvDeleteByName_def andThen_def)
      then show thesis using found deleteDomain_frame [of d3 x r d1] x by auto
    next
      case (Inl e)
      have 3: "ok d3 \<and> doms d3 = doms d \<and> (isNotFound e \<longrightarrow> doms d n = None)" using lookupByName_none [of d2 n e d3] l Inl 2 by auto
      define sweep where "sweep = eachOf (\<lambda>volName. deleteVolumeAnyPool p volName (if pl = [] then pv_storagePool p else pl))
        [rootVolumeName n, cidataVolumeName n]"
      have q: "quietly sweep" unfolding sweep_def by (intro quiet_steps quiet_deleteVolumeAnyPool TrueI)
      have "(\<exists>e'. r = Inl e' \<and> d1 = d3) \<or> isNotFound e \<and> sweep d3 = (r, d1)"
        using assms(2) b rb l Inl
        by (auto simp: lvDeleteByName_def andThen_def fail_def Let_def sweep_def simp del: eachOf.simps split: if_splits)
      then show thesis using 3 kept quietlyD [OF q, of d3 r d1] by auto
    qed
  qed
qed

lemma vms_without: "atMostWithout (doms d) n d1 \<Longrightarrow> vms d1 \<subseteq>\<^sub>m vms d \<and> (\<forall>n'. n' \<noteq> n \<longrightarrow> vms d1 n' = vms d n')"
  by (auto simp: atMostWithout_def map_le_def split: if_splits)

lemma without_ok: "atMostWithout D n d \<Longrightarrow> ok d"
  by (simp add: atMostWithout_def)

lemma provider_delete:
  assumes "ok d" "lvDelete p i d = (r, d1)"
  shows "ok d1 \<and> vms d1 \<subseteq>\<^sub>m vms d \<and> (\<forall>n. vms d n \<noteq> Some (canonID i) \<longrightarrow> vms d1 n = vms d n)
    \<and> (r = Inr () \<longrightarrow> canonID i \<notin> ran (vms d1))"
  using assms
proof (cases rule: delete_cases)
  case (absent u)
  then show ?thesis using vms_ran [of d u] canonID_parsed [OF absent(1)] assms(1) by auto
next
  case (found x)
  have c: "canonID i = formatUUID (dom_uuid x)" "length (dom_uuid x) = 16" using canonID_parsed [OF found(1)] by auto
  have "dom_uuid x \<notin> ran ((doms d)(dom_name x := None))"
    using uuids [OF assms(1)] found(2) by (auto simp: ran_def inj_on_def dom_def)
  moreover have "ok d1" using found(3) by (simp add: atMostWithout_def)
  ultimately have "r = Inr () \<Longrightarrow> canonID i \<notin> ran (vms d1)" using vms_ran [of d1 "dom_uuid x"] c found(4) by simp
  moreover have "vms d1 n = vms d n" if "vms d n \<noteq> Some (canonID i)" for n
    using that vms_without [OF found(3)] found(2) c by (cases "n = dom_name x") auto
  ultimately show ?thesis using vms_without [OF found(3)] \<open>ok d1\<close> by blast
qed auto

lemma provider_create: "ok d \<Longrightarrow> lvCreate p spec d = (Inr st, d1) \<Longrightarrow> vms d1 = (vms d)(ms_name spec \<mapsto> st_id st)"
  by (drule (1) create_ok) (auto simp: fun_eq_iff)

lemma provider: "machine_provider (libvirtProvider p) ok vms (\<lambda>_. ())"
proof
  fix d i res d1 assume d: "ok d" and c: "prov_delete (libvirtProvider p) i d = (res, d1)"
  obtain r where r: "lvDelete p i d = (r, d1)" using c by (cases "lvDelete p i d") (auto simp: libvirtProvider_def asOption_def split: sum.splits)
  show "ok d1 \<and> () = () \<and> vms d1 \<subseteq>\<^sub>m vms d \<and> (\<forall>n. vms d n \<noteq> Some (canonID i) \<longrightarrow> vms d1 n = vms d n)"
    using provider_delete [OF d r] by auto
next
  fix d i d1 assume d: "ok d" and c: "prov_delete (libvirtProvider p) i d = (None, d1)"
  have r: "lvDelete p i d = (Inr (), d1)" using c by (cases "lvDelete p i d") (auto simp: libvirtProvider_def asOption_def split: sum.splits)
  show "canonID i \<notin> ran (vms d1)" using provider_delete [OF d r] by auto
next
  fix d n pl res d1 assume d: "ok d" and c: "prov_deleteByName (libvirtProvider p) n pl d = (res, d1)"
  obtain r where r: "lvDeleteByName p n pl d = (r, d1)" using c by (cases "lvDeleteByName p n pl d") (auto simp: libvirtProvider_def asOption_def split: sum.splits)
  show "ok d1 \<and> () = () \<and> vms d1 \<subseteq>\<^sub>m vms d \<and> (\<forall>n'. n' \<noteq> n \<longrightarrow> vms d1 n' = vms d n')"
    using d r by (cases rule: deleteByName_cases) (auto dest: vms_without without_ok)
next
  fix d n pl d1 assume d: "ok d" and c: "prov_deleteByName (libvirtProvider p) n pl d = (None, d1)"
  have r: "lvDeleteByName p n pl d = (Inr (), d1)" using c by (cases "lvDeleteByName p n pl d") (auto simp: libvirtProvider_def asOption_def split: sum.splits)
  show "vms d1 n = None" using d r by (cases rule: deleteByName_cases) auto
next
  fix d ispec res d1 assume d: "ok d" and c: "prov_ensureInfrastructure (libvirtProvider p) ispec d = (res, d1)"
  obtain r where r: "lvEnsureInfrastructure p ispec d = (r, d1)" using c by (cases "lvEnsureInfrastructure p ispec d") (auto simp: libvirtProvider_def asOption_def split: sum.splits)
  show "ok d1 \<and> () = () \<and> vms d1 = vms d" using quietlyD [OF quiet_ensureInfrastructure d r] by simp
next
  fix d assume d: "ok d"
  show "inj_on (vms d) (dom (vms d))"
    using uuids [OF d] formatUUID_inj by (auto simp: inj_on_def dom_def ran_def) metis
  show "[] \<notin> ran (vms d)" by (auto simp: ran_def)
  show "canonID i = i" if "i \<in> ran (vms d)" for i using that uuids [OF d] by (auto simp: ran_def)
next
  fix d spec st d1 assume d: "ok d" and c: "prov_create (libvirtProvider p) spec d = (Inr st, d1)"
  have r: "lvCreate p spec d = (Inr st, d1)" using c by (simp add: libvirtProvider_def)
  show "ok d1 \<and> () = () \<and> st_name st = ms_name spec \<and> vms d1 = (vms d)(ms_name spec \<mapsto> st_id st) \<and> vms d (ms_name spec) \<in> {None, Some (st_id st)}"
    using create_ok [OF d r] provider_create [OF d r] by auto
next
  fix d spec e d1 assume d: "ok d" and c: "prov_create (libvirtProvider p) spec d = (Inl e, d1)"
  have r: "lvCreate p spec d = (Inl e, d1)" using c by (simp add: libvirtProvider_def)
  show "ok d1 \<and> () = () \<and> (\<forall>n. n \<noteq> ms_name spec \<longrightarrow> vms d1 n = vms d n) \<and> (vms d (ms_name spec) \<noteq> None \<longrightarrow> vms d1 (ms_name spec) = vms d (ms_name spec))"
    using create_err [OF d r] by simp
next
  fix d i st d1 assume d: "ok d" and c: "prov_get (libvirtProvider p) i d = (Inr st, d1)"
  have r: "lvGet p i d = (Inr st, d1)" using c by (simp add: libvirtProvider_def)
  show "ok d1 \<and> () = () \<and> vms d1 = vms d \<and> st_id st = canonID i \<and> vms d (st_name st) = Some (canonID i)" using get_ok [OF d r] by simp
next
  fix d i e d1 assume d: "ok d" and c: "prov_get (libvirtProvider p) i d = (Inl e, d1)"
  have r: "lvGet p i d = (Inl e, d1)" using c by (simp add: libvirtProvider_def)
  show "ok d1 \<and> () = () \<and> vms d1 = vms d \<and> (errorsIs e ErrNotFound \<longrightarrow> canonID i \<notin> ran (vms d))"
    using quietlyD [OF quiet_lvGet d r] get_none [OF d r] by simp
next
  fix d n st d1 assume d: "ok d" and c: "prov_findByName (libvirtProvider p) n d = (Inr st, d1)"
  have r: "lvFindByName p n d = (Inr st, d1)" using c by (simp add: libvirtProvider_def)
  show "ok d1 \<and> () = () \<and> vms d1 = vms d \<and> st_name st = n \<and> vms d n = Some (st_id st)"
    using quietlyD [OF quiet_lvFindByName d r] find_ok [OF d r] by simp
next
  fix d n e d1 assume d: "ok d" and c: "prov_findByName (libvirtProvider p) n d = (Inl e, d1)"
  have r: "lvFindByName p n d = (Inl e, d1)" using c by (simp add: libvirtProvider_def)
  show "ok d1 \<and> () = () \<and> vms d1 = vms d \<and> (errorsIs e ErrNotFound \<longrightarrow> vms d n = None)"
    using quietlyD [OF quiet_lvFindByName d r] find_none [OF d r] by simp
next
  show "prov_name (libvirtProvider p) \<noteq> [] \<and> CHR ''/'' \<notin> set (prov_name (libvirtProvider p))" by (simp add: libvirtProvider_def)
qed

end

sublocale libvirt_daemon \<subseteq> lv: machine_provider "libvirtProvider p" ok "\<lambda>d n. map_option formatUUID (doms d n)" "\<lambda>_. ()"
  by (rule provider)

end
