(* ===== verification/Libvirt_Host.thy ===== *)
theory Libvirt_Host
  imports Libvirt_Contract
begin

text \<open>
  A host the libvirt backend can be run on: domains with the document they were defined from, running
  or not, and transient once they were undefined while they ran; pools, volumes and networks, and a
  context that has ended or not. It answers as libvirt documents, with
  the error codes the backend tells apart, and discharges \<open>libvirt_daemon\<close>; the witnesses of the
  backend's claims run on it. At most 256 domains are ever defined on one host.
\<close>

section \<open>The state\<close>

record Guest =
  g_uuid :: UUID
  g_doc :: xmldoc
  g_running :: bool
  g_persistent :: bool
  g_autostart :: int

record Host =
  h_guests :: "(string \<times> Guest) list"
  h_next :: nat
  h_pools :: "(string \<times> (bool \<times> string)) list"
  h_vols :: "((string \<times> string) \<times> byte list) list"
  h_nets :: "(string \<times> (bool \<times> xmldoc)) list"
  h_cancelled :: bool

definition uuidOf :: "nat \<Rightarrow> UUID" where
  "uuidOf k = replicate 15 0 @ [of_nat k]"

definition hostDoms :: "Host \<Rightarrow> string \<rightharpoonup> UUID" where
  "hostDoms d n = map_option g_uuid (map_of (h_guests d) n)"

definition hostActive :: "Host \<Rightarrow> string \<Rightarrow> bool" where
  "hostActive d n = (case map_of (h_guests d) n of None \<Rightarrow> False | Some g \<Rightarrow> g_running g)"

definition hostOK :: "Host \<Rightarrow> bool" where
  "hostOK d \<longleftrightarrow> distinct (map fst (h_guests d)) \<and> distinct (map (\<lambda>g. g_uuid (snd g)) (h_guests d))
     \<and> h_next d \<le> 256 \<and> (\<forall>u\<in>set (map (\<lambda>g. g_uuid (snd g)) (h_guests d)). \<exists>k<h_next d. u = uuidOf k)"

section \<open>Its operations\<close>

definition lvErr :: "lvcode \<Rightarrow> ('d, 'a) act" where
  "lvErr c = fail (LvError c)"

definition onGuest :: "Domain \<Rightarrow> (Guest \<Rightarrow> (Host, 'a) act) \<Rightarrow> (Host, 'a) act" where
  "onGuest x f d = (case map_of (h_guests d) (dom_name x) of None \<Rightarrow> lvErr LvNoDomain d | Some g \<Rightarrow> f g d)"

definition setGuest :: "string \<Rightarrow> (Guest \<Rightarrow> Guest) \<Rightarrow> (Host, unit) act" where
  "setGuest n f d = (Inr (), d\<lparr>h_guests := map (\<lambda>(k, g). (k, if k = n then f g else g)) (h_guests d)\<rparr>)"

definition hostLookupByName :: "string \<Rightarrow> (Host, Domain) act" where
  "hostLookupByName n d = (case map_of (h_guests d) n of
     None \<Rightarrow> lvErr LvNoDomain d | Some g \<Rightarrow> ret \<lparr>dom_name = n, dom_uuid = g_uuid g\<rparr> d)"

definition hostLookupByUUID :: "UUID \<Rightarrow> (Host, Domain) act" where
  "hostLookupByUUID u d = (case filter (\<lambda>g. g_uuid (snd g) = u) (h_guests d) of
     [] \<Rightarrow> lvErr LvNoDomain d | g # _ \<Rightarrow> ret \<lparr>dom_name = fst g, dom_uuid = u\<rparr> d)"

definition hostDefine :: "xmldoc \<Rightarrow> (Host, Domain) act" where
  "hostDefine doc d = (case unmarshalDomain doc of
     Inl e \<Rightarrow> lvErr (LvOther 27) d
   | Inr df \<Rightarrow> (case map_of (h_guests d) (dd_name df) of
        Some g \<Rightarrow> andThen (setGuest (dd_name df) (\<lambda>g. g\<lparr>g_doc := doc, g_persistent := True\<rparr>)) (\<lambda>_. ret \<lparr>dom_name = dd_name df, dom_uuid = g_uuid g\<rparr>) d
      | None \<Rightarrow>
          if h_next d < 256
          then ret \<lparr>dom_name = dd_name df, dom_uuid = uuidOf (h_next d)\<rparr>
            (d\<lparr>h_guests := (dd_name df, \<lparr>g_uuid = uuidOf (h_next d), g_doc = doc, g_running = False, g_persistent = True, g_autostart = 0\<rparr>) # h_guests d,
               h_next := h_next d + 1\<rparr>)
          else lvErr (LvOther 1) d))"

definition hostStart :: "Domain \<Rightarrow> (Host, unit) act" where
  "hostStart x = onGuest x (\<lambda>g. if g_running g then lvErr LvOperationInvalid else setGuest (dom_name x) (\<lambda>g. g\<lparr>g_running := True\<rparr>))"

definition dropGuest :: "string \<Rightarrow> (Host, unit) act" where
  "dropGuest n d = (Inr (), d\<lparr>h_guests := filter (\<lambda>kg. fst kg \<noteq> n) (h_guests d)\<rparr>)"

text \<open>A transient domain is gone when it stops, and a running one that is undefined becomes transient.\<close>

definition hostDestroy :: "Domain \<Rightarrow> (Host, unit) act" where
  "hostDestroy x = onGuest x (\<lambda>g. if \<not> g_running g then lvErr LvOperationInvalid
     else if g_persistent g then setGuest (dom_name x) (\<lambda>g. g\<lparr>g_running := False\<rparr>) else dropGuest (dom_name x))"

definition hostUndefine :: "Domain \<Rightarrow> (Host, unit) act" where
  "hostUndefine x = onGuest x (\<lambda>g. if \<not> g_persistent g then lvErr LvOperationInvalid
     else if g_running g then setGuest (dom_name x) (\<lambda>g. g\<lparr>g_persistent := False, g_autostart := 0\<rparr>) else dropGuest (dom_name x))"

definition hostAutostart :: "Domain \<Rightarrow> int \<Rightarrow> (Host, unit) act" where
  "hostAutostart x a = onGuest x (\<lambda>g. if g_persistent g then setGuest (dom_name x) (\<lambda>g. g\<lparr>g_autostart := a\<rparr>) else lvErr LvOperationInvalid)"

definition hostAddresses :: "Domain \<Rightarrow> addrSource \<Rightarrow> (Host, string list list) act" where
  "hostAddresses x src = onGuest x (\<lambda>g. if g_running g \<and> src = addrSourceLease then ret [[''192.168.122.10'']] else lvErr LvOperationInvalid)"

definition hostListPools :: "bool \<Rightarrow> (Host, StoragePool list) act" where
  "hostListPools act d = ret (map (\<lambda>kp. \<lparr>sp_name = fst kp\<rparr>) (filter (\<lambda>kp. fst (snd kp) = act) (h_pools d))) d"

definition onPool :: "string \<Rightarrow> (bool \<Rightarrow> string \<Rightarrow> (Host, 'a) act) \<Rightarrow> (Host, 'a) act" where
  "onPool n f d = (case map_of (h_pools d) n of None \<Rightarrow> lvErr LvNoStoragePool d | Some (act, path) \<Rightarrow> f act path d)"

definition hostPoolDoc :: "string \<Rightarrow> xmldoc" where
  "hostPoolDoc path = Some (elem ''pool'' [(''type'', ''dir'')] [elem ''target'' [] [textElem ''path'' [] path]])"

definition hostVolume :: "string \<Rightarrow> string \<Rightarrow> StorageVol" where
  "hostVolume pool n = \<lparr>sv_pool = pool, sv_name = n, sv_key = pool @ ''/'' @ n\<rparr>"

definition hostVolCreate :: "StoragePool \<Rightarrow> xmldoc \<Rightarrow> (Host, StorageVol) act" where
  "hostVolCreate sp doc = (case doc of None \<Rightarrow> lvErr (LvOther 27) | Some x \<Rightarrow>
     onPool (sp_name sp) (\<lambda>act path d. let n = textOr ''name'' x [] in
       if \<not> act then lvErr LvOperationInvalid d
       else if map_of (h_vols d) (sp_name sp, n) \<noteq> None then lvErr LvStorageVolExist d
       else ret (hostVolume (sp_name sp) n) (d\<lparr>h_vols := ((sp_name sp, n), []) # h_vols d\<rparr>)))"

definition hostVolLookup :: "StoragePool \<Rightarrow> string \<Rightarrow> (Host, StorageVol) act" where
  "hostVolLookup sp n = onPool (sp_name sp) (\<lambda>act path d.
     if act \<and> map_of (h_vols d) (sp_name sp, n) \<noteq> None then ret (hostVolume (sp_name sp) n) d else lvErr LvNoStorageVol d)"

definition hostVolByPath :: "string \<Rightarrow> (Host, StorageVol) act" where
  "hostVolByPath path d =
     (case filter (\<lambda>kv. basePath path = snd (fst kv) \<and> (\<exists>pt\<in>set (h_pools d). fst pt = fst (fst kv) \<and> fst (snd pt) \<and> snd (snd pt) @ ''/'' @ snd (fst kv) = path)) (h_vols d) of
        [] \<Rightarrow> lvErr LvNoStorageVol d | kv # _ \<Rightarrow> ret (hostVolume (fst (fst kv)) (snd (fst kv))) d)"

definition hostVolPath :: "StorageVol \<Rightarrow> (Host, string) act" where
  "hostVolPath v = onPool (sv_pool v) (\<lambda>act path. ret (path @ ''/'' @ sv_name v))"

definition hostVolUpload :: "StorageVol \<Rightarrow> byte list \<Rightarrow> (Host, unit) act" where
  "hostVolUpload v bs d = ret () (d\<lparr>h_vols := map (\<lambda>(k, old). (k, if k = (sv_pool v, sv_name v) then bs else old)) (h_vols d)\<rparr>)"

definition hostVolDelete :: "StorageVol \<Rightarrow> (Host, unit) act" where
  "hostVolDelete v d = (if map_of (h_vols d) (sv_pool v, sv_name v) = None then lvErr LvNoStorageVol d
     else ret () (d\<lparr>h_vols := filter (\<lambda>kv. fst kv \<noteq> (sv_pool v, sv_name v)) (h_vols d)\<rparr>))"

definition onNet :: "string \<Rightarrow> (bool \<Rightarrow> xmldoc \<Rightarrow> (Host, 'a) act) \<Rightarrow> (Host, 'a) act" where
  "onNet n f d = (case map_of (h_nets d) n of None \<Rightarrow> lvErr LvNoNetwork d | Some (act, doc) \<Rightarrow> f act doc d)"

text \<open>A network gets a bridge of its own when its definition names none.\<close>

definition hostNetDefine :: "xmldoc \<Rightarrow> (Host, LvNetwork) act" where
  "hostNetDefine doc d = (case unmarshalNetwork doc of
     Inl e \<Rightarrow> lvErr (LvOther 27) d
   | Inr nf \<Rightarrow> let nf' = (if nd_bridgeName nf = [] then nf\<lparr>nd_bridgeName := ''virbr0''\<rparr> else nf) in
       ret \<lparr>nw_name = nd_name nf\<rparr> (d\<lparr>h_nets := (nd_name nf, (False, Some (renderNetwork nf'))) # h_nets d\<rparr>))"

definition hostNetCreate :: "LvNetwork \<Rightarrow> (Host, unit) act" where
  "hostNetCreate nw = onNet (nw_name nw) (\<lambda>act doc d.
     if act then lvErr LvOperationInvalid d else ret () (d\<lparr>h_nets := (nw_name nw, (True, doc)) # h_nets d\<rparr>))"

definition hostClient :: "Host client" where
  "hostClient = \<lparr>
     lv_domainLookupByName = hostLookupByName, lv_domainLookupByUUID = hostLookupByUUID, lv_domainDefineXML = hostDefine,
     lv_domainIsActive = (\<lambda>x. onGuest x (\<lambda>g. ret (if g_running g then 1 else 0))),
     lv_domainGetXMLDesc = (\<lambda>x _. onGuest x (\<lambda>g. ret (g_doc g))),
     lv_domainCreate = hostStart,
     lv_domainSetAutostart = hostAutostart,
     lv_domainDestroy = hostDestroy, lv_domainUndefineFlags = hostUndefine,
     lv_domainGetState = (\<lambda>x. onGuest x (\<lambda>g. ret (if g_running g then 1 else 5))),
     lv_domainInterfaceAddresses = hostAddresses, lv_listStoragePools = hostListPools,
     lv_storagePoolLookupByName = (\<lambda>n. onPool n (\<lambda>_ _. ret \<lparr>sp_name = n\<rparr>)),
     lv_storagePoolIsActive = (\<lambda>sp. onPool (sp_name sp) (\<lambda>act _. ret (if act then 1 else 0))),
     lv_storagePoolGetXMLDesc = (\<lambda>sp. onPool (sp_name sp) (\<lambda>_ path. ret (hostPoolDoc path))),
     lv_storageVolCreateXML = hostVolCreate, lv_storageVolLookupByName = hostVolLookup, lv_storageVolLookupByPath = hostVolByPath,
     lv_storageVolGetPath = hostVolPath, lv_storageVolUpload = hostVolUpload, lv_storageVolDelete = hostVolDelete,
     lv_networkLookupByName = (\<lambda>n. onNet n (\<lambda>_ _. ret \<lparr>nw_name = n\<rparr>)), lv_networkDefineXML = hostNetDefine,
     lv_networkIsActive = (\<lambda>nw. onNet (nw_name nw) (\<lambda>act _. ret (if act then 1 else 0))),
     lv_networkCreate = hostNetCreate, lv_networkSetAutostart = (\<lambda>nw _. onNet (nw_name nw) (\<lambda>_ _. ret ())),
     lv_networkGetXMLDesc = (\<lambda>nw. onNet (nw_name nw) (\<lambda>_ doc. ret doc)),
     lv_begin = ret (), lv_ctxErr = (\<lambda>d. if h_cancelled d then Some ContextCanceled else None),
     lv_answered = (\<lambda>_. False), lv_recycle = (\<lambda>d. d)\<rparr>"

text \<open>A writer that keeps no state and writes a fixed image.\<close>

definition hostImage :: "Host imageLib" where
  "hostImage = \<lparr>yaml_marshal = (\<lambda>kvs. Inr (concat (map (\<lambda>(k, v). map (\<lambda>c. of_nat (of_char c)) (k @ '': '' @ v @ [CHR 10])) kvs))),
     iso_newWriter = ret 0, iso_addFile = (\<lambda>_ _ _. ret ()), iso_writeTo = (\<lambda>_ _. ret [1]), iso_cleanup = (\<lambda>_ d. d)\<rparr>"

definition hostProvider :: "Host Provider" where
  "hostProvider = \<lparr>pv_client = hostClient, pv_image = hostImage, pv_storagePool = ''default'', pv_baseImage = ''base.qcow2''\<rparr>"

section \<open>The laws\<close>

abbreviation "hostQuiet m \<equiv> keeps (sameRun hostOK hostDoms hostActive) m"

lemma quiet_view: "(\<And>d. h_guests (snd (m d)) = h_guests d \<and> h_next (snd (m d)) = h_next d) \<Longrightarrow> hostQuiet m"
  by (simp add: keeps_def sameRun_def hostOK_def hostDoms_def [abs_def] hostActive_def)

lemma quiet_lvErr: "hostQuiet (lvErr c)"
  unfolding lvErr_def by (rule sr.keeps_fail)

lemma quiet_onGuest: "(\<And>g. hostQuiet (f g)) \<Longrightarrow> hostQuiet (onGuest x f)"
  using quiet_lvErr [of LvNoDomain, where 'a = 'a] by (auto simp: keeps_def onGuest_def split: option.splits)

lemma quiet_onPool: "(\<And>a t. hostQuiet (f a t)) \<Longrightarrow> hostQuiet (onPool n f)"
  using quiet_lvErr [of LvNoStoragePool, where 'a = 'a] by (auto simp: keeps_def onPool_def split: option.splits)

lemma quiet_onNet: "(\<And>a t. hostQuiet (f a t)) \<Longrightarrow> hostQuiet (onNet n f)"
  using quiet_lvErr [of LvNoNetwork, where 'a = 'a] by (auto simp: keeps_def onNet_def split: option.splits)

text \<open>A guest that is changed keeps its name and its UUID.\<close>

lemma setGuest_kept:
  assumes "\<And>g. g_uuid (f g) = g_uuid g" "setGuest n f d = (r, d1)" "hostOK d"
  shows "hostOK d1 \<and> hostDoms d1 = hostDoms d"
proof -
  define upd where "upd gs = map (\<lambda>(k, g). (k, if k = n then f g else g)) gs" for gs
  have m: "map_option g_uuid (map_of (upd gs) n') = map_option g_uuid (map_of gs n')" for gs n'
    unfolding upd_def by (induction gs) (auto simp: assms(1))
  have f: "map fst (upd gs) = map fst gs" "map (\<lambda>g. g_uuid (snd g)) (upd gs) = map (\<lambda>g. g_uuid (snd g)) gs" for gs
    unfolding upd_def by (induction gs) (auto simp: assms(1))
  have "d1 = d\<lparr>h_guests := upd (h_guests d)\<rparr>" using assms(2) by (simp add: setGuest_def upd_def)
  with assms(3) m show ?thesis by (auto simp: hostOK_def hostDoms_def [abs_def] f simp del: set_map)
qed

lemma setGuest_active:
  assumes "setGuest n f d = (r, d1)"
  shows "hostActive d1 k = (case map_of (h_guests d) k of None \<Rightarrow> False | Some g \<Rightarrow> g_running (if k = n then f g else g))"
proof -
  have "map_of (map (\<lambda>(k, g). (k, if k = n then f g else g)) gs) k = map_option (\<lambda>g. if k = n then f g else g) (map_of gs k)" for gs
    by (induction gs) auto
  with assms show ?thesis by (auto simp: setGuest_def hostActive_def split: option.splits)
qed

lemma quiet_setGuest:
  assumes "\<And>g. g_uuid (f g) = g_uuid g" "\<And>g. g_running (f g) \<Longrightarrow> g_running g"
  shows "hostQuiet (setGuest n f)"
proof -
  have "sameRun hostOK hostDoms hostActive d d1" if s: "setGuest n f d = (r, d1)" for d r d1
    using setGuest_kept [OF assms(1) s] setGuest_active [OF s] assms(2)
    by (auto simp: sameRun_def hostActive_def split: option.splits if_splits)
  then show ?thesis unfolding keeps_def by (metis prod.collapse)
qed

lemmas quiet_parts = sr.keeps_intros quiet_lvErr quiet_onGuest quiet_onPool quiet_onNet quiet_setGuest

lemma host_quiet: "callsKeep (sameRun hostOK hostDoms hostActive) hostClient \<and> (\<forall>v. hostQuiet (lv_storageVolDelete hostClient v))"
proof -
  have v: "hostQuiet (hostVolCreate sp t)" "hostQuiet (hostVolLookup sp n)" "hostQuiet (hostVolByPath n)" "hostQuiet (hostVolPath sv)"
    "hostQuiet (hostVolUpload sv bs)" "hostQuiet (hostVolDelete sv)" "hostQuiet (hostListPools b)"
    "hostQuiet (hostLookupByName n)" "hostQuiet (hostLookupByUUID u)" "hostQuiet (hostNetDefine t)" "hostQuiet (hostNetCreate nw)" for sp t n sv bs b u nw
    by (rule quiet_view; auto simp: hostVolCreate_def hostVolLookup_def hostVolByPath_def hostVolPath_def hostVolUpload_def hostVolDelete_def
        hostListPools_def hostLookupByName_def hostLookupByUUID_def hostNetDefine_def hostNetCreate_def onPool_def onNet_def lvErr_def ret_def fail_def Let_def
        split: option.splits list.splits sum.splits if_splits)+
  show ?thesis unfolding callsKeep_def
    by (auto simp: hostClient_def hostAutostart_def hostAddresses_def sr.kept_refl intro!: quiet_parts v)
qed

lemma host_quiet_image: "imageKeeps (sameRun hostOK hostDoms hostActive) hostImage"
  by (auto simp: imageKeeps_def hostImage_def sr.kept_refl intro!: sr.keeps_intros)

lemma host_start: "keeps (sameDoms hostOK hostDoms) (hostStart x)"
proof -
  have "sameDoms hostOK hostDoms d d1" if "hostStart x d = (r, d1)" for d r d1
    using that setGuest_kept [of "\<lambda>g. g\<lparr>g_running := True\<rparr>" "dom_name x" d r d1]
    by (auto simp: hostStart_def onGuest_def lvErr_def fail_def sameDoms_def split: option.splits if_splits)
  then show ?thesis unfolding keeps_def by (metis prod.collapse)
qed

lemma uuidOf_inj:
  assumes "j < 256" "k < 256" "uuidOf j = uuidOf k"
  shows "j = k"
proof -
  have "unat (of_nat j :: byte) = unat (of_nat k :: byte)" using assms(3) by (simp add: uuidOf_def)
  with assms(1,2) show ?thesis by (simp add: unat_of_nat)
qed

lemma hostDoms_ran: "u \<in> ran (hostDoms d) \<Longrightarrow> u \<in> set (map (\<lambda>g. g_uuid (snd g)) (h_guests d))"
  by (force simp: ran_def hostDoms_def dest: map_of_SomeD)

lemma hostDoms_Some: "hostOK d \<Longrightarrow> hostDoms d n = Some u \<longleftrightarrow> (\<exists>g. (n, g) \<in> set (h_guests d) \<and> g_uuid g = u)"
  by (auto simp: hostOK_def hostDoms_def map_of_eq_Some_iff)

lemma host_inj:
  assumes "hostOK d"
  shows "inj_on (hostDoms d) (dom (hostDoms d))"
proof (rule inj_onI)
  fix n n' assume "n \<in> dom (hostDoms d)" "hostDoms d n = hostDoms d n'"
  then obtain u where u: "hostDoms d n = Some u" "hostDoms d n' = Some u" by (auto simp: dom_def)
  then obtain g g' where g: "(n, g) \<in> set (h_guests d)" "(n', g') \<in> set (h_guests d)" "g_uuid g = u" "g_uuid g' = u"
    using hostDoms_Some [OF assms] by auto
  have "inj_on (\<lambda>g. g_uuid (snd g)) (set (h_guests d))" using assms by (simp add: hostOK_def distinct_map)
  from inj_onD [OF this _ g(1,2)] g(3,4) show "n = n'" by simp
qed

lemma host_uuid_ok:
  assumes "hostOK d" "hostLookupByUUID u d = (Inr x, d1)"
  shows "dom_uuid x = u \<and> hostDoms d (dom_name x) = Some u"
proof -
  obtain g gs where f: "filter (\<lambda>g. g_uuid (snd g) = u) (h_guests d) = g # gs" and x: "x = \<lparr>dom_name = fst g, dom_uuid = u\<rparr>"
    using assms(2) by (auto simp: hostLookupByUUID_def lvErr_def fail_def ret_def split: list.splits)
  have "g \<in> set (filter (\<lambda>g. g_uuid (snd g) = u) (h_guests d))" using f by simp
  then have "g \<in> set (h_guests d)" "g_uuid (snd g) = u" by auto
  then show ?thesis using hostDoms_Some [OF assms(1), of "fst g" u] x by (metis Domain.select_convs prod.collapse)
qed

lemma host_define:
  assumes "hostOK d" "unmarshalDomain doc = Inr df" "hostDoms d (dd_name df) = None" "hostDefine doc d = (r, d1)"
  shows "hostOK d1 \<and> (\<forall>n. n \<noteq> dd_name df \<longrightarrow> hostDoms d1 n = hostDoms d n)
    \<and> (\<forall>x. r = Inr x \<longrightarrow> dom_name x = dd_name df \<and> hostDoms d1 (dd_name df) = Some (dom_uuid x))"
proof (cases "h_next d < 256")
  case True
  have n: "map_of (h_guests d) (dd_name df) = None" using assms(3) by (simp add: hostDoms_def)
  then have fresh: "dd_name df \<notin> set (map fst (h_guests d))" by (simp add: map_of_eq_None_iff)
  have "uuidOf (h_next d) \<notin> set (map (\<lambda>g. g_uuid (snd g)) (h_guests d))"
    using assms(1) True uuidOf_inj unfolding hostOK_def by (metis less_irrefl less_trans)
  then have "hostOK (d\<lparr>h_guests := (dd_name df, \<lparr>g_uuid = uuidOf (h_next d), g_doc = doc, g_running = False, g_persistent = True, g_autostart = 0\<rparr>) # h_guests d,
      h_next := h_next d + 1\<rparr>)"
    using assms(1) True fresh unfolding hostOK_def by (auto simp del: set_map intro: less_SucI)
  then show ?thesis using assms(2,4) n True by (auto simp: hostDefine_def ret_def hostDoms_def)
next
  case False
  then show ?thesis using assms by (auto simp: hostDefine_def hostDoms_def lvErr_def fail_def)
qed

lemma dropGuest_gone:
  assumes "hostOK d" "dropGuest n d = (r, d1)"
  shows "hostOK d1 \<and> hostDoms d1 = (hostDoms d)(n := None) \<and> \<not> hostActive d1 n"
proof -
  have "map_of (filter (\<lambda>kg. fst kg \<noteq> k) gs) n = (if n = k then None else map_of gs n)" for gs :: "(string \<times> Guest) list" and k n
    by (induction gs) auto
  moreover have "hostOK (d\<lparr>h_guests := filter P (h_guests d)\<rparr>)" for P
    using assms(1) by (auto simp: hostOK_def distinct_map_filter)
  ultimately show ?thesis using assms(2) by (auto simp: dropGuest_def hostDoms_def hostActive_def fun_eq_iff)
qed

lemma host_undefine:
  assumes "hostOK d" "hostUndefine x d = (r, d1)"
  shows "hostOK d1 \<and> hostDoms d1 \<in> {hostDoms d, (hostDoms d)(dom_name x := None)}
    \<and> (hostActive d (dom_name x) \<longrightarrow> hostDoms d1 = hostDoms d)
    \<and> (\<forall>e. r = Inr () \<and> \<not> hostActive d (dom_name x) \<or> r = Inl e \<and> isNotFound e \<longrightarrow> hostDoms d1 (dom_name x) = None)"
  using assms dropGuest_gone [OF assms(1), of "dom_name x" r d1]
    setGuest_kept [of "\<lambda>g. g\<lparr>g_persistent := False, g_autostart := 0\<rparr>" "dom_name x" d r d1]
    hostDoms_def [of d "dom_name x"]
  by (cases "map_of (h_guests d) (dom_name x)")
    (auto simp: hostUndefine_def onGuest_def lvErr_def fail_def hostActive_def [of d] isNotFound_def
      simp: setGuest_def [of _ _ d] split: if_splits)

lemma host_destroy:
  assumes "hostOK d" "hostDestroy x d = (r, d1)"
  shows "hostOK d1 \<and> hostDoms d1 \<in> {hostDoms d, (hostDoms d)(dom_name x := None)} \<and> \<not> hostActive d1 (dom_name x)"
  using assms dropGuest_gone [OF assms(1), of "dom_name x" r d1]
    setGuest_kept [of "\<lambda>g. g\<lparr>g_running := False\<rparr>" "dom_name x" d r d1] setGuest_active [of "dom_name x" "\<lambda>g. g\<lparr>g_running := False\<rparr>" d r d1 "dom_name x"]
  by (cases "map_of (h_guests d) (dom_name x)")
    (auto simp: hostDestroy_def onGuest_def lvErr_def fail_def hostActive_def split: if_splits)

text \<open>No error of the host is one of the program's own.\<close>

lemma host_errors: "foreignErrors (ret y)" "foreignErrors (lvErr c)" "(\<And>g. foreignErrors (f g)) \<Longrightarrow> foreignErrors (onGuest x f)"
  by (auto simp: foreignErrors_def ret_def lvErr_def fail_def onGuest_def split: option.splits)

interpretation lvh: libvirt_daemon hostProvider hostOK hostDoms hostActive
proof
  show "callsKeep (sameRun hostOK hostDoms hostActive) (pv_client hostProvider)" "imageKeeps (sameRun hostOK hostDoms hostActive) (pv_image hostProvider)"
    "hostQuiet (lv_storageVolDelete (pv_client hostProvider) v)" for v
    by (simp_all add: hostProvider_def host_quiet host_quiet_image)
  show "keeps (sameDoms hostOK hostDoms) (lv_domainCreate (pv_client hostProvider) x)" for x
    by (simp add: hostProvider_def hostClient_def host_start)
next
  fix d n x d1 assume "lv_domainLookupByName (pv_client hostProvider) n d = (Inr x, d1)"
  then show "dom_name x = n \<and> hostDoms d n = Some (dom_uuid x)"
    by (auto simp: hostProvider_def hostClient_def hostLookupByName_def hostDoms_def lvErr_def fail_def ret_def split: option.splits)
next
  fix d n e d1 assume "lv_domainLookupByName (pv_client hostProvider) n d = (Inl e, d1)"
  then show "hostDoms d n = None"
    by (auto simp: hostProvider_def hostClient_def hostLookupByName_def hostDoms_def lvErr_def fail_def ret_def split: option.splits)
next
  fix d u x d1 assume "hostOK d" "lv_domainLookupByUUID (pv_client hostProvider) u d = (Inr x, d1)"
  then show "dom_uuid x = u \<and> hostDoms d (dom_name x) = Some u"
    by (intro host_uuid_ok) (simp_all add: hostProvider_def hostClient_def)
next
  fix d u e d1 assume "lv_domainLookupByUUID (pv_client hostProvider) u d = (Inl e, d1)"
  then show "u \<notin> ran (hostDoms d)" using hostDoms_ran [of u d]
    by (auto simp: hostProvider_def hostClient_def hostLookupByUUID_def ret_def filter_empty_conv split: list.splits)
next
  fix d doc df r d1 assume "hostOK d" "unmarshalDomain doc = Inr df" "hostDoms d (dd_name df) = None"
    "lv_domainDefineXML (pv_client hostProvider) doc d = (r, d1)"
  then show "hostOK d1 \<and> (\<forall>n. n \<noteq> dd_name df \<longrightarrow> hostDoms d1 n = hostDoms d n)
      \<and> (\<forall>x. r = Inr x \<longrightarrow> dom_name x = dd_name df \<and> hostDoms d1 (dd_name df) = Some (dom_uuid x))"
    by (intro host_define) (simp_all add: hostProvider_def hostClient_def)
next
  fix d x r d1 assume "hostOK d" "lv_domainDestroy (pv_client hostProvider) x d = (r, d1)"
  then show "hostOK d1 \<and> hostDoms d1 \<in> {hostDoms d, (hostDoms d)(dom_name x := None)}
      \<and> (\<forall>e. r = Inr () \<or> r = Inl e \<and> (isNotFound e \<or> isInvalidState e) \<longrightarrow> \<not> hostActive d1 (dom_name x))"
    using host_destroy [of d x r d1] by (simp add: hostProvider_def hostClient_def)
next
  fix d x r d1 assume "hostOK d" "lv_domainUndefineFlags (pv_client hostProvider) x d = (r, d1)"
  then show "hostOK d1 \<and> hostDoms d1 \<in> {hostDoms d, (hostDoms d)(dom_name x := None)}
      \<and> (hostActive d (dom_name x) \<longrightarrow> hostDoms d1 = hostDoms d)
      \<and> (\<forall>e. r = Inr () \<and> \<not> hostActive d (dom_name x) \<or> r = Inl e \<and> isNotFound e \<longrightarrow> hostDoms d1 (dom_name x) = None)"
    using host_undefine [of d x r d1] unfolding hostProvider_def hostClient_def by simp
next
  fix d assume d: "hostOK d"
  have "length u = 16" if "u \<in> ran (hostDoms d)" for u
    using hostDoms_ran [OF that] d by (auto simp: hostOK_def uuidOf_def)
  with host_inj [OF d] show "inj_on (hostDoms d) (dom (hostDoms d)) \<and> (\<forall>u\<in>ran (hostDoms d). length u = 16)" by blast
next
  show "foreignErrors (lv_begin (pv_client hostProvider))" "foreignErrors (lv_domainGetState (pv_client hostProvider) x)" for x
    by (simp_all add: hostProvider_def hostClient_def host_errors)
  show "foreignErrors (lv_domainLookupByName (pv_client hostProvider) n)" "foreignErrors (lv_domainLookupByUUID (pv_client hostProvider) u)" for n u
    by (auto simp: hostProvider_def hostClient_def hostLookupByName_def hostLookupByUUID_def foreignErrors_def ret_def lvErr_def fail_def
        split: option.splits list.splits)
next
  fix d c assume "lv_ctxErr (pv_client hostProvider) d = Some c"
  then show "c \<in> {ContextCanceled, ContextDeadlineExceeded}"
    by (simp add: hostProvider_def hostClient_def split: if_splits)
qed

section \<open>Its volumes\<close>

definition hostVols :: "Host \<Rightarrow> StorageVol set" where
  "hostVols d = (\<lambda>kv. hostVolume (fst (fst kv)) (snd (fst kv))) ` set (h_vols d)"

abbreviation "hostAdds m \<equiv> keeps (keepsVolumes hostVols {}) m"

interpretation hv: kept "keepsVolumes hostVols {}"
  by unfold_locales (auto simp: keepsVolumes_def)

lemma adds_view: "(\<And>d. set (h_vols d) \<subseteq> set (h_vols (snd (m d)))) \<Longrightarrow> hostAdds m"
  by (fastforce simp: keeps_def keepsVolumes_def hostVols_def)

lemma adds_upload: "hostAdds (hostVolUpload v bs)"
proof -
  have "hostVols (snd (hostVolUpload v bs d)) = hostVols d" for d
    by (force simp: hostVols_def hostVolUpload_def ret_def image_image split: prod.splits)
  then show ?thesis by (simp add: keeps_def keepsVolumes_def)
qed

lemma host_adds: "addingCalls hostVols hostClient"
proof -
  have v: "hostAdds (hostVolCreate sp t)" "hostAdds (hostVolLookup sp n)" "hostAdds (hostVolByPath n)" "hostAdds (hostVolPath sv)"
    "hostAdds (hostListPools b)" "hostAdds (hostLookupByName n)" "hostAdds (hostLookupByUUID u)" "hostAdds (hostNetDefine t)"
    "hostAdds (hostNetCreate nw)" "hostAdds (setGuest n f)" "hostAdds (dropGuest n)" "hostAdds (lvErr c)" "hostAdds (hostDefine t)" for sp t n sv b u nw f c
    by (rule adds_view; auto simp: hostVolCreate_def hostVolLookup_def hostVolByPath_def hostVolPath_def hostListPools_def hostLookupByName_def
        hostLookupByUUID_def hostNetDefine_def hostNetCreate_def onPool_def onNet_def setGuest_def dropGuest_def hostDefine_def onGuest_def
        lvErr_def ret_def fail_def andThen_def Let_def split: option.splits list.splits sum.splits if_splits)+
  have g: "hostAdds (onGuest x f)" if "\<And>g. hostAdds (f g)" for x f
    using that v(12) [of LvNoDomain] by (auto simp: keeps_def onGuest_def split: option.splits)
  have pn: "hostAdds (onPool n f)" "hostAdds (onNet n h)" if "\<And>a t. hostAdds (f a t)" "\<And>a t. hostAdds (h a t)" for n f h
    using that v(12) [of LvNoStoragePool] v(12) [of LvNoNetwork] by (auto simp: keeps_def onPool_def onNet_def split: option.splits)
  show ?thesis unfolding addingCalls_def callsKeep_def
    by (auto simp: hostClient_def hostStart_def hostDestroy_def hostUndefine_def hostAutostart_def hostAddresses_def hv.kept_refl
        intro!: v g pn adds_upload hv.keeps_intros)
qed

interpretation hvs: volume_store hostProvider hostVols
proof
  show "addingCalls hostVols (pv_client hostProvider)" by (simp add: hostProvider_def host_adds)
  show "imageKeeps (keepsVolumes hostVols {}) (pv_image hostProvider)"
    by (auto simp: imageKeeps_def hostProvider_def hostImage_def hv.kept_refl intro!: hv.keeps_intros)
next
  fix pool n d v d1 assume "lv_storageVolLookupByName (pv_client hostProvider) pool n d = (Inr v, d1)"
  then show "sv_name v = n"
    by (auto simp: hostProvider_def hostClient_def hostVolLookup_def onPool_def lvErr_def fail_def ret_def hostVolume_def split: option.splits if_splits)
next
  fix path d v d1 assume "lv_storageVolLookupByPath (pv_client hostProvider) path d = (Inr v, d1)"
  then obtain kv kvs P where "filter (\<lambda>kv. basePath path = snd (fst kv) \<and> P kv) (h_vols d) = kv # kvs" "sv_name v = snd (fst kv)"
    by (auto simp: hostProvider_def hostClient_def hostVolByPath_def lvErr_def fail_def ret_def hostVolume_def split: list.splits)
  then show "sv_name v = basePath path" by (auto dest!: filter_eq_ConsD)
next
  fix n d x d1 assume "lv_domainLookupByName (pv_client hostProvider) n d = (Inr x, d1)"
  then show "dom_name x = n"
    by (auto simp: hostProvider_def hostClient_def hostLookupByName_def lvErr_def fail_def ret_def split: option.splits)
next
  fix v
  have "keepsVolumes hostVols {sv_name v} d (snd (hostVolDelete v d))" for d
    by (fastforce simp: keepsVolumes_def hostVols_def hostVolDelete_def lvErr_def fail_def ret_def hostVolume_def)
  then show "keeps (keepsVolumes hostVols {sv_name v}) (lv_storageVolDelete (pv_client hostProvider) v)"
    by (simp add: keeps_def hostProvider_def hostClient_def)
qed

end
