(* ===== verification/Libvirt_Props.thy ===== *)
theory Libvirt_Props
  imports Libvirt_Host Ref_World
begin

text \<open>
  What the libvirt backend does, as claims, each with a run or a state of \<open>Libvirt_Host\<close> as witness:
  it implements the contract of the backends, a reconcile over hosts that run libvirt leaves no
  machine untied, the volumes of others survive, a domain the guest could lose devices from is never
  started, and the documents it writes are the ones it accepts.
\<close>

section \<open>The contract\<close>

text \<open>
  C2: given what libvirt documents of its calls, whichever of them fail and whenever a context ends,
  the libvirt backend keeps the contract of the backends, with the domains of the host as its
  machines: a create makes one domain or answers with the one there, a lookup says a machine is gone
  only when it is, and a delete removes that domain alone, and has removed it when it succeeds, a
  running one too, which undefining alone would leave behind as a transient domain.
\<close>

theorem libvirt_implements_contract:
  assumes "libvirt_daemon p ok doms active"
  shows "machine_provider (libvirtProvider p) ok (\<lambda>d n. map_option formatUUID (doms d n)) (\<lambda>_. ())"
  by (rule libvirt_daemon.provider [OF assms])

theorem libvirt_implements_contract_witness:
  "machine_provider (libvirtProvider hostProvider) hostOK (\<lambda>d n. map_option formatUUID (hostDoms d n)) (\<lambda>_. ())"
  by (rule libvirt_implements_contract [OF lvh.libvirt_daemon_axioms])

section \<open>A fleet of libvirt hosts\<close>

text \<open>
  Connecting, the pool and the credentials behind it, is the step \<open>conn\<close>: it may fail, and it changes no
  domain of any host. A connection acts on the host its address reaches, with the pool and the image of
  its own configuration.
\<close>

definition libvirtFleet ::
  "(Owner \<Rightarrow> Hypervisor option \<Rightarrow> (string \<Rightarrow> 'd, unit) act) \<Rightarrow> (Hypervisor option \<Rightarrow> 'd Provider) \<Rightarrow> (string \<Rightarrow> string)
    \<Rightarrow> Owner \<Rightarrow> Hypervisor option \<Rightarrow> (string \<Rightarrow> 'd, (string \<Rightarrow> 'd) MachineProvider) act" where
  "libvirtFleet conn pv site owner hv =
     andThen (conn owner hv) (\<lambda>_. ret (onHost (site (hostOf hv)) (libvirtProvider (pv hv))))"

definition sameFleet :: "('d \<Rightarrow> bool) \<Rightarrow> ('d \<Rightarrow> string \<rightharpoonup> UUID) \<Rightarrow> (string \<Rightarrow> 'd) \<Rightarrow> (string \<Rightarrow> 'd) \<Rightarrow> bool" where
  "sameFleet ok doms b b' \<longleftrightarrow> (\<forall>h. sameDoms ok doms (b h) (b' h))"

lemma libvirt_needsPool:
  assumes "libvirt_daemon p ok doms active"
  shows "needsPool (onHost h (libvirtProvider p)) (\<lambda>b. \<forall>h. ok (b h)) (\<lambda>b n. map_option formatUUID (doms (b h) n))"
  unfolding needsPool_def
proof (intro allI impI)
  fix spec b res b' assume b: "\<forall>h. ok (b h)"
    and e: "prov_storagePoolFor (onHost h (libvirtProvider p)) (ms_storagePool spec) = []"
    and c: "prov_create (onHost h (libvirtProvider p)) spec b = (res, b')"
  have "StoragePoolFor p (ms_storagePool spec) = []" using e by (simp add: onHost_def libvirtProvider_def)
  moreover obtain d1 where "lvCreate p spec (b h) = (res, d1)" "b' = b(h := d1)"
    using c by (auto simp: onHost_def libvirtProvider_def split: prod.splits)
  ultimately have "doms (b' h) = doms (b h)" using libvirt_daemon.create_poolless [OF assms, of "b h" spec res d1] b by simp
  then show "(\<lambda>n. map_option formatUUID (doms (b' h) n)) = (\<lambda>n. map_option formatUUID (doms (b h) n))" by simp
qed

lemma libvirt_fleet:
  assumes d: "\<And>hv. libvirt_daemon (pv hv) ok doms active"
    and c: "\<And>owner hv. keeps (sameFleet ok doms) (conn owner hv)" and r: "\<And>owner b. sameFleet ok doms b (rel owner b)"
  shows "fleet (libvirtFleet conn pv site) rel (\<lambda>b. \<forall>h. ok (b h)) (\<lambda>b h n. map_option formatUUID (doms (b h) n)) site"
proof
  fix b owner hv res b' assume b: "\<forall>h. ok (b h)" and l: "libvirtFleet conn pv site owner hv b = (res, b')"
  have "sameFleet ok doms b b'"
    using c [of owner hv] l by (auto simp: keeps_def libvirtFleet_def andThen_def ret_def split: prod.splits sum.splits) (metis snd_conv)+
  with b show "(\<forall>h. ok (b' h)) \<and> (\<lambda>h n. map_option formatUUID (doms (b' h) n)) = (\<lambda>h n. map_option formatUUID (doms (b h) n))"
    by (auto simp: sameFleet_def sameDoms_def)
next
  fix b :: "string \<Rightarrow> 'a" and owner assume "\<forall>h. ok (b h)"
  with r [of b owner] show "(\<forall>h. ok (rel owner b h)) \<and> (\<lambda>h n. map_option formatUUID (doms (rel owner b h) n)) = (\<lambda>h n. map_option formatUUID (doms (b h) n))"
    by (auto simp: sameFleet_def sameDoms_def)
next
  fix b owner hv q b' assume "libvirtFleet conn pv site owner hv b = (Inr q, b')"
  then have q: "q = onHost (site (hostOf hv)) (libvirtProvider (pv hv))" by (auto simp: libvirtFleet_def andThen_Inr ret_def)
  show "machine_provider q (\<lambda>b. \<forall>h. ok (b h)) (\<lambda>b n. map_option formatUUID (doms (b (site (hostOf hv))) n))
      (elsewhere (\<lambda>b h n. map_option formatUUID (doms (b h) n)) (site (hostOf hv)))
      \<and> needsPool q (\<lambda>b. \<forall>h. ok (b h)) (\<lambda>b n. map_option formatUUID (doms (b (site (hostOf hv))) n))"
    using onHost_provider [OF libvirt_daemon.provider [OF d]] libvirt_needsPool [OF d] unfolding q by blast
qed

text \<open>
  C3: when every hypervisor runs libvirt as it is documented, a reconcile of a HydraMachine whose machine
  is tethered to it, failing to connect or at any call of any daemon, keeps the domain it made tied to the
  object: the object is there, holds the finalizer and sends every later operation to an address of the
  host the domain is on. Addresses may be aliases of one host, and no storage pool need be configured.
\<close>

theorem libvirt_domain_stays_tied:
  assumes "\<And>hv. libvirt_daemon (pv hv) ok doms active"
    and "\<And>owner hv. keeps (sameFleet ok doms) (conn owner hv)" "\<And>owner b. sameFleet ok doms b (rel owner b)"
    and "api_server (mr_client r) stored" "apimachinery (mr_lib r)"
    and "mr_provider r = None" "mr_providerFor r = Some (libvirtFleet conn pv site)" "mr_releaseProvider r = Some rel"
    and "\<forall>h. ok (env_backend s h)" "stored (env_kube s) req = Some m"
    and "tethered (mr_lib r) site stored (\<lambda>b h n. map_option formatUUID (doms (b h) n)) req (backendName m) s"
    and "Reconcile r req s = (res, s')"
    and "doms (env_backend s' h) (backendName m) = Some u"
  shows "\<exists>m'. stored (env_kube s') req = Some m' \<and> backendName m' = backendName m
     \<and> containsFinalizer (mr_lib r) (om_finalizers (hm_meta m')) MachineFinalizer
     \<and> (\<exists>a. site a = h \<and> (\<forall>link. placementFor m' link = Inr a))"
proof -
  have "machine_world r stored (libvirtFleet conn pv site) rel (\<lambda>b. \<forall>h. ok (b h)) (\<lambda>b h n. map_option formatUUID (doms (b h) n)) site"
    by (intro machine_world.intro machine_world_axioms.intro libvirt_fleet [OF assms(1-3)] assms(4-8))
  from machine_world.Reconcile_safe [OF this assms(12) _ assms(9,11)] assms(10)
  have "tethered (mr_lib r) site stored (\<lambda>b h n. map_option formatUUID (doms (b h) n)) req (backendName m) s'" by simp
  with assms(13) obtain m' where "stored (env_kube s') req = Some m'" "backendName m' = backendName m" "anchored (mr_lib r) site m' h"
    by (fastforce simp: tethered_def)
  then show ?thesis using recordsHost_placement unfolding anchored_def by blast
qed

text \<open>A running domain on the host of the flags, and the object that records it.\<close>

definition exampleRecorded :: HydraMachine where
  "exampleRecorded = examplePlaced\<lparr>hm_providerID := Some (ProviderID ''libvirt'' (formatUUID (uuidOf 0)))\<rparr>"

definition emptyHost :: Host where
  "emptyHost = \<lparr>h_guests = [], h_next = 0, h_pools = [(''default'', (True, ''/pool''))], h_vols = [], h_nets = [], h_cancelled = False\<rparr>"

definition exampleHost :: Host where
  "exampleHost = emptyHost\<lparr>h_guests := [(backendName exampleRecorded,
     \<lparr>g_uuid = uuidOf 0, g_doc = None, g_running = True, g_persistent = True, g_autostart = 1\<rparr>)], h_next := 1,
     h_vols := [((''default'', rootVolumeName (backendName exampleRecorded)), []), ((''default'', ''shared.iso''), [])]\<rparr>"

text \<open>A host that is shutting down takes no connection.\<close>

definition hostConn :: "Owner \<Rightarrow> Hypervisor option \<Rightarrow> (string \<Rightarrow> Host, unit) act" where
  "hostConn owner hv b = (if h_cancelled (b (fakeSite (hostOf hv))) then (Inl (Sentinel ContextCanceled), b) else (Inr (), b))"

definition lvReconciler :: "(refApi, string \<Rightarrow> Host) HydraMachineReconciler" where
  "lvReconciler = \<lparr>mr_lib = refLib, mr_client = refKube, mr_apiReader = Some refKube, mr_provider = None,
     mr_providerFor = Some (libvirtFleet hostConn (\<lambda>_. hostProvider) fakeSite), mr_releaseProvider = Some (\<lambda>_ b. b)\<rparr>"

definition lvWorld :: "(refApi, string \<Rightarrow> Host) env" where
  "lvWorld = \<lparr>env_kube = [(''ns'', ''w1'') \<mapsto> exampleRecorded], env_backend = (\<lambda>_. emptyHost)([] := exampleHost), env_metrics = []\<rparr>"

lemma exampleHost_ok: "hostOK exampleHost" "hostOK emptyHost"
  by (simp_all add: hostOK_def exampleHost_def emptyHost_def)

lemma lvWorld_doms: "hostDoms (env_backend lvWorld h) n = (if h = [] \<and> n = backendName exampleRecorded then Some (uuidOf 0) else None)"
  by (simp add: lvWorld_def hostDoms_def exampleHost_def emptyHost_def)

lemma recorded_simps [simp]:
  "objectKey (hm_meta exampleRecorded) = (''ns'', ''w1'')" "providerIDOf exampleRecorded = ProviderID ''libvirt'' (formatUUID (uuidOf 0))"
  by (simp_all add: exampleRecorded_def providerIDOf_def)

lemma lv_start: "Reconcile lvReconciler (''ns'', ''w1'') lvWorld =
    reconcileReady lvReconciler (onHost [] (libvirtProvider hostProvider)) exampleRecorded exampleLink [] lvWorld"
proof -
  have pid: "ProviderID ''libvirt'' i \<noteq> []" for i by (simp add: ProviderID_def)
  have ann: "StoragePoolAnnotation \<noteq> PausedAnnotation" "PausedAnnotation \<noteq> StoragePoolAnnotation"
    "StoragePoolAnnotation \<noteq> HypervisorAnnotation" "HypervisorAnnotation \<noteq> StoragePoolAnnotation"
    by (simp_all add: StoragePoolAnnotation_def HypervisorAnnotation_def PausedAnnotation_def)
  show ?thesis
    by (simp add: lvReconciler_def refKube_def refLib_def lvWorld_def Reconcile_def resolveLinkage_def ownerMachineRef_def
      withClusterByLabelForDeletion_def pausedReason_def setPaused_def setPausedCondition_def
      reconcileActive_def placementFor_def mayBeMadeOnFlags_def providerIDOf_def lookupStr_def provider_def pid ann
      hypervisorFor_def release_def libvirtFleet_def andThen_def ret_def hostConn_def exampleHost_def emptyHost_def hostOf_def objectKey_def exampleRecorded_def examplePlaced_def exampleFinal_def exampleMachine_def
      hasStandaloneAnnotation_def PausedCondition_def emptyLinkage_def Let_def reconcileNormal_def)
qed

lemma reconcileReady_backend:
  "env_backend (snd (reconcileReady r prov m link pl s)) = env_backend (snd (snd (ensureMachine r prov m link pl s)))"
  by (auto simp: reconcileReady_def failWith_def waitWith_def recordError_def recordWaiting_def patchStatus_def Let_def
      split: prod.splits sum.splits option.splits dest!: updateStatus_backend)

lemma observe_doms:
  assumes "hostOK (b [])"
  shows "hostDoms (snd (observeMachine (onHost [] (libvirtProvider hostProvider)) m b) []) = hostDoms (b [])"
proof -
  have g: "hostDoms (b1 []) = hostDoms (b [])" if "prov_get (onHost [] (libvirtProvider hostProvider)) i b = (r, b1)" for i r b1
    using that lvh.quietlyD [OF lvh.quiet_lvGet assms]
    by (cases "lvGet hostProvider i (b [])") (auto simp: onHost_def libvirtProvider_def)
  then show ?thesis unfolding observeMachine_def by (auto split: sum.splits prod.splits option.splits)
qed

theorem libvirt_domain_stays_tied_witness:
  "\<exists>m'. env_kube (snd (Reconcile lvReconciler (''ns'', ''w1'') lvWorld)) (''ns'', ''w1'') = Some m' \<and> backendName m' = backendName exampleRecorded
     \<and> containsFinalizer (mr_lib lvReconciler) (om_finalizers (hm_meta m')) MachineFinalizer \<and> (\<exists>a. fakeSite a = [] \<and> (\<forall>link. placementFor m' link = Inr a))"
proof -
  let ?run = "Reconcile lvReconciler (''ns'', ''w1'') lvWorld"
  have pid: "ProviderID ''libvirt'' i \<noteq> []" for i by (simp add: ProviderID_def)
  have "env_backend (snd ?run) = snd (observeMachine (onHost [] (libvirtProvider hostProvider)) exampleRecorded (env_backend lvWorld))"
    unfolding lv_start reconcileReady_backend by (simp add: ensureMachine_def pid split: prod.splits)
  moreover have "hostOK (env_backend lvWorld [])" by (simp add: lvWorld_def exampleHost_ok)
  ultimately have "hostDoms (env_backend (snd ?run) []) = hostDoms (env_backend lvWorld [])" by (simp add: observe_doms)
  then have d: "hostDoms (env_backend (snd ?run) []) (backendName exampleRecorded) = Some (uuidOf 0)" by (simp add: lvWorld_doms)
  have a: "anchored refLib fakeSite exampleRecorded []"
    by (auto intro!: exI [of _ "[]"] simp: anchored_def recordsHost_def mayBeMadeOnFlags_def pid lookupStr_def refLib_def exampleRecorded_def examplePlaced_def exampleFinal_def providerIDOf_def)
  have t: "tethered (mr_lib lvReconciler) fakeSite (\<lambda>k. k) (\<lambda>b h n. map_option formatUUID (hostDoms (b h) n)) (''ns'', ''w1'') (backendName exampleRecorded) lvWorld"
    using a by (auto simp: tethered_def lvWorld_doms lvReconciler_def) (simp add: lvWorld_def)
  have c: "keeps (sameFleet hostOK hostDoms) (hostConn owner hv)" for owner hv
    by (simp add: keeps_def hostConn_def sameFleet_def sameDoms_def)
  have rl: "sameFleet hostOK hostDoms b b" for b by (simp add: sameFleet_def sameDoms_def)
  show ?thesis
    by (rule libvirt_domain_stays_tied [where r = lvReconciler and s = lvWorld and res = "fst ?run" and site = fakeSite
          and stored = "\<lambda>k. k" and u = "uuidOf 0" and rel = "\<lambda>_ b. b" and pv = "\<lambda>_. hostProvider" and conn = hostConn,
          OF lvh.libvirt_daemon_axioms c rl])
      (use d t ra.api_server_axioms refl.apimachinery_axioms exampleHost_ok in \<open>simp_all add: lvReconciler_def lvWorld_def\<close>)
qed

section \<open>Volumes of others\<close>

text \<open>
  C14: whatever the backend does for a machine, creating it, rolling a failed create back, deleting it
  by name or by id, it removes no volume but the two named after the machine: a disk attached by hand,
  an image, another machine's root volume are there afterwards, whatever failed.
\<close>

theorem other_volumes_survive:
  assumes "volume_store p vols" "v \<in> vols d" "sv_name v \<notin> {rootVolumeName n, cidataVolumeName n}"
  shows "(\<forall>spec. ms_name spec = n \<longrightarrow> v \<in> vols (snd (lvCreate p spec d)))
    \<and> (\<forall>pool. v \<in> vols (snd (lvDeleteByName p n pool d)))
    \<and> (\<forall>i. (\<forall>x d1 d2. lookupByUUID p i d1 = (Inr x, d2) \<longrightarrow> dom_name x = n) \<longrightarrow> v \<in> vols (snd (lvDelete p i d)))
    \<and> (\<forall>ispec. v \<in> vols (snd (lvEnsureInfrastructure p ispec d)))"
proof -
  note vs = assms(1)
  note there = volume_store.vs_there [OF vs _ assms(2,3)]
  have "v \<in> vols (snd (lvCreate p spec d))" if "ms_name spec = n" for spec
    by (rule there) (use volume_store.vs_create [OF vs, of spec] that in simp)
  moreover have "v \<in> vols (snd (lvDelete p i d))" if "\<forall>x d1 d2. lookupByUUID p i d1 = (Inr x, d2) \<longrightarrow> dom_name x = n" for i
    by (rule there, rule volume_store.vs_delete [OF vs]) (use that in blast)
  ultimately show ?thesis
    using there [OF volume_store.vs_deleteByName [OF vs]] there [OF volume_store.vs_ensureInfrastructure [OF vs]] by blast
qed

text \<open>The host's own image survives the deletion of the example machine.\<close>

theorem other_volumes_survive_witness:
  "hostVolume ''default'' ''shared.iso'' \<in> hostVols (snd (lvDeleteByName hostProvider (backendName exampleRecorded) [] exampleHost))
   \<and> hostVolume ''default'' ''shared.iso'' \<in> hostVols (snd (lvEnsureInfrastructure hostProvider
       \<lparr>is_storagePool = [], is_image = emptyImage, is_managedNetwork = None\<rparr> exampleHost))"
proof -
  have v: "hostVolume ''default'' ''shared.iso'' \<in> hostVols exampleHost"
    by (simp add: hostVols_def exampleHost_def)
  have len: "length (backendName m) \<ge> 21" for m by (simp add: backendName_def identityDigest_def Let_def)
  have "length ''shared.iso'' < length (rootVolumeName (backendName exampleRecorded))"
    "length ''shared.iso'' < length (cidataVolumeName (backendName exampleRecorded))"
    using len [of exampleRecorded] by (simp_all add: rootVolumeName_def cidataVolumeName_def)
  then have "''shared.iso'' \<noteq> rootVolumeName (backendName exampleRecorded)" "''shared.iso'' \<noteq> cidataVolumeName (backendName exampleRecorded)"
    by (metis less_irrefl)+
  then have "sv_name (hostVolume ''default'' ''shared.iso'') \<notin> {rootVolumeName (backendName exampleRecorded), cidataVolumeName (backendName exampleRecorded)}"
    by (simp add: hostVolume_def)
  then show ?thesis using other_volumes_survive [OF hvs.volume_store_axioms v] by blast
qed

section \<open>Starting\<close>

text \<open>The backend with another action in the place of a call: what depends on it is where the call is made.\<close>

definition withStart :: "'d Provider \<Rightarrow> (Domain \<Rightarrow> ('d, unit) act) \<Rightarrow> 'd Provider" where
  "withStart p c = p\<lparr>pv_client := (pv_client p)\<lparr>lv_domainCreate := c\<rparr>\<rparr>"

definition withUndefine :: "'d Provider \<Rightarrow> (Domain \<Rightarrow> ('d, unit) act) \<Rightarrow> 'd Provider" where
  "withUndefine p c = p\<lparr>pv_client := (pv_client p)\<lparr>lv_domainUndefineFlags := c\<rparr>\<rparr>"

lemma with_call [simp]: "call (withStart p c) m = call p m" "call (withUndefine p c) m = call p m"
proof -
  have "lv_ctxErr (pv_client (withStart p c)) = lv_ctxErr (pv_client p)" "lv_answered (pv_client (withStart p c)) = lv_answered (pv_client p)"
    "lv_recycle (pv_client (withStart p c)) = lv_recycle (pv_client p)"
    "lv_ctxErr (pv_client (withUndefine p c)) = lv_ctxErr (pv_client p)" "lv_answered (pv_client (withUndefine p c)) = lv_answered (pv_client p)"
    "lv_recycle (pv_client (withUndefine p c)) = lv_recycle (pv_client p)"
    by (simp_all add: withStart_def withUndefine_def)
  note sel = this
  show "call (withStart p c) m = call p m" "call (withUndefine p c) m = call p m"
    unfolding call_def [abs_def] sel by (rule refl)+
qed

lemma andThen_differs: "andThen m f d \<noteq> andThen m f' d \<Longrightarrow> \<exists>x d1. m d = (Inr x, d1) \<and> f x d1 \<noteq> f' x d1"
  by (auto simp: andThen_def split: prod.splits sum.splits)

text \<open>
  C16: a domain is started only after its document was read back just before and leaves no PCIe root
  port with hotplug on: whatever the start would do, it makes no difference unless that reading was
  clean. A document with such a port is a terminal failure, in the state the reading left.
\<close>

theorem started_only_verified:
  "(startVerified (withStart p c) x d \<noteq> startVerified p x d \<longrightarrow>
      (\<exists>a d1 doc d2. call p (lv_domainIsActive (pv_client p) x) d = (Inr a, d1) \<and> a \<noteq> 1
         \<and> call p (lv_domainGetXMLDesc (pv_client p) x True) d1 = (Inr doc, d2) \<and> hotplugRootPorts doc = Inr []))
   \<and> (\<forall>a d1 doc d2 bad. call p (lv_domainIsActive (pv_client p) x) d = (Inr a, d1) \<and> a \<noteq> 1
         \<and> call p (lv_domainGetXMLDesc (pv_client p) x True) d1 = (Inr doc, d2) \<and> hotplugRootPorts doc = Inr bad \<and> bad \<noteq> [] \<longrightarrow>
      (\<exists>e. startVerified p x d = (Inl e, d2) \<and> errorsIs e ErrTerminal))"
proof (intro conjI impI)
  assume "startVerified (withStart p c) x d \<noteq> startVerified p x d"
  then show "\<exists>a d1 doc d2. call p (lv_domainIsActive (pv_client p) x) d = (Inr a, d1) \<and> a \<noteq> 1
      \<and> call p (lv_domainGetXMLDesc (pv_client p) x True) d1 = (Inr doc, d2) \<and> hotplugRootPorts doc = Inr []"
    unfolding startVerified_def with_call
    by (auto simp: withStart_def wrapping_Inr lift_def dest!: andThen_differs split: if_splits)
next
  show "\<forall>a d1 doc d2 bad. call p (lv_domainIsActive (pv_client p) x) d = (Inr a, d1) \<and> a \<noteq> 1
      \<and> call p (lv_domainGetXMLDesc (pv_client p) x True) d1 = (Inr doc, d2) \<and> hotplugRootPorts doc = Inr bad \<and> bad \<noteq> [] \<longrightarrow>
      (\<exists>e. startVerified p x d = (Inl e, d2) \<and> errorsIs e ErrTerminal)"
    by (auto simp: startVerified_def andThen_def wrapping_def onError_def lift_def fail_def)
qed

text \<open>A stopped domain on a host, with a root port that names no hotplug setting.\<close>

definition unsafeHost :: Host where
  "unsafeHost = emptyHost\<lparr>h_guests := [(''a'', \<lparr>g_uuid = uuidOf 0, g_doc = Some (elem ''domain'' [] [elem ''devices'' []
     [elem ''controller'' [(''type'', ''pci''), (''index'', ''1''), (''model'', ''pcie-root-port'')] []]]),
     g_running = False, g_persistent = True, g_autostart = 0\<rparr>)], h_next := 1\<rparr>"

theorem started_only_verified_witness:
  "\<exists>e. startVerified hostProvider \<lparr>dom_name = ''a'', dom_uuid = uuidOf 0\<rparr> unsafeHost = (Inl e, unsafeHost) \<and> errorsIs e ErrTerminal"
proof -
  let ?x = "\<lparr>dom_name = ''a'', dom_uuid = uuidOf 0\<rparr>" and ?doc = "g_doc (snd (hd (h_guests unsafeHost)))"
  have a: "call hostProvider (lv_domainIsActive (pv_client hostProvider) ?x) unsafeHost = (Inr 0, unsafeHost)"
    "call hostProvider (lv_domainGetXMLDesc (pv_client hostProvider) ?x True) unsafeHost = (Inr ?doc, unsafeHost)"
    by (simp_all add: call_def hostProvider_def hostClient_def onGuest_def ret_def unsafeHost_def emptyHost_def)
  have "hotplugRootPorts ?doc = Inr [''1'']"
    by (simp add: unsafeHost_def hotplugRootPorts_def named_elem controllerInto_def zeroController_def attrOr_def withinPtr_def
        pciControllerType_def pcieRootPortModel_def)
  then show ?thesis using started_only_verified [of hostProvider _ ?x unsafeHost] a by force
qed

section \<open>Deleting\<close>

text \<open>
  What it takes for a disk to be reclaimed, as a run from one state to another: its volume was looked
  up and removed, or was gone when it was to be removed; or libvirt did not know it, every stopped pool
  was then read and none holds its directory, and libvirt still did not know it, or it was removed then.
\<close>

definition settled :: "(goerr \<Rightarrow> bool) \<Rightarrow> goerr + unit \<Rightarrow> bool" where
  "settled P r \<longleftrightarrow> (case r of Inr _ \<Rightarrow> True | Inl e \<Rightarrow> P e)"

definition volumeRemoved :: "'d Provider \<Rightarrow> string \<Rightarrow> 'd \<Rightarrow> 'd \<Rightarrow> bool" where
  "volumeRemoved p path d d' \<longleftrightarrow> (\<exists>v d1 r. call p (lv_storageVolLookupByPath (pv_client p) path) d = (Inr v, d1)
     \<and> call p (lv_storageVolDelete (pv_client p) v) d1 = (r, d') \<and> settled isNotFound r)"

definition volumeUnknown :: "'d Provider \<Rightarrow> string \<Rightarrow> 'd \<Rightarrow> 'd \<Rightarrow> bool" where
  "volumeUnknown p path d d' \<longleftrightarrow> (\<exists>e. call p (lv_storageVolLookupByPath (pv_client p) path) d = (Inl e, d') \<and> isNotFound e)"

definition reclaimed :: "'d Provider \<Rightarrow> string \<Rightarrow> 'd \<Rightarrow> 'd \<Rightarrow> bool" where
  "reclaimed p path d d' \<longleftrightarrow> volumeRemoved p path d d'
   \<or> (\<exists>d1 stopped d2. volumeUnknown p path d d1 \<and> stoppedPools p d1 = (Inr stopped, d2)
        \<and> (\<forall>sp\<in>set stopped. cleanPath (snd sp) \<noteq> dirPath path)
        \<and> (volumeUnknown p path d2 d' \<or> volumeRemoved p path d2 d'))"

fun reclaims :: "'d Provider \<Rightarrow> string list \<Rightarrow> 'd \<Rightarrow> 'd \<Rightarrow> bool" where
  "reclaims p [] d d' = (d' = d)"
| "reclaims p (path # paths) d d' = (\<exists>d1. reclaimed p path d d1 \<and> reclaims p paths d1 d')"

lemma tolerating_ok: "tolerating P t as m d = (Inr u, d') \<longleftrightarrow> (\<exists>r. m d = (r, d') \<and> settled P r)"
  by (cases "m d"; cases "fst (m d)") (auto simp: tolerating_def onError_def ret_def fail_def settled_def)

lemma confirmReclaimed_ok:
  assumes "confirmReclaimed p path d = (Inr u, d')"
  shows "\<exists>stopped. stoppedPools p d = (Inr stopped, d') \<and> (\<forall>sp\<in>set stopped. cleanPath (snd sp) \<noteq> dirPath path)"
proof -
  obtain stopped d1 where st: "stoppedPools p d = (Inr stopped, d1)"
    and c: "(case filter (\<lambda>sp. cleanPath (snd sp) = dirPath path) stopped of [] \<Rightarrow> ret ()
      | sp # _ \<Rightarrow> fail (NewErr ''libvirt: storage pool is not running; keeping the domain until it is'' [fst sp, path])) d1 = (Inr u, d')"
    using assms unfolding confirmReclaimed_def andThen_Inr wrapping_Inr by blast
  then show ?thesis
    by (cases "filter (\<lambda>sp. cleanPath (snd sp) = dirPath path) stopped") (auto simp: ret_def fail_def filter_empty_conv)
qed

lemma deleteVolumeByPath_ok:
  assumes "deleteVolumeByPath p path d = (Inr u, d')"
  shows "reclaimed p path d d'"
proof (cases "call p (lv_storageVolLookupByPath (pv_client p) path) d")
  case (Pair r d1)
  show ?thesis
  proof (cases r)
    case (Inr v)
    then show ?thesis using assms Pair by (auto simp: deleteVolumeByPath_def Let_def tolerating_ok reclaimed_def volumeRemoved_def)
  next
    case (Inl e)
    then obtain d2 where nf: "isNotFound e" and c: "confirmReclaimed p path d1 = (Inr (), d2)"
      and l: "(case call p (lv_storageVolLookupByPath (pv_client p) path) d2 of
         (Inr vol, d3) \<Rightarrow> tolerating isNotFound ''libvirt: deleting volume'' [path] (call p (lv_storageVolDelete (pv_client p) vol)) d3
       | (Inl e2, d3) \<Rightarrow> if isNotFound e2 then ret () d3 else fail (WrapErr ''libvirt: looking up volume again'' [path] e2) d3) = (Inr u, d')"
      using assms Pair by (auto simp: deleteVolumeByPath_def Let_def andThen_Inr fail_def split: if_splits)
    have "volumeUnknown p path d2 d' \<or> volumeRemoved p path d2 d'"
      using l by (auto simp: volumeUnknown_def volumeRemoved_def tolerating_ok ret_def fail_def split: prod.splits sum.splits if_splits)
    moreover have "volumeUnknown p path d d1" using Pair Inl nf by (simp add: volumeUnknown_def)
    ultimately show ?thesis using confirmReclaimed_ok [OF c] unfolding reclaimed_def by blast
  qed
qed

lemma eachOf_reclaims: "eachOf (deleteVolumeByPath p) paths d = (Inr u, d') \<Longrightarrow> reclaims p paths d d'"
proof (induction paths arbitrary: d)
  case (Cons path paths)
  then obtain v d1 where "deleteVolumeByPath p path d = (Inr v, d1)" "eachOf (deleteVolumeByPath p) paths d1 = (Inr u, d')"
    by (auto simp: andThen_Inr)
  then show ?case using Cons.IH deleteVolumeByPath_ok by (metis reclaims.simps(2))
qed (simp add: ret_def)

lemma withUndefine_calls [simp]:
  "lv_domainGetXMLDesc (pv_client (withUndefine p c)) = lv_domainGetXMLDesc (pv_client p)"
  "lv_storageVolLookupByPath (pv_client (withUndefine p c)) = lv_storageVolLookupByPath (pv_client p)"
  "lv_storageVolDelete (pv_client (withUndefine p c)) = lv_storageVolDelete (pv_client p)"
  "lv_storagePoolGetXMLDesc (pv_client (withUndefine p c)) = lv_storagePoolGetXMLDesc (pv_client p)"
  "lv_listStoragePools (pv_client (withUndefine p c)) = lv_listStoragePools (pv_client p)"
  "lv_domainDestroy (pv_client (withUndefine p c)) = lv_domainDestroy (pv_client p)"
  "lv_domainSetAutostart (pv_client (withUndefine p c)) = lv_domainSetAutostart (pv_client p)"
  by (simp_all add: withUndefine_def)

lemma withUndefine_readPools [simp]: "readPools (withUndefine p c) pools d = readPools p pools d"
  by (induction pools arbitrary: d) (auto split: prod.splits sum.splits)

lemma withUndefine_parts [simp]:
  "diskSourcesOf (withUndefine p c) x = diskSourcesOf p x" "deleteVolumeByPath (withUndefine p c) = deleteVolumeByPath p"
proof -
  have "readPools (withUndefine p c) pools = readPools p pools" for pools by (rule ext) simp
  note s = this withUndefine_calls with_call
  show "diskSourcesOf (withUndefine p c) x = diskSourcesOf p x" unfolding diskSourcesOf_def [abs_def] s by (rule refl)
  show "deleteVolumeByPath (withUndefine p c) = deleteVolumeByPath p"
    unfolding deleteVolumeByPath_def [abs_def] confirmReclaimed_def stoppedPools_def s by (rule refl)
qed

text \<open>
  C15: a domain is undefined only when every disk of its own that its document names was reclaimed
  before, in the same deletion: if the call that undefines it makes any difference, then the deletion
  has stopped the domain and cleared its autostart, or found it stopped or gone, read its disks from its
  document, reclaimed those named after the machine one after another, and undefining is all that was
  left to do. So a failed deletion leaves the domain from which the next one learns what is to be removed.
\<close>

theorem undefined_only_when_reclaimed:
  assumes "deleteDomain (withUndefine p c) x d \<noteq> deleteDomain p x d"
  shows "\<exists>r1 d1 r2 d2 disks d3 d4.
     call p (lv_domainDestroy (pv_client p) x) d = (r1, d1) \<and> settled (\<lambda>e. isNotFound e \<or> isInvalidState e) r1
   \<and> call p (lv_domainSetAutostart (pv_client p) x 0) d1 = (r2, d2) \<and> settled (\<lambda>e. isNotFound e \<or> isInvalidState e) r2
   \<and> diskSourcesOf p x d2 = (Inr disks, d3)
   \<and> reclaims p (filter (\<lambda>path. basePath path \<in> {rootVolumeName (dom_name x), cidataVolumeName (dom_name x)}) disks) d3 d4
   \<and> deleteDomain p x d
       = tolerating isNotFound ''libvirt: undefining domain'' [dom_name x] (call p (lv_domainUndefineFlags (pv_client p) x)) d4"
proof -
  let ?own = "\<lambda>path. basePath path \<in> {rootVolumeName (dom_name x), cidataVolumeName (dom_name x)}"
  let ?undefine = "tolerating isNotFound ''libvirt: undefining domain'' [dom_name x] (call p (lv_domainUndefineFlags (pv_client p) x))"
  obtain d1 d2 disks d3 d4 where
    1: "tolerating (\<lambda>e. isNotFound e \<or> isInvalidState e) ''libvirt: destroying domain'' [dom_name x] (call p (lv_domainDestroy (pv_client p) x)) d = (Inr (), d1)"
    and 2: "tolerating (\<lambda>e. isNotFound e \<or> isInvalidState e) ''libvirt: clearing autostart on domain'' [dom_name x] (call p (lv_domainSetAutostart (pv_client p) x 0)) d1 = (Inr (), d2)"
    and 3: "diskSourcesOf p x d2 = (Inr disks, d3)"
    and 4: "eachOf (deleteVolumeByPath p) (fst (partitionOwnedDisks (dom_name x) disks)) d3 = (Inr (), d4)"
    using assms unfolding deleteDomain_def with_call withUndefine_calls withUndefine_parts
    by (auto dest!: andThen_differs)
  have "fst (partitionOwnedDisks (dom_name x) disks) = filter ?own disks" by (simp add: partitionOwnedDisks_def Let_def)
  with eachOf_reclaims [OF 4] have "reclaims p (filter ?own disks) d3 d4" by simp
  moreover have "deleteDomain p x d = ?undefine d4"
    unfolding deleteDomain_def by (simp add: andThen_def 1 2 3 4)
  ultimately show ?thesis using 1 2 3 unfolding tolerating_ok by blast
qed

text \<open>A running domain with its root volume, and a disk of another.\<close>

definition diskHost :: Host where
  "diskHost = emptyHost\<lparr>h_guests := [(''a'', \<lparr>g_uuid = uuidOf 0, g_doc = Some (elem ''domain'' [] [elem ''devices'' []
       [elem ''disk'' [] [elem ''source'' [(''file'', ''/pool/a.qcow2'')] []], elem ''disk'' [] [elem ''source'' [(''file'', ''/pool/b'')] []]]]),
       g_running = True, g_persistent = True, g_autostart = 1\<rparr>)], h_next := 1,
     h_vols := [((''default'', ''a.qcow2''), []), ((''default'', ''b''), [])]\<rparr>"

lemma diskHost_deletes:
  "fst (deleteDomain hostProvider \<lparr>dom_name = ''a'', dom_uuid = uuidOf 0\<rparr> diskHost) = Inr ()
   \<and> fst (deleteDomain (withUndefine hostProvider (\<lambda>_. fail (LvError (LvOther 1)))) \<lparr>dom_name = ''a'', dom_uuid = uuidOf 0\<rparr> diskHost)
      = Inl (WrapErr ''libvirt: undefining domain'' [''a''] (LvError (LvOther 1)))"
  by code_simp

lemma diskHost_volumes:
  "map fst (h_vols (snd (deleteDomain hostProvider \<lparr>dom_name = ''a'', dom_uuid = uuidOf 0\<rparr> diskHost))) = [(''default'', ''b'')]
   \<and> h_guests (snd (deleteDomain hostProvider \<lparr>dom_name = ''a'', dom_uuid = uuidOf 0\<rparr> diskHost)) = []"
  by code_simp

theorem undefined_only_when_reclaimed_witness:
  "\<exists>r1 d1 r2 d2 disks d3 d4. call hostProvider (lv_domainDestroy hostClient \<lparr>dom_name = ''a'', dom_uuid = uuidOf 0\<rparr>) diskHost = (r1, d1)
   \<and> call hostProvider (lv_domainSetAutostart hostClient \<lparr>dom_name = ''a'', dom_uuid = uuidOf 0\<rparr> 0) d1 = (r2, d2)
   \<and> diskSourcesOf hostProvider \<lparr>dom_name = ''a'', dom_uuid = uuidOf 0\<rparr> d2 = (Inr disks, d3)
   \<and> reclaims hostProvider (filter (\<lambda>path. basePath path \<in> {rootVolumeName ''a'', cidataVolumeName ''a''}) disks) d3 d4
   \<and> deleteDomain hostProvider \<lparr>dom_name = ''a'', dom_uuid = uuidOf 0\<rparr> diskHost = tolerating isNotFound ''libvirt: undefining domain'' [''a'']
       (call hostProvider (lv_domainUndefineFlags hostClient \<lparr>dom_name = ''a'', dom_uuid = uuidOf 0\<rparr>)) d4
   \<and> map fst (h_vols (snd (deleteDomain hostProvider \<lparr>dom_name = ''a'', dom_uuid = uuidOf 0\<rparr> diskHost))) = [(''default'', ''b'')]"
proof -
  let ?x = "\<lparr>dom_name = ''a'', dom_uuid = uuidOf 0\<rparr>"
  have c: "pv_client hostProvider = hostClient" by (simp add: hostProvider_def)
  have "deleteDomain (withUndefine hostProvider (\<lambda>_. fail (LvError (LvOther 1)))) ?x diskHost \<noteq> deleteDomain hostProvider ?x diskHost"
    using diskHost_deletes by (metis Inl_Inr_False)
  from undefined_only_when_reclaimed [OF this, unfolded c Domain.select_convs] show ?thesis
    by (elim exE conjE) (intro exI conjI, assumption+, rule conjunct1 [OF diskHost_volumes])
qed

section \<open>Documents\<close>

text \<open>
  C17: the document a machine is defined from reads back as the machine that was asked for, with one
  interface per network; its controllers are the PCIe root, at index 0, and then a root port of its own
  for every PCIe device and two to spare, numbered from 1 without a gap, each with hotplug off; so the
  check before the start passes on what libvirt was given.
\<close>

theorem domainXML_starts:
  "\<exists>dm. unmarshalDomain (domainXML spec rootPath cidataPath) = Inr dm
     \<and> dd_name dm = ms_name spec \<and> dd_vcpu dm = ms_vcpus spec \<and> md_value (dd_memory dm) = ms_memoryBytes spec
     \<and> map if_bridge (dv_interfaces (dd_devices dm)) = ms_networks spec
     \<and> map dk_sourceFile (dv_disks (dd_devices dm)) = rootPath # (if cidataPath = [] then [] else [cidataPath])
     \<and> dv_controllers (dd_devices dm) =
          \<lparr>cd_type = ''pci'', cd_index = ''0'', cd_model = ''pcie-root'', cd_target = None\<rparr>
          # map (\<lambda>i. \<lparr>cd_type = ''pci'', cd_index = itoa i, cd_model = ''pcie-root-port'', cd_target = Some ''off''\<rparr>)
              [1..<pcieDeviceCount (dd_devices dm) + 3]
     \<and> 4 + length (ms_networks spec) = pcieDeviceCount (dd_devices dm)
     \<and> hotplugRootPorts (domainXML spec rootPath cidataPath) = Inr []"
proof -
  let ?dm = "domainOf spec rootPath cidataPath"
  obtain k where k: "pcieDeviceCount (dd_devices ?dm) = k" "dv_controllers (dd_devices ?dm) = rootPorts (k + 2)" "4 + length (ms_networks spec) = k"
    by (simp add: domainOf_def domainDevices_def pcieDeviceCount_def Let_def spareRootPorts_def rootDisk_def cidataDisk_def
        libvirtDefaultPCIeDevices_def modelVirtio_def diskBusSATA_def diskBusVirtio_def)
  have "hotplugRootPorts (domainXML spec rootPath cidataPath) = Inr []"
    unfolding domainXML_def hotplug_renderDomain k(2)
    by (auto simp: rootPorts_def rootPort_def filter_empty_conv pcieRootModel_def pcieRootPortModel_def)
  moreover have "unmarshalDomain (domainXML spec rootPath cidataPath) = Inr ?dm" by (simp add: domainXML_def unmarshal_renderDomain)
  moreover have "dv_controllers (dd_devices ?dm) = \<lparr>cd_type = ''pci'', cd_index = ''0'', cd_model = ''pcie-root'', cd_target = None\<rparr>
      # map (\<lambda>i. \<lparr>cd_type = ''pci'', cd_index = itoa i, cd_model = ''pcie-root-port'', cd_target = Some ''off''\<rparr>) [1..<k + 3]"
    unfolding k(2) by (simp add: rootPorts_def rootPort_def [abs_def] numeral_3_eq_3 pciControllerType_def pcieRootModel_def
        pcieRootPortModel_def pcieRootPortHotplug_def)
  moreover have "dd_name ?dm = ms_name spec" "dd_vcpu ?dm = ms_vcpus spec" "md_value (dd_memory ?dm) = ms_memoryBytes spec"
    "map if_bridge (dv_interfaces (dd_devices ?dm)) = ms_networks spec"
    "map dk_sourceFile (dv_disks (dd_devices ?dm)) = rootPath # (if cidataPath = [] then [] else [cidataPath])"
    by (simp_all add: domainOf_def domainDevices_def Let_def rootDisk_def cidataDisk_def comp_def)
  ultimately show ?thesis using k by metis
qed

text \<open>
  C18: the network the backend defines for a cluster is one it accepts afterwards, also once libvirt has
  given it a bridge, and any network it accepts has the declared address, mask and DHCP range and forwards
  openly; so a second reconcile never finds the first one's network wrong.
\<close>

theorem managed_network_accepted:
  "(\<exists>nf. unmarshalNetwork (networkXML spec gateway netmask) = Inr nf
      \<and> networkMismatch (nf\<lparr>nd_bridgeName := bridge\<rparr>) spec gateway netmask = None)
   \<and> (networkMismatch found spec gateway netmask = None \<longleftrightarrow>
        nd_forwardMode found = ''open''
        \<and> nd_ip found = \<lparr>ni_address = gateway, ni_netmask = netmask, ni_dhcp = Some (mn_dhcpStart spec, mn_dhcpEnd spec)\<rparr>)"
proof
  show "\<exists>nf. unmarshalNetwork (networkXML spec gateway netmask) = Inr nf \<and> networkMismatch (nf\<lparr>nd_bridgeName := bridge\<rparr>) spec gateway netmask = None"
    by (simp add: networkXML_def unmarshal_renderNetwork networkMismatch_def)
  show "networkMismatch found spec gateway netmask = None \<longleftrightarrow> nd_forwardMode found = ''open''
      \<and> nd_ip found = \<lparr>ni_address = gateway, ni_netmask = netmask, ni_dhcp = Some (mn_dhcpStart spec, mn_dhcpEnd spec)\<rparr>"
    by (cases "nd_ip found") (auto simp: networkMismatch_def netForwardOpen_def split: option.splits)
qed

end
