(* ===== verification/Libvirt_Conn.thy ===== *)
theory Libvirt_Conn
  imports Provider_Api
begin

text \<open>
  The connection of the libvirt backend: \<^verbatim>\<open>ensureConnected\<close> and what belongs to it in
  \<^verbatim>\<open>internal/providers/libvirt/libvirt.go\<close>, and the dialer that remembers its socket in
  \<^verbatim>\<open>internal/providers/libvirt/transport.go\<close>. Each stretch under a lock is one definition; goroutines,
  timers and contexts are steps that may come in any order, as are the answers of go-libvirt and of the
  dialer below, which are third-party code: a reconnect calls \<^verbatim>\<open>Dial\<close> once, speaks the protocol over the
  socket it got and says whether that worked.

  Sockets, attempts and clients are numbered in the order they came up: attempt \<open>a\<close> dials for client
  \<open>a + 1\<close>, client 0 is the one \<^verbatim>\<open>New\<close> connected. A socket is open until its close lands; closes run in
  the background.
\<close>

section \<open>State\<close>

datatype innerDial = NotDialled | InnerRunning | InnerDone "goerr + nat" | InnerTaken

text \<open>Where the goroutine of an attempt is; \<^verbatim>\<open>Settled\<close> is a closed \<^verbatim>\<open>done\<close> channel.\<close>

datatype attemptPhase = Starting | Selecting | Handshaking nat | Connected "goerr option" | Settling bool | Settled

record dialAttempt =
  da_waiters :: int
  da_err :: "goerr option"
  da_phase :: attemptPhase
  da_ch :: nat
  da_inner :: innerDial
  da_late :: bool

datatype caller = Waiting nat | Answered "goerr option"

record trackingDialer =
  td_conn :: "nat option"
  td_last :: "nat option"
  td_abandoned :: bool
  td_ch :: nat

record connState =
  cs_closed :: bool
  cs_client :: nat
  cs_dial :: "nat option"
  cs_started :: nat
  cs_attempts :: "nat \<Rightarrow> dialAttempt"
  cs_dialer :: trackingDialer
  cs_closedChs :: "nat set"
  cs_opened :: nat
  cs_handed :: "nat set"
  cs_dead :: "nat set"
  cs_closing :: "nat set"
  cs_shut :: "nat set"
  cs_callers :: "caller list"

section \<open>The tracking dialer\<close>

definition detachLocked :: "connState \<Rightarrow> nat option \<times> connState" where
  "detachLocked s = (td_conn (cs_dialer s), s\<lparr>cs_dialer := (cs_dialer s)\<lparr>td_conn := None\<rparr>,
     cs_dead := cs_dead s \<union> set_option (td_conn (cs_dialer s))\<rparr>)"

definition beginAttempt :: "connState \<Rightarrow> nat option \<times> connState" where
  "beginAttempt s = detachLocked (if td_abandoned (cs_dialer s)
     then s\<lparr>cs_dialer := (cs_dialer s)\<lparr>td_abandoned := False, td_ch := td_ch (cs_dialer s) + 1\<rparr>\<rparr> else s)"

definition abandonAttempt :: "connState \<Rightarrow> nat option \<times> connState" where
  "abandonAttempt s = detachLocked (if td_abandoned (cs_dialer s) then s
     else s\<lparr>cs_dialer := (cs_dialer s)\<lparr>td_abandoned := True\<rparr>, cs_closedChs := insert (td_ch (cs_dialer s)) (cs_closedChs s)\<rparr>)"

definition socketLost :: "connState \<Rightarrow> bool" where
  "socketLost s = (case td_last (cs_dialer s) of None \<Rightarrow> False | Some c \<Rightarrow> c \<in> cs_dead s)"

definition closeDetached :: "nat option \<times> connState \<Rightarrow> connState" where
  "closeDetached cs = (snd cs)\<lparr>cs_closing := cs_closing (snd cs) \<union> set_option (fst cs)\<rparr>"

definition forceClose :: "connState \<Rightarrow> connState" where
  "forceClose s = closeDetached (detachLocked s)"

abbreviation setAttempt :: "nat \<Rightarrow> dialAttempt \<Rightarrow> connState \<Rightarrow> connState" where
  "setAttempt a x s \<equiv> s\<lparr>cs_attempts := (cs_attempts s)(a := x)\<rparr>"

abbreviation returning :: "nat \<Rightarrow> goerr option \<Rightarrow> connState \<Rightarrow> connState" where
  "returning a e s \<equiv> setAttempt a ((cs_attempts s a)\<lparr>da_phase := Connected e\<rparr>) s"

text \<open>The stretches of \<^verbatim>\<open>Dial\<close>: until the inner dial runs, what is done with its answer, and giving it up.\<close>

definition dialStart :: "nat \<Rightarrow> connState \<Rightarrow> connState" where
  "dialStart a s = (if td_abandoned (cs_dialer s) then returning a (Some (Sentinel ErrDialAbandoned)) s
     else setAttempt a ((cs_attempts s a)\<lparr>da_phase := Selecting, da_ch := td_ch (cs_dialer s), da_inner := InnerRunning\<rparr>) s)"

definition dialReceived :: "nat \<Rightarrow> goerr + nat \<Rightarrow> connState \<Rightarrow> connState" where
  "dialReceived a r s =
     (let s1 = setAttempt a ((cs_attempts s a)\<lparr>da_inner := InnerTaken\<rparr>) s in
      case r of
        Inl e \<Rightarrow> returning a (Some e) s1
      | Inr c \<Rightarrow>
          if td_abandoned (cs_dialer s) then closeDetached (Some c, returning a (Some (Sentinel ErrDialAbandoned)) s1)
          else (setAttempt a ((cs_attempts s1 a)\<lparr>da_phase := Handshaking c\<rparr>) s1)
                 \<lparr>cs_dialer := (cs_dialer s)\<lparr>td_conn := Some c, td_last := Some c\<rparr>, cs_handed := insert c (cs_handed s)\<rparr>)"

definition dialGivenUp :: "nat \<Rightarrow> goerr \<Rightarrow> connState \<Rightarrow> connState" where
  "dialGivenUp a e s = returning a (Some e) (setAttempt a ((cs_attempts s a)\<lparr>da_late := True\<rparr>) s)"

definition closeOnArrival :: "nat \<Rightarrow> goerr + nat \<Rightarrow> connState \<Rightarrow> connState" where
  "closeOnArrival a r s = closeDetached (case r of Inl _ \<Rightarrow> None | Inr c \<Rightarrow> Some c,
     setAttempt a ((cs_attempts s a)\<lparr>da_inner := InnerTaken\<rparr>) s)"

section \<open>Reconnecting\<close>

definition abandonLocked :: "nat \<Rightarrow> connState \<Rightarrow> nat option \<times> connState" where
  "abandonLocked a s = (if cs_dial s \<noteq> Some a then (None, s) else abandonAttempt s)"

definition abandonDial :: "nat \<Rightarrow> connState \<Rightarrow> connState" where
  "abandonDial a s =
     (let s1 = setAttempt a ((cs_attempts s a)\<lparr>da_waiters := da_waiters (cs_attempts s a) - 1\<rparr>) s
      in closeDetached (if da_waiters (cs_attempts s1 a) = 0 then abandonLocked a s1 else (None, s1)))"

definition endAttempt :: "nat \<Rightarrow> connState \<Rightarrow> connState" where
  "endAttempt a s = closeDetached (abandonLocked a s)"

definition freshAttempt :: dialAttempt where
  "freshAttempt = \<lparr>da_waiters = 0, da_err = None, da_phase = Starting, da_ch = 0, da_inner = NotDialled, da_late = False\<rparr>"

definition joinAttempt :: "nat \<Rightarrow> connState \<Rightarrow> caller \<times> connState" where
  "joinAttempt a s = (Waiting a, setAttempt a ((cs_attempts s a)\<lparr>da_waiters := da_waiters (cs_attempts s a) + 1\<rparr>) s)"

text \<open>\<^verbatim>\<open>ensureConnected\<close> until it waits; whether the client says it is connected is its answer.\<close>

definition ensureConnected :: "bool \<Rightarrow> connState \<Rightarrow> caller \<times> connState" where
  "ensureConnected isConnected s =
     (if cs_closed s then (Answered (Some (Sentinel ErrProviderClosed)), s)
      else case cs_dial s of
          Some a \<Rightarrow> joinAttempt a s
        | None \<Rightarrow>
            if isConnected \<and> \<not> socketLost s then (Answered None, s)
            else let a = cs_started s;
                     (stale, s1) = beginAttempt (s\<lparr>cs_dial := Some a, cs_started := a + 1, cs_attempts := (cs_attempts s)(a := freshAttempt)\<rparr>);
                     (c, s2) = joinAttempt a s1
                 in (c, closeDetached (stale, s2)))"

text \<open>What the goroutine of an attempt does once the client has answered, and after it gave the lock back.\<close>

definition finishAttempt :: "nat \<Rightarrow> goerr option \<Rightarrow> connState \<Rightarrow> connState" where
  "finishAttempt a e s =
     (let closedMeanwhile = (e = None \<and> cs_closed s);
          err = (if closedMeanwhile then Some (Sentinel ErrProviderClosed) else e)
      in (setAttempt a ((cs_attempts s a)\<lparr>da_err := err, da_phase := Settling closedMeanwhile\<rparr>) s)
           \<lparr>cs_client := (if err = None then a + 1 else cs_client s), cs_dial := None\<rparr>)"

definition settleAttempt :: "nat \<Rightarrow> bool \<Rightarrow> connState \<Rightarrow> connState" where
  "settleAttempt a closedMeanwhile s =
     (let s1 = (if closedMeanwhile then forceClose s else s)
      in setAttempt a ((cs_attempts s1 a)\<lparr>da_phase := Settled\<rparr>) s1)"

text \<open>What a caller that saw its attempt settled is told.\<close>

definition attemptOutcome :: "dialAttempt \<Rightarrow> goerr option" where
  "attemptOutcome x = map_option (\<lambda>e. WrapErr ''libvirt: reconnecting'' [] e) (da_err x)"

text \<open>\<^verbatim>\<open>Close\<close>: no reconnect from here on; then the socket is dropped unless the client let go of it politely.\<close>

definition markClosed :: "connState \<Rightarrow> connState" where
  "markClosed s = s\<lparr>cs_closed := True\<rparr>"

section \<open>Interleaving\<close>

definition newConn :: connState where
  "newConn = \<lparr>cs_closed = False, cs_client = 0, cs_dial = None, cs_started = 0, cs_attempts = (\<lambda>_. freshAttempt\<lparr>da_phase := Settled\<rparr>),
     cs_dialer = \<lparr>td_conn = Some 0, td_last = Some 0, td_abandoned = False, td_ch = 0\<rparr>, cs_closedChs = {},
     cs_opened = 1, cs_handed = {0}, cs_dead = {}, cs_closing = {}, cs_shut = {}, cs_callers = []\<rparr>"

abbreviation phaseOf :: "connState \<Rightarrow> nat \<Rightarrow> attemptPhase" where "phaseOf s a \<equiv> da_phase (cs_attempts s a)"
abbreviation innerOf :: "connState \<Rightarrow> nat \<Rightarrow> innerDial" where "innerOf s a \<equiv> da_inner (cs_attempts s a)"

text \<open>
  The goroutine of an attempt, as far as it goes on without the inner dial and without the daemon: the
  protocol over a socket can always fail, and leaves the socket as it is.
\<close>

inductive attempt_step :: "nat \<Rightarrow> connState \<Rightarrow> connState \<Rightarrow> bool" for a where
  dial_start: "phaseOf s a = Starting \<Longrightarrow> attempt_step a s (dialStart a s)"
| dial_abandoned: "phaseOf s a = Selecting \<Longrightarrow> da_ch (cs_attempts s a) \<in> cs_closedChs s \<Longrightarrow>
    attempt_step a s (dialGivenUp a (Sentinel ErrDialAbandoned) s)"
| handshake_fails: "phaseOf s a = Handshaking c \<Longrightarrow> attempt_step a s (returning a (Some e) s)"
| finish: "phaseOf s a = Connected e \<Longrightarrow> attempt_step a s (finishAttempt a e s)"
| settle: "phaseOf s a = Settling cm \<Longrightarrow> attempt_step a s (settleAttempt a cm s)"

text \<open>What it takes others for: the inner dial, the daemon, the callers, timers and closes.\<close>

inductive conn_step :: "connState \<Rightarrow> connState \<Rightarrow> bool" where
  attempt: "a < cs_started s \<Longrightarrow> attempt_step a s s' \<Longrightarrow> conn_step s s'"
| inner_opens: "innerOf s a = InnerRunning \<Longrightarrow> a < cs_started s \<Longrightarrow>
    conn_step s ((setAttempt a ((cs_attempts s a)\<lparr>da_inner := InnerDone (Inr (cs_opened s))\<rparr>) s)\<lparr>cs_opened := cs_opened s + 1\<rparr>)"
| inner_fails: "innerOf s a = InnerRunning \<Longrightarrow> a < cs_started s \<Longrightarrow>
    conn_step s (setAttempt a ((cs_attempts s a)\<lparr>da_inner := InnerDone (Inl e)\<rparr>) s)"
| dial_received: "phaseOf s a = Selecting \<Longrightarrow> a < cs_started s \<Longrightarrow> innerOf s a = InnerDone r \<Longrightarrow> conn_step s (dialReceived a r s)"
| dial_timeout: "phaseOf s a = Selecting \<Longrightarrow> a < cs_started s \<Longrightarrow>
    conn_step s (dialGivenUp a (NewErr ''libvirt: dial did not complete'' []) s)"
| late_arrival: "da_late (cs_attempts s a) \<Longrightarrow> a < cs_started s \<Longrightarrow> innerOf s a = InnerDone r \<Longrightarrow> conn_step s (closeOnArrival a r s)"
| handshake_done: "phaseOf s a = Handshaking c \<Longrightarrow> a < cs_started s \<Longrightarrow> conn_step s (returning a None s)"
| call_enters: "ensureConnected up s = (c, s1) \<Longrightarrow> conn_step s (s1\<lparr>cs_callers := cs_callers s1 @ [c]\<rparr>)"
| call_gives_up: "i < length (cs_callers s) \<Longrightarrow> cs_callers s ! i = Waiting a \<Longrightarrow> e \<in> {ContextCanceled, ContextDeadlineExceeded} \<Longrightarrow>
    conn_step s ((abandonDial a s)\<lparr>cs_callers := (cs_callers s)[i := Answered (Some (WrapErr ''libvirt: connecting'' [] (Sentinel e)))]\<rparr>)"
| call_answered: "i < length (cs_callers s) \<Longrightarrow> cs_callers s ! i = Waiting a \<Longrightarrow> phaseOf s a = Settled \<Longrightarrow>
    conn_step s (s\<lparr>cs_callers := (cs_callers s)[i := Answered (attemptOutcome (cs_attempts s a))]\<rparr>)"
| limit_fires: "a < cs_started s \<Longrightarrow> conn_step s (endAttempt a s)"
| recycled: "conn_step s (forceClose s)"
| provider_closed: "conn_step s (markClosed s)"
| socket_dies: "c \<in> cs_handed s \<Longrightarrow> conn_step s (s\<lparr>cs_dead := insert c (cs_dead s)\<rparr>)"
| client_closes: "c \<in> cs_handed s \<Longrightarrow> conn_step s (s\<lparr>cs_dead := insert c (cs_dead s), cs_shut := insert c (cs_shut s)\<rparr>)"
| close_lands: "c \<in> cs_closing s \<Longrightarrow> conn_step s (s\<lparr>cs_closing := cs_closing s - {c}, cs_shut := insert c (cs_shut s)\<rparr>)"

inductive connReachable :: "connState \<Rightarrow> bool" where
  conn_init: "connReachable newConn"
| conn_next: "connReachable s \<Longrightarrow> conn_step s s' \<Longrightarrow> connReachable s'"

end
