(* ===== verification/Conn_Inv.thy ===== *)
theory Conn_Inv
  imports Libvirt_Conn
begin

text \<open>
  The invariant of the libvirt connection, in parts: one attempt at a time, the channel an attempt
  listens to, where every socket is, who waits for an attempt, and which client is installed. Each part
  is shown to survive every step with the parts before it.
\<close>

section \<open>The parts\<close>

definition busy :: "attemptPhase \<Rightarrow> bool" where
  "busy ph \<longleftrightarrow> (case ph of Settling _ \<Rightarrow> False | Settled \<Rightarrow> False | _ \<Rightarrow> True)"

lemma busy_simps [simp]: "busy Starting" "busy Selecting" "busy (Handshaking c)" "busy (Connected e)" "\<not> busy (Settling b)" "\<not> busy Settled"
  by (simp_all add: busy_def)

definition flightOK :: "connState \<Rightarrow> bool" where
  "flightOK s \<longleftrightarrow> (\<forall>a. cs_dial s = Some a \<longleftrightarrow> busy (phaseOf s a)) \<and> (\<forall>a. cs_dial s = Some a \<longrightarrow> cs_started s = a + 1)
     \<and> (\<forall>a\<ge>cs_started s. cs_attempts s a = freshAttempt\<lparr>da_phase := Settled\<rparr>)
     \<and> (\<forall>a. Waiting a \<in> set (cs_callers s) \<longrightarrow> a < cs_started s)"

definition chanOK :: "connState \<Rightarrow> bool" where
  "chanOK s \<longleftrightarrow> (td_abandoned (cs_dialer s) \<longleftrightarrow> td_ch (cs_dialer s) \<in> cs_closedChs s) \<and> (\<forall>c\<in>cs_closedChs s. c \<le> td_ch (cs_dialer s))
     \<and> (\<forall>a. phaseOf s a = Selecting \<longrightarrow> da_ch (cs_attempts s a) = td_ch (cs_dialer s))"

definition dialerOK :: "connState \<Rightarrow> bool" where
  "dialerOK s \<longleftrightarrow> (td_abandoned (cs_dialer s) \<longrightarrow> td_conn (cs_dialer s) = None)
     \<and> (\<forall>a. phaseOf s a \<in> {Starting, Selecting} \<longrightarrow> td_conn (cs_dialer s) = None)
     \<and> (\<forall>c. td_conn (cs_dialer s) = Some c \<longrightarrow> td_last (cs_dialer s) = Some c)
     \<and> (\<forall>a c. phaseOf s a = Handshaking c \<longrightarrow> td_conn (cs_dialer s) = Some c \<or> c \<in> cs_dead s \<and> c \<in> cs_closing s \<union> cs_shut s)"

definition socketsOK :: "connState \<Rightarrow> bool" where
  "socketsOK s \<longleftrightarrow> (\<forall>c<cs_opened s. c \<in> cs_shut s \<or> c \<in> cs_closing s \<or> td_conn (cs_dialer s) = Some c \<or> (\<exists>a. innerOf s a = InnerDone (Inr c)))
     \<and> (\<forall>a. innerOf s a \<notin> {NotDialled, InnerTaken} \<longrightarrow> phaseOf s a = Selecting \<or> da_late (cs_attempts s a))
     \<and> (\<forall>a. phaseOf s a = Starting \<longrightarrow> innerOf s a = NotDialled)"

definition arriveOK :: "connState \<Rightarrow> bool" where
  "arriveOK s \<longleftrightarrow> (\<forall>c\<in>cs_handed s \<union> cs_closing s \<union> cs_shut s \<union> set_option (td_conn (cs_dialer s)). c < cs_opened s)
     \<and> (\<forall>a c. innerOf s a = InnerDone (Inr c) \<longrightarrow> c < cs_opened s \<and> c \<notin> cs_handed s \<union> cs_closing s \<union> cs_shut s \<union> set_option (td_conn (cs_dialer s)))
     \<and> (\<forall>a b c. innerOf s a = InnerDone (Inr c) \<and> innerOf s b = InnerDone (Inr c) \<longrightarrow> b = a)"

definition lostOK :: "connState \<Rightarrow> bool" where
  "lostOK s \<longleftrightarrow> (\<forall>c\<in>cs_handed s. c \<in> cs_closing s \<union> cs_shut s \<longrightarrow> c \<in> cs_dead s)
     \<and> (\<exists>c. td_last (cs_dialer s) = Some c \<and> c \<in> cs_handed s \<and> (td_conn (cs_dialer s) = Some c \<or> td_conn (cs_dialer s) = None \<and> c \<in> cs_dead s))"

definition waiting :: "connState \<Rightarrow> nat \<Rightarrow> nat" where
  "waiting s a = length (filter (\<lambda>c. c = Waiting a) (cs_callers s))"

definition waitOK :: "connState \<Rightarrow> bool" where
  "waitOK s \<longleftrightarrow> (\<forall>a. cs_dial s = Some a \<longrightarrow> da_waiters (cs_attempts s a) = int (waiting s a)
       \<and> (waiting s a = 0 \<longrightarrow> td_abandoned (cs_dialer s)))"

definition clientOK :: "connState \<Rightarrow> bool" where
  "clientOK s \<longleftrightarrow> cs_client s \<le> cs_started s
     \<and> (\<forall>a<cs_started s. \<not> busy (phaseOf s a) \<and> da_err (cs_attempts s a) = None \<longrightarrow> a + 1 \<le> cs_client s)
     \<and> (\<forall>a. cs_client s = a + 1 \<longrightarrow> \<not> busy (phaseOf s a) \<and> da_err (cs_attempts s a) = None)"

section \<open>Steps keep them\<close>

text \<open>The four ways into \<^verbatim>\<open>ensureConnected\<close>; the last one begins an attempt.\<close>

definition begun :: "connState \<Rightarrow> connState" where
  "begun s = s\<lparr>cs_dial := Some (cs_started s), cs_started := cs_started s + 1,
     cs_attempts := (cs_attempts s)(cs_started s := freshAttempt\<lparr>da_waiters := 1\<rparr>),
     cs_dialer := \<lparr>td_conn = None, td_last = td_last (cs_dialer s), td_abandoned = False,
       td_ch = (if td_abandoned (cs_dialer s) then td_ch (cs_dialer s) + 1 else td_ch (cs_dialer s))\<rparr>,
     cs_dead := cs_dead s \<union> set_option (td_conn (cs_dialer s)), cs_closing := cs_closing s \<union> set_option (td_conn (cs_dialer s))\<rparr>"

lemma ensureConnected_cases:
  assumes "ensureConnected up s = (c, s1)"
  obtains (refused) "cs_closed s" "c = Answered (Some (Sentinel ErrProviderClosed))" "s1 = s"
  | (joined) a where "\<not> cs_closed s" "cs_dial s = Some a" "c = Waiting a"
      "s1 = setAttempt a ((cs_attempts s a)\<lparr>da_waiters := da_waiters (cs_attempts s a) + 1\<rparr>) s"
  | (connected) "\<not> cs_closed s" "cs_dial s = None" "up" "\<not> socketLost s" "c = Answered None" "s1 = s"
  | (dials) "\<not> cs_closed s" "cs_dial s = None" "\<not> up \<or> socketLost s" "c = Waiting (cs_started s)" "s1 = begun s"
proof (cases "cs_closed s")
  case True
  with assms show thesis by (intro refused) (auto simp: ensureConnected_def)
next
  case running: False
  show thesis
  proof (cases "cs_dial s")
    case (Some a)
    with assms running show thesis by (intro joined) (auto simp: ensureConnected_def joinAttempt_def)
  next
    case None
    show thesis
    proof (cases "up \<and> \<not> socketLost s")
      case True
      with assms running None show thesis by (intro connected) (auto simp: ensureConnected_def)
    next
      case False
      have "ensureConnected up s = (Waiting (cs_started s), begun s)" using running None False
        by (auto simp: ensureConnected_def beginAttempt_def detachLocked_def joinAttempt_def closeDetached_def begun_def freshAttempt_def Let_def)
      with assms running None False show thesis by (intro dials) auto
    qed
  qed
qed

lemmas conn_defs = detachLocked_def beginAttempt_def abandonAttempt_def closeDetached_def forceClose_def dialStart_def dialReceived_def
  dialGivenUp_def closeOnArrival_def abandonLocked_def abandonDial_def endAttempt_def joinAttempt_def
  finishAttempt_def settleAttempt_def markClosed_def Let_def begun_def freshAttempt_def

lemma flight_unique: "flightOK s \<Longrightarrow> busy (phaseOf s a) \<Longrightarrow> cs_dial s = Some a"
  by (simp add: flightOK_def)

lemma flight_only: "flightOK s \<Longrightarrow> busy (phaseOf s a) \<Longrightarrow> busy (phaseOf s b) \<Longrightarrow> b = a"
  by (metis flight_unique option.inject)

lemma waiting_update: "Waiting a \<in> set (cs[i := Answered e]) \<Longrightarrow> Waiting a \<in> set cs"
  by (induction cs arbitrary: i) (auto split: nat.splits)

lemma waiting_nth: "i < length cs \<Longrightarrow> cs ! i = Waiting a \<Longrightarrow> Waiting a \<in> set cs"
  by (metis nth_mem)

lemma flight_step: "conn_step s s' \<Longrightarrow> flightOK s \<Longrightarrow> flightOK s'"
proof (induction rule: conn_step.induct)
  case (attempt a s s')
  note only = flight_only [OF attempt.prems, of a]
  from attempt.hyps(2) attempt.prems attempt.hyps(1) only show ?case
    by cases (auto simp: flightOK_def conn_defs)
next
  case (call_enters up s c s1)
  from call_enters.hyps call_enters.prems show ?case
    by (cases rule: ensureConnected_cases) (auto simp: flightOK_def conn_defs)
next
  case (call_gives_up i s a e)
  have "a < cs_started s" using call_gives_up waiting_nth [of i "cs_callers s" a] by (simp add: flightOK_def)
  with call_gives_up show ?case by (auto simp: flightOK_def conn_defs dest!: waiting_update)
qed (auto simp: flightOK_def conn_defs dest!: waiting_update split: if_splits option.splits sum.splits)

lemma chan_step: "conn_step s s' \<Longrightarrow> flightOK s \<Longrightarrow> chanOK s \<Longrightarrow> chanOK s'"
proof (induction rule: conn_step.induct)
  case (attempt a s s')
  from attempt.hyps(2) attempt.prems show ?case by cases (auto simp: chanOK_def conn_defs)
next
  case (call_enters up s c s1)
  have fresh: "Suc (td_ch (cs_dialer s)) \<notin> cs_closedChs s" "\<forall>c\<in>cs_closedChs s. c \<le> Suc (td_ch (cs_dialer s))"
    using call_enters.prems(2) unfolding chanOK_def by (fastforce, fastforce)
  from call_enters.hyps show ?case
  proof (cases rule: ensureConnected_cases)
    case dials
    have "phaseOf s a \<noteq> Selecting" for a using dials flight_unique [OF call_enters.prems(1), of a] by auto
    then show ?thesis using dials call_enters.prems(2) fresh by (auto simp: chanOK_def conn_defs)
  qed (use call_enters.prems(2) in \<open>auto simp: chanOK_def\<close>)
qed (auto simp: chanOK_def conn_defs split: if_splits option.splits sum.splits)

lemma dialer_step: "conn_step s s' \<Longrightarrow> flightOK s \<Longrightarrow> dialerOK s \<Longrightarrow> dialerOK s'"
proof (induction rule: conn_step.induct)
  case (attempt a s s')
  note only = flight_only [OF attempt.prems(1), of a]
  from attempt.hyps(2) show ?case
  proof cases
    case dial_abandoned
    then have "phaseOf s b \<noteq> Handshaking c" for b c using only [of b] by auto
    then show ?thesis using dial_abandoned attempt.prems(2) by (auto simp: dialerOK_def conn_defs)
  qed (use attempt.prems(2) in \<open>auto simp: dialerOK_def conn_defs split: if_splits\<close>)
next
  case (call_enters up s c s1)
  from call_enters.hyps show ?case
  proof (cases rule: ensureConnected_cases)
    case dials
    have "phaseOf s a \<noteq> Handshaking c" for a c using dials flight_unique [OF call_enters.prems(1), of a] by auto
    then show ?thesis using dials call_enters.prems(2) by (auto simp: dialerOK_def conn_defs)
  qed (use call_enters.prems(2) in \<open>auto simp: dialerOK_def\<close>)
next
  case (dial_received s a r)
  then have "busy (phaseOf s b) \<Longrightarrow> b = a" for b using flight_only [of s a b] by simp
  with dial_received show ?case by (auto simp: dialerOK_def conn_defs split: if_splits option.splits sum.splits)
qed (auto simp: dialerOK_def conn_defs split: if_splits option.splits sum.splits, blast+)

lemma held_upd: "(\<exists>b. da_inner (if b = a then x else f b) = d) \<longleftrightarrow> da_inner x = d \<or> (\<exists>b. b \<noteq> a \<and> da_inner (f b) = d)"
  by auto

lemma socketsOK_taken:
  assumes "socketsOK s" and "innerOf s a = InnerDone r"
  shows "\<forall>c<cs_opened s. c \<in> cs_shut s \<or> c \<in> cs_closing s \<or> td_conn (cs_dialer s) = Some c \<or> (\<exists>b. b \<noteq> a \<and> innerOf s b = InnerDone (Inr c)) \<or> r = Inr c"
    and "\<forall>b. b \<noteq> a \<longrightarrow> innerOf s b \<notin> {NotDialled, InnerTaken} \<longrightarrow> phaseOf s b = Selecting \<or> da_late (cs_attempts s b)"
    and "\<forall>b. b \<noteq> a \<longrightarrow> phaseOf s b = Starting \<longrightarrow> innerOf s b = NotDialled"
  using assms unfolding socketsOK_def by (metis innerDial.inject, blast, blast)

lemma sockets_step: "conn_step s s' \<Longrightarrow> flightOK s \<Longrightarrow> dialerOK s \<Longrightarrow> socketsOK s \<Longrightarrow> socketsOK s'"
proof (induction rule: conn_step.induct)
  case (attempt a s s')
  from attempt.hyps(2) attempt.prems(3) show ?case
    by cases (auto simp: socketsOK_def held_upd conn_defs, metis innerDial.distinct)
next
  case (call_enters up s c s1)
  from call_enters.hyps show ?case
  proof (cases rule: ensureConnected_cases)
    case dials
    have "innerOf s (cs_started s) = NotDialled" using call_enters.prems(1) by (simp add: flightOK_def freshAttempt_def)
    then show ?thesis using dials call_enters.prems(3) by (auto simp: socketsOK_def held_upd conn_defs) (metis innerDial.distinct)+
  qed (use call_enters.prems(3) in \<open>auto simp: socketsOK_def held_upd, metis\<close>)
next
  case (inner_opens s a)
  then show ?case by (auto simp: socketsOK_def held_upd less_Suc_eq) (metis innerDial.distinct)+
next
  case (dial_received s a r)
  have "td_conn (cs_dialer s) = None" using dial_received.hyps(1) dial_received.prems(2) by (auto simp: dialerOK_def)
  with socketsOK_taken [OF dial_received.prems(3) dial_received.hyps(3)]
  have held: "\<forall>c<cs_opened s. c \<in> cs_shut s \<or> c \<in> cs_closing s \<or> (\<exists>b. b \<noteq> a \<and> innerOf s b = InnerDone (Inr c)) \<or> r = Inr c"
    by simp
  note rest = socketsOK_taken(2,3) [OF dial_received.prems(3) dial_received.hyps(3)]
  show ?case
  proof (cases r)
    case (Inl e)
    with held rest show ?thesis by (simp add: socketsOK_def held_upd conn_defs) blast
  next
    case (Inr c)
    with held rest show ?thesis by (auto simp: socketsOK_def held_upd conn_defs)
  qed
next
  case (late_arrival s a r)
  note taken = socketsOK_taken [OF late_arrival.prems(3) late_arrival.hyps(3)]
  have "phaseOf s a = Starting \<Longrightarrow> False" using late_arrival by (auto simp: socketsOK_def)
  with taken show ?case by (cases r) (auto simp: socketsOK_def held_upd conn_defs)
qed (auto simp: socketsOK_def held_upd conn_defs split: if_splits option.splits sum.splits, (metis innerDial.distinct)+)

lemma arrive_step: "conn_step s s' \<Longrightarrow> arriveOK s \<Longrightarrow> arriveOK s'"
proof (induction rule: conn_step.induct)
  case (attempt a s s')
  from attempt.hyps(2) attempt.prems show ?case by cases (auto simp: arriveOK_def conn_defs)
next
  case (call_enters up s c s1)
  from call_enters.hyps call_enters.prems show ?case
    by (cases rule: ensureConnected_cases) (auto simp: arriveOK_def conn_defs)
next
  case (inner_opens s a)
  have "cs_opened s \<notin> cs_handed s \<union> cs_closing s \<union> cs_shut s \<union> set_option (td_conn (cs_dialer s))" "innerOf s b \<noteq> InnerDone (Inr (cs_opened s))" for b
    using inner_opens.prems unfolding arriveOK_def by (blast, blast)
  then show ?case using inner_opens.prems by (auto simp: arriveOK_def less_SucI)
next
  case (dial_received s a r)
  then show ?case by (cases r) (fastforce simp: arriveOK_def conn_defs)+
next
  case (late_arrival s a r)
  then show ?case by (cases r) (fastforce simp: arriveOK_def conn_defs)+
qed (auto simp: arriveOK_def conn_defs)

lemma lost_step: "conn_step s s' \<Longrightarrow> arriveOK s \<Longrightarrow> lostOK s \<Longrightarrow> lostOK s'"
proof (induction rule: conn_step.induct)
  case (attempt a s s')
  from attempt.hyps(2) attempt.prems show ?case by cases (auto simp: lostOK_def conn_defs)
next
  case (call_enters up s c s1)
  from call_enters.hyps call_enters.prems show ?case
    by (cases rule: ensureConnected_cases) (auto simp: lostOK_def conn_defs)
next
  case (dial_received s a r)
  then show ?case by (cases r) (auto simp: arriveOK_def lostOK_def conn_defs)
next
  case (late_arrival s a r)
  then show ?case by (cases r) (auto simp: arriveOK_def lostOK_def conn_defs)
qed (auto simp: lostOK_def conn_defs split: if_splits option.splits sum.splits)

lemma waiting_leaves: "i < length cs \<Longrightarrow> cs ! i = Waiting a \<Longrightarrow>
  length (filter (\<lambda>c. c = Waiting b) cs) = length (filter (\<lambda>c. c = Waiting b) (cs[i := Answered e])) + (if b = a then 1 else 0)"
  by (induction cs arbitrary: i) (auto split: nat.splits simp: nth_Cons)

lemma waiting_none: "flightOK s \<Longrightarrow> cs_started s \<le> a \<Longrightarrow> waiting s a = 0"
  by (fastforce simp: flightOK_def waiting_def filter_empty_conv)

lemma wait_step: "conn_step s s' \<Longrightarrow> flightOK s \<Longrightarrow> waitOK s \<Longrightarrow> waitOK s'"
proof (induction rule: conn_step.induct)
  case (attempt a s s')
  from attempt.hyps(2) attempt.prems show ?case by cases (auto simp: waitOK_def waiting_def conn_defs)
next
  case (call_enters up s c s1)
  from call_enters.hyps show ?case
  proof (cases rule: ensureConnected_cases)
    case dials
    then show ?thesis using waiting_none [OF call_enters.prems(1), of "cs_started s"] by (auto simp: waitOK_def waiting_def conn_defs)
  qed (use call_enters.prems(2) in \<open>auto simp: waitOK_def waiting_def\<close>)
next
  case (call_gives_up i s a e)
  note left = waiting_leaves [OF call_gives_up.hyps(1,2)]
  show ?case using call_gives_up.prems(2) left [of a "Some (WrapErr ''libvirt: connecting'' [] (Sentinel e))"]
      left [of "the (cs_dial s)" "Some (WrapErr ''libvirt: connecting'' [] (Sentinel e))"]
    by (auto simp: waitOK_def waiting_def conn_defs split: if_splits)
next
  case (call_answered i s a)
  have "cs_dial s \<noteq> Some a" using call_answered by (auto simp: flightOK_def)
  then show ?case using call_answered.prems(2) waiting_leaves [OF call_answered.hyps(1,2), of "the (cs_dial s)" "attemptOutcome (cs_attempts s a)"]
    by (auto simp: waitOK_def waiting_def)
qed (auto simp: waitOK_def waiting_def conn_defs split: if_splits option.splits sum.splits)

lemma client_step: "conn_step s s' \<Longrightarrow> flightOK s \<Longrightarrow> clientOK s \<Longrightarrow> clientOK s'"
proof (induction rule: conn_step.induct)
  case (attempt a s s')
  from attempt.hyps(2) show ?case
  proof cases
    case (finish e)
    have "cs_started s = a + 1" using finish attempt.prems(1) by (simp add: flightOK_def)
    then show ?thesis using finish attempt.prems(2) by (auto simp: clientOK_def conn_defs)
  qed (use attempt.prems(2) in \<open>auto simp: clientOK_def conn_defs\<close>)
next
  case (call_enters up s c s1)
  from call_enters.hyps call_enters.prems(2) show ?case
    by (cases rule: ensureConnected_cases) (auto simp: clientOK_def conn_defs less_Suc_eq)
qed (auto simp: clientOK_def conn_defs split: if_splits option.splits sum.splits)

section \<open>Every reachable state has them\<close>

definition connOK :: "connState \<Rightarrow> bool" where
  "connOK s \<longleftrightarrow> flightOK s \<and> chanOK s \<and> dialerOK s \<and> socketsOK s \<and> arriveOK s \<and> lostOK s \<and> waitOK s \<and> clientOK s"

lemma newConn_ok: "connOK newConn"
  by (simp add: connOK_def flightOK_def chanOK_def dialerOK_def socketsOK_def arriveOK_def lostOK_def waitOK_def clientOK_def newConn_def freshAttempt_def)

lemma connOK_step: "conn_step s s' \<Longrightarrow> connOK s \<Longrightarrow> connOK s'"
  unfolding connOK_def by (blast intro: flight_step chan_step dialer_step sockets_step arrive_step lost_step wait_step client_step)

lemma reachable_connOK: "connReachable s \<Longrightarrow> connOK s"
  by (induction rule: connReachable.induct) (auto intro: newConn_ok connOK_step)

lemmas reachable_parts = reachable_connOK [unfolded connOK_def]

end
