(* ===== verification/Conn_Props.thy ===== *)
theory Conn_Props
  imports Conn_Inv
begin

text \<open>
  What the connection of the libvirt backend promises in every state it can reach: one attempt at a time
  that nobody holds open once its callers left, no socket forgotten, no dead socket used once it is known
  to be, and nothing reconnected after \<^verbatim>\<open>Close\<close>.
\<close>

section \<open>Attempts that were given up\<close>

fun phaseRank :: "attemptPhase \<Rightarrow> nat" where
  "phaseRank Starting = 4"
| "phaseRank Selecting = 3"
| "phaseRank (Handshaking _) = 3"
| "phaseRank (Connected _) = 2"
| "phaseRank (Settling _) = 1"
| "phaseRank Settled = 0"

lemma attempt_step_rank: "attempt_step a s s' \<Longrightarrow> phaseRank (phaseOf s' a) < phaseRank (phaseOf s a)"
  by (induction rule: attempt_step.induct) (auto simp: conn_defs)

lemma attempt_steps_rank: "(attempt_step a ^^ n) s s' \<Longrightarrow> phaseRank (phaseOf s' a) + n \<le> phaseRank (phaseOf s a)"
proof (induction n arbitrary: s')
  case (Suc n)
  then obtain t where "(attempt_step a ^^ n) s t" "attempt_step a t s'" by auto
  with Suc.IH [of t] attempt_step_rank [of a t s'] show ?case by simp
qed simp

lemma phaseRank_le: "phaseRank ph \<le> 4"
  by (cases ph) simp_all

lemma attempt_step_keeps: "attempt_step a s s' \<Longrightarrow> cs_started s' = cs_started s \<and> td_abandoned (cs_dialer s') = td_abandoned (cs_dialer s)"
  by (induction rule: attempt_step.induct) (auto simp: conn_defs)

lemma attempt_steps_keep:
  "(attempt_step a ^^ n) s s' \<Longrightarrow> connReachable s \<Longrightarrow> a < cs_started s \<Longrightarrow>
     connReachable s' \<and> cs_started s' = cs_started s \<and> td_abandoned (cs_dialer s') = td_abandoned (cs_dialer s)"
proof (induction n arbitrary: s')
  case (Suc n)
  then obtain t where t: "(attempt_step a ^^ n) s t" "attempt_step a t s'" by auto
  with Suc.IH [of t] Suc.prems attempt_step_keeps [OF t(2)] show ?case by (metis conn_next attempt)
qed simp

lemma abandoned_enabled:
  assumes "connReachable s" and "td_abandoned (cs_dialer s)" and "phaseOf s a \<noteq> Settled"
  shows "\<exists>t. attempt_step a s t"
proof (cases "phaseOf s a")
  case Selecting
  with assms have "da_ch (cs_attempts s a) \<in> cs_closedChs s" using reachable_parts [of s] by (auto simp: chanOK_def)
  with Selecting show ?thesis by (blast intro: dial_abandoned)
qed (use assms in \<open>blast intro: dial_start handshake_fails finish settle\<close>)+

lemma abandoned_socket_dead:
  "connReachable s \<Longrightarrow> td_abandoned (cs_dialer s) \<Longrightarrow> phaseOf s a = Handshaking c \<Longrightarrow> c \<in> cs_dead s \<and> c \<in> cs_closing s \<union> cs_shut s"
  using reachable_parts [of s] unfolding dialerOK_def by auto blast

lemma settled_not_dialling: "connReachable s \<Longrightarrow> cs_started s = a + 1 \<Longrightarrow> phaseOf s a = Settled \<Longrightarrow> cs_dial s = None"
  using reachable_parts [of s] unfolding flightOK_def by (metis add_right_cancel busy_simps(6) not_None_eq)

section \<open>After Close\<close>

lemma closed_step: "conn_step s s' \<Longrightarrow> cs_closed s \<Longrightarrow> cs_closed s' \<and> cs_client s' = cs_client s \<and> cs_started s' = cs_started s"
proof (induction rule: conn_step.induct)
  case (attempt a s s')
  from attempt.hyps(2) attempt.prems show ?case by cases (auto simp: conn_defs)
qed (auto simp: ensureConnected_def conn_defs split: sum.splits)

text \<open>An attempt that connected by the time of the close, and what becomes of it.\<close>

definition dropped :: "nat \<Rightarrow> connState \<Rightarrow> bool" where
  "dropped a s \<longleftrightarrow> phaseOf s a = Connected None
     \<or> cs_dial s = None \<and> da_err (cs_attempts s a) = Some (Sentinel ErrProviderClosed)
         \<and> (phaseOf s a = Settling True \<or> phaseOf s a = Settled \<and> td_conn (cs_dialer s) = None)"

lemma dropped_step: "conn_step s s' \<Longrightarrow> flightOK s \<Longrightarrow> cs_closed s \<Longrightarrow> a < cs_started s \<Longrightarrow> dropped a s \<Longrightarrow> dropped a s'"
proof (induction rule: conn_step.induct)
  case (attempt b s s')
  from attempt.hyps(2) show ?case
    by cases (use attempt.prems in \<open>auto simp: dropped_def conn_defs flightOK_def\<close>)
next
  case (dial_received s b r)
  have "cs_dial s = Some b" "b \<noteq> a \<or> phaseOf s a \<noteq> Connected None"
    using dial_received.hyps(1) flight_unique [OF dial_received.prems(1), of b] by auto
  with dial_received.prems dial_received.hyps(1) show ?case by (auto simp: dropped_def conn_defs split: sum.splits)
qed (auto simp: dropped_def ensureConnected_def conn_defs split: sum.splits)

lemma closed_run:
  assumes "conn_step\<^sup>*\<^sup>* s s'" and "connReachable s" and "cs_closed s"
  shows "connReachable s' \<and> cs_closed s' \<and> cs_client s' = cs_client s \<and> cs_started s' = cs_started s
    \<and> (a < cs_started s \<and> dropped a s \<longrightarrow> dropped a s')"
  using assms
proof (induction rule: rtranclp_induct)
  case (step t u)
  then have t: "connReachable t" "cs_closed t" "cs_client t = cs_client s" "cs_started t = cs_started s"
    "a < cs_started s \<and> dropped a s \<longrightarrow> dropped a t" by simp_all
  with step.hyps(2) closed_step [OF step.hyps(2)] dropped_step [OF step.hyps(2), of a] reachable_parts [OF t(1)]
  show ?case by (auto intro: conn_next)
qed simp

lemma in_flight_started: "connReachable s \<Longrightarrow> busy (phaseOf s a) \<Longrightarrow> cs_dial s = Some a \<and> cs_started s = a + 1"
  using reachable_parts [of s] by (auto simp: flightOK_def)

section \<open>Runs\<close>

text \<open>
  A call that finds the first connection lost begins attempt 0. Either its caller leaves at once, or after
  the dial started and the socket then comes late, or the attempt connects while the provider is closed.
\<close>

definition oneDial :: connState where
  "oneDial = (let (c, s) = ensureConnected False newConn in s\<lparr>cs_callers := cs_callers s @ [c]\<rparr>)"

definition callLeaves :: "connState \<Rightarrow> connState" where
  "callLeaves s = (abandonDial 0 s)\<lparr>cs_callers := (cs_callers s)[0 := Answered (Some (WrapErr ''libvirt: connecting'' [] (Sentinel ContextCanceled)))]\<rparr>"

definition socketOpens :: "connState \<Rightarrow> connState" where
  "socketOpens s = (setAttempt 0 ((cs_attempts s 0)\<lparr>da_inner := InnerDone (Inr (cs_opened s))\<rparr>) s)\<lparr>cs_opened := cs_opened s + 1\<rparr>"

definition lateSocket :: connState where
  "lateSocket = socketOpens (dialGivenUp 0 (Sentinel ErrDialAbandoned) (callLeaves (dialStart 0 oneDial)))"

definition closedMidway :: connState where
  "closedMidway = markClosed (returning 0 None (dialReceived 0 (Inr 1) (socketOpens (dialStart 0 oneDial))))"

lemmas run_defs = oneDial_def callLeaves_def socketOpens_def lateSocket_def closedMidway_def newConn_def ensureConnected_def socketLost_def conn_defs

lemma oneDial_reachable: "connReachable oneDial"
  unfolding oneDial_def by (cases "ensureConnected False newConn") (auto intro: conn_next conn_init call_enters)

lemma dialStarted_reachable: "connReachable (dialStart 0 oneDial)"
  by (rule conn_next [OF oneDial_reachable attempt [OF _ dial_start]]) (simp_all add: run_defs)

lemma callLeaves_reachable: "connReachable s \<Longrightarrow> cs_callers s = [Waiting 0] \<Longrightarrow> connReachable (callLeaves s)"
  unfolding callLeaves_def by (rule conn_next [OF _ call_gives_up]) auto

lemma lateSocket_reachable: "connReachable lateSocket"
proof -
  have "connReachable (callLeaves (dialStart 0 oneDial))"
    by (rule callLeaves_reachable [OF dialStarted_reachable]) (simp add: run_defs)
  then have "connReachable (dialGivenUp 0 (Sentinel ErrDialAbandoned) (callLeaves (dialStart 0 oneDial)))"
    by (rule conn_next [OF _ attempt [OF _ dial_abandoned]]) (simp_all add: run_defs)
  then show ?thesis unfolding lateSocket_def socketOpens_def
    by (rule conn_next [OF _ inner_opens]) (simp_all add: run_defs)
qed

lemma closedMidway_reachable: "connReachable closedMidway"
proof -
  let ?t = "socketOpens (dialStart 0 oneDial)"
  have "connReachable ?t" unfolding socketOpens_def
    by (rule conn_next [OF dialStarted_reachable inner_opens]) (simp_all add: run_defs)
  then have "connReachable (dialReceived 0 (Inr 1) ?t)"
    by (rule conn_next [OF _ dial_received]) (simp_all add: run_defs)
  then have "connReachable (returning 0 None (dialReceived 0 (Inr 1) ?t))"
    by (rule conn_next [OF _ handshake_done [of _ _ 1]]) (simp_all add: run_defs)
  then show ?thesis unfolding closedMidway_def by (rule conn_next [OF _ provider_closed])
qed

section \<open>Properties\<close>

text \<open>
  C31: One reconnect at a time. An attempt whose goroutine has not finished is the one in flight and the
  latest; its waiter count is the number of calls waiting for it; with nobody waiting it is abandoned.
\<close>

theorem conn_one_attempt:
  assumes "connReachable s" and "busy (phaseOf s a)"
  shows "cs_dial s = Some a \<and> cs_started s = a + 1 \<and> da_waiters (cs_attempts s a) = int (waiting s a)
    \<and> (waiting s a = 0 \<longrightarrow> td_abandoned (cs_dialer s))"
proof -
  from in_flight_started [OF assms] have "cs_dial s = Some a" "cs_started s = a + 1" by auto
  then show ?thesis using reachable_parts [OF assms(1)] by (auto simp: waitOK_def)
qed

theorem conn_one_attempt_witness:
  "phaseOf (callLeaves oneDial) 0 = Starting \<and> waiting (callLeaves oneDial) 0 = 0 \<and> cs_dial (callLeaves oneDial) = Some 0
     \<and> td_abandoned (cs_dialer (callLeaves oneDial))"
proof -
  have r: "connReachable (callLeaves oneDial)" by (rule callLeaves_reachable [OF oneDial_reachable]) (simp add: run_defs)
  have p: "phaseOf (callLeaves oneDial) 0 = Starting" "waiting (callLeaves oneDial) 0 = 0" by (simp_all add: run_defs waiting_def)
  show ?thesis using conn_one_attempt [OF r, of 0] p by simp
qed

text \<open>
  C32: No socket is forgotten. Whatever callers, timers, the daemon and \<^verbatim>\<open>Close\<close> do, a socket a dial
  opened is closed, being closed, the one the dialer keeps and can force-close, or on its way to a dial
  that will take it or close it on arrival.
\<close>

theorem conn_sockets_accounted:
  assumes "connReachable s" and "c < cs_opened s"
  shows "c \<in> cs_shut s \<or> c \<in> cs_closing s \<or> td_conn (cs_dialer s) = Some c
    \<or> (\<exists>a. innerOf s a = InnerDone (Inr c) \<and> (phaseOf s a = Selecting \<or> da_late (cs_attempts s a)))"
proof -
  have s: "socketsOK s" using reachable_parts [OF assms(1)] by simp
  with assms(2) consider "c \<in> cs_shut s" | "c \<in> cs_closing s" | "td_conn (cs_dialer s) = Some c" | a where "innerOf s a = InnerDone (Inr c)"
    unfolding socketsOK_def by blast
  then show ?thesis
  proof cases
    case 4
    with s have "phaseOf s a = Selecting \<or> da_late (cs_attempts s a)" by (auto simp: socketsOK_def)
    with 4 show ?thesis by blast
  qed simp_all
qed

theorem conn_sockets_accounted_witness:
  "1 < cs_opened lateSocket \<and> (\<exists>a. innerOf lateSocket a = InnerDone (Inr 1) \<and> (phaseOf lateSocket a = Selecting \<or> da_late (cs_attempts lateSocket a)))"
proof -
  have "1 < cs_opened lateSocket" "1 \<notin> cs_shut lateSocket" "1 \<notin> cs_closing lateSocket" "td_conn (cs_dialer lateSocket) = None"
    by (simp_all add: run_defs)
  with conn_sockets_accounted [OF lateSocket_reachable, of 1] show ?thesis by simp
qed

text \<open>
  C33: A call that is answered at once is let through only with no reconnect in flight, when the client
  says it is connected, and over a socket that is the registered one, handed to a client, not dead, not
  closed and not being closed. A call that waited for a reconnect is let through only when that attempt
  succeeded and its client, or a later one, was installed; its socket may have been closed meanwhile. But
  a socket that is gone is not used twice: once none is registered or the registered one is dead, closed
  or being closed, the next call begins a reconnect, whatever the client says of itself.
\<close>

theorem conn_lets_through_open:
  assumes "connReachable s"
  shows "(ensureConnected up s = (Answered None, s') \<longrightarrow> s' = s \<and> up \<and> \<not> cs_closed s \<and> cs_dial s = None
      \<and> (\<exists>c. td_conn (cs_dialer s) = Some c \<and> c \<in> cs_handed s - (cs_dead s \<union> cs_closing s \<union> cs_shut s)))
    \<and> (Waiting a \<in> set (cs_callers s) \<and> phaseOf s a = Settled \<and> attemptOutcome (cs_attempts s a) = None
        \<longrightarrow> a + 1 \<le> cs_client s)
    \<and> (\<not> cs_closed s \<and> cs_dial s = None \<and> set_option (td_conn (cs_dialer s)) \<subseteq> cs_dead s \<union> cs_closing s \<union> cs_shut s
        \<longrightarrow> (\<exists>t. ensureConnected up s = (Waiting (cs_started s), t) \<and> cs_dial t = Some (cs_started s)
              \<and> phaseOf t (cs_started s) = Starting))"
proof -
  have "lostOK s" and fl: "flightOK s" and cl: "clientOK s" using reachable_parts [OF assms] by simp_all
  then obtain c where c: "td_last (cs_dialer s) = Some c" "c \<in> cs_handed s"
      "td_conn (cs_dialer s) = Some c \<or> td_conn (cs_dialer s) = None \<and> c \<in> cs_dead s"
    and closing: "\<forall>c\<in>cs_handed s. c \<in> cs_closing s \<union> cs_shut s \<longrightarrow> c \<in> cs_dead s" unfolding lostOK_def by blast
  have 1: "s' = s \<and> up \<and> \<not> cs_closed s \<and> cs_dial s = None
      \<and> (\<exists>c. td_conn (cs_dialer s) = Some c \<and> c \<in> cs_handed s - (cs_dead s \<union> cs_closing s \<union> cs_shut s))"
    if "ensureConnected up s = (Answered None, s')"
    using that
  proof (cases rule: ensureConnected_cases)
    case connected
    then have "c \<notin> cs_dead s" using c by (simp add: socketLost_def)
    with c closing connected show ?thesis by blast
  qed simp_all
  have 2: "a + 1 \<le> cs_client s"
    if "Waiting a \<in> set (cs_callers s)" "phaseOf s a = Settled" "attemptOutcome (cs_attempts s a) = None"
    using that fl cl by (simp add: flightOK_def clientOK_def attemptOutcome_def)
  have 3: "\<exists>t. ensureConnected up s = (Waiting (cs_started s), t) \<and> cs_dial t = Some (cs_started s) \<and> phaseOf t (cs_started s) = Starting"
    if free: "\<not> cs_closed s" "cs_dial s = None" and gone: "set_option (td_conn (cs_dialer s)) \<subseteq> cs_dead s \<union> cs_closing s \<union> cs_shut s"
  proof -
    have "c \<in> cs_dead s" using c closing gone by auto
    then have lost: "socketLost s" using c(1) by (simp add: socketLost_def)
    obtain x t where e: "ensureConnected up s = (x, t)" by fastforce
    then have "x = Waiting (cs_started s) \<and> t = begun s"
      by (cases rule: ensureConnected_cases) (use free lost in auto)
    with e show ?thesis by (simp add: begun_def freshAttempt_def)
  qed
  show ?thesis using 1 2 3 by blast
qed

text \<open>The first connection lets a call through; recycled, it makes the next one reconnect.\<close>

theorem conn_lets_through_open_witness:
  "ensureConnected True newConn = (Answered None, newConn) \<and> (\<exists>c. td_conn (cs_dialer newConn) = Some c \<and> c \<notin> cs_dead newConn)
   \<and> (\<exists>t. ensureConnected True (forceClose newConn) = (Waiting 0, t) \<and> cs_dial t = Some 0)"
proof -
  have e: "ensureConnected True newConn = (Answered None, newConn)" by (simp add: run_defs)
  have r: "connReachable (forceClose newConn)" by (rule conn_next [OF conn_init recycled])
  have g: "\<not> cs_closed (forceClose newConn)" "cs_dial (forceClose newConn) = None"
    "set_option (td_conn (cs_dialer (forceClose newConn))) = {}" "cs_started (forceClose newConn) = 0" by (simp_all add: run_defs)
  have "\<exists>c. td_conn (cs_dialer newConn) = Some c \<and> c \<notin> cs_dead newConn"
    using conn_lets_through_open [OF conn_init, of True newConn] e by blast
  moreover have "\<exists>t. ensureConnected True (forceClose newConn) = (Waiting 0, t) \<and> cs_dial t = Some 0"
    using conn_lets_through_open [OF r, of True] g by auto
  ultimately show ?thesis using e by blast
qed

text \<open>
  C34: An attempt that was given up ends. Its goroutine takes at most four more steps of its own and is stuck
  only when it has finished, with the connection free for the next attempt; it needs neither the inner dial
  nor the daemon, since a socket it is still shaking hands over is dead and being closed.
\<close>

theorem conn_abandoned_ends:
  assumes "connReachable s" and "cs_dial s = Some a" and "td_abandoned (cs_dialer s)" and "(attempt_step a ^^ n) s s'"
  shows "n \<le> 4 \<and> ((\<nexists>t. attempt_step a s' t) \<longrightarrow> phaseOf s' a = Settled \<and> cs_dial s' = None)
    \<and> (\<forall>c. phaseOf s' a = Handshaking c \<longrightarrow> c \<in> cs_dead s' \<and> c \<in> cs_closing s' \<union> cs_shut s')"
proof -
  have st: "cs_started s = a + 1" using assms(2) reachable_parts [OF assms(1)] by (simp add: flightOK_def)
  note kept = attempt_steps_keep [OF assms(4,1)]
  have "n \<le> 4" using attempt_steps_rank [OF assms(4)] phaseRank_le [of "phaseOf s a"] by simp
  moreover have "(\<nexists>t. attempt_step a s' t) \<longrightarrow> phaseOf s' a = Settled \<and> cs_dial s' = None"
    using kept st assms(3) abandoned_enabled [of s' a] settled_not_dialling [of s' a] by auto
  ultimately show ?thesis using kept st assms(3) abandoned_socket_dead [of s' a] by simp
qed

theorem conn_abandoned_ends_witness:
  "(attempt_step 0 ^^ 3) (callLeaves oneDial)
       (settleAttempt 0 False (finishAttempt 0 (Some (Sentinel ErrDialAbandoned)) (dialStart 0 (callLeaves oneDial))))
   \<and> cs_dial (settleAttempt 0 False (finishAttempt 0 (Some (Sentinel ErrDialAbandoned)) (dialStart 0 (callLeaves oneDial)))) = None"
proof -
  let ?s = "callLeaves oneDial" and ?u = "finishAttempt 0 (Some (Sentinel ErrDialAbandoned)) (dialStart 0 (callLeaves oneDial))"
  have r: "connReachable ?s" by (rule callLeaves_reachable [OF oneDial_reachable]) (simp add: run_defs)
  have steps: "attempt_step 0 ?s (dialStart 0 ?s)" "attempt_step 0 (dialStart 0 ?s) ?u" "attempt_step 0 ?u (settleAttempt 0 False ?u)"
    by (rule dial_start finish settle; simp add: run_defs)+
  then have run: "(attempt_step 0 ^^ 3) ?s (settleAttempt 0 False ?u)" by (auto simp: numeral_3_eq_3)
  have "\<nexists>t. attempt_step 0 (settleAttempt 0 False ?u) t" by (auto simp: attempt_step.simps settleAttempt_def Let_def)
  moreover have "cs_dial ?s = Some 0" "td_abandoned (cs_dialer ?s)" by (simp_all add: run_defs)
  ultimately show ?thesis using conn_abandoned_ends [OF r _ _ run] run by simp
qed

text \<open>
  C35: A closed provider stays closed. Whatever still runs, no client is installed and no attempt begun, every
  call is told so, and a reconnect that succeeds after the close fails its callers and has its socket dropped
  before they hear of it.
\<close>

theorem conn_closed_for_good:
  assumes "connReachable s" and "cs_closed s" and "conn_step\<^sup>*\<^sup>* s s'"
  shows "cs_client s' = cs_client s \<and> cs_started s' = cs_started s
    \<and> ensureConnected up s' = (Answered (Some (Sentinel ErrProviderClosed)), s')
    \<and> (phaseOf s a = Connected None \<and> phaseOf s' a = Settled \<longrightarrow>
         attemptOutcome (cs_attempts s' a) = Some (WrapErr ''libvirt: reconnecting'' [] (Sentinel ErrProviderClosed))
         \<and> td_conn (cs_dialer s') = None)"
proof -
  note run = closed_run [OF assms(3,1,2), of a]
  have "phaseOf s a = Connected None \<Longrightarrow> a < cs_started s" using in_flight_started [OF assms(1), of a] by simp
  with run show ?thesis by (auto simp: ensureConnected_def dropped_def attemptOutcome_def)
qed

theorem conn_closed_for_good_witness:
  "cs_client (settleAttempt 0 True (finishAttempt 0 None closedMidway)) = 0
   \<and> attemptOutcome (cs_attempts (settleAttempt 0 True (finishAttempt 0 None closedMidway)) 0)
       = Some (WrapErr ''libvirt: reconnecting'' [] (Sentinel ErrProviderClosed))
   \<and> td_conn (cs_dialer (settleAttempt 0 True (finishAttempt 0 None closedMidway))) = None"
proof -
  let ?f = "finishAttempt 0 None closedMidway"
  have "conn_step closedMidway ?f" by (rule attempt [OF _ finish]) (simp_all add: run_defs)
  moreover have "conn_step ?f (settleAttempt 0 True ?f)" by (rule attempt [OF _ settle]) (simp_all add: run_defs)
  ultimately have run: "conn_step\<^sup>*\<^sup>* closedMidway (settleAttempt 0 True ?f)" by (rule converse_rtranclp_into_rtranclp [OF _ r_into_rtranclp])
  have at: "cs_closed closedMidway" "phaseOf closedMidway 0 = Connected None" "cs_client closedMidway = 0" by (simp_all add: run_defs)
  have "phaseOf (settleAttempt 0 True ?f) 0 = Settled" by (simp add: settleAttempt_def Let_def)
  then show ?thesis using conn_closed_for_good [OF closedMidway_reachable at(1) run, of _ 0] at by simp
qed

end
