(* ===== verification/Libvirt_Dial.thy ===== *)
theory Libvirt_Dial
  imports Libvirt_Provider Hypervisor_Ref
begin

text \<open>
  How the libvirt backend reaches a daemon: \<^verbatim>\<open>libvirt/dial.go\<close> (which transport a configuration
  means), \<^verbatim>\<open>libvirt/tlsdial.go\<close> (the TLS dialer and where its certificates come from), and \<^verbatim>\<open>Config\<close>
  and \<^verbatim>\<open>New\<close> of \<^verbatim>\<open>libvirt/libvirt.go\<close>. go-libvirt's own dialers are third-party code: a constructor
  records what they were given. What the network answers to the steps of a TLS dial is a parameter,
  and the dial leaves a trace of what it did to the socket. Durations are nanoseconds.
\<close>

section \<open>Configuration\<close>

record Config =
  cfg_uri :: string
  cfg_remoteAddr :: string
  cfg_insecure :: bool
  cfg_pkiPath :: string
  cfg_credentials :: "TLSCredentials option"
  cfg_storagePool :: string
  cfg_baseImage :: string
  cfg_dialTimeout :: int
  cfg_rpcTimeout :: int

definition defaultTLSPort :: string where "defaultTLSPort = ''16514''"
definition defaultTCPPort :: string where "defaultTCPPort = ''16509''"
definition defaultRPCTimeout :: int where "defaultRPCTimeout = 30 * 10 ^ 9"
definition defaultConnectTimeout :: int where "defaultConnectTimeout = 10 * 10 ^ 9"
definition tlsVerificationOK :: "8 word" where "tlsVerificationOK = 1"

definition splitRemoteAddr :: "string \<Rightarrow> goerr + (string \<times> string)" where
  "splitRemoteAddr addr =
     (if addr = [] then Inl (NewErr ''libvirt: remote address is empty'' [])
      else case SplitHostPort addr of
        Some (host, port) \<Rightarrow> Inr (host, port)
      | None \<Rightarrow>
          let inner = butlast (tl addr)
          in if length addr \<ge> 2 \<and> hd addr = CHR ''['' \<and> last addr = CHR '']'' \<and> ParseIP inner \<noteq> None
             then Inr (inner, [])
             else if ParseIP addr \<noteq> None \<or> CHR '':'' \<notin> set addr then Inr (addr, [])
             else Inl (NewErr ''libvirt: remote address is not host or host:port'' [addr]))"

text \<open>\<^verbatim>\<open>Config.Hypervisor\<close>: the label of the endpoint.\<close>

definition configHypervisor :: "Config \<Rightarrow> string" where
  "configHypervisor c =
     (if cfg_remoteAddr c = [] then ''local''
      else case splitRemoteAddr (cfg_remoteAddr c) of
        Inl e \<Rightarrow> cfg_remoteAddr c
      | Inr (host, port) \<Rightarrow>
          JoinHostPort host (if port = [] then (if cfg_insecure c then defaultTCPPort else defaultTLSPort) else port))"

section \<open>The TLS dialer\<close>

text \<open>A parsed key pair is its certificate and key, a certificate pool the PEM it was read from.\<close>

record tlsDialer =
  tls_host :: string
  tls_port :: string
  tls_timeout :: int
  tls_certDirs :: "(string \<times> string) list"
  tls_caDirs :: "string list"
  tls_cert :: "(bytes \<times> bytes) option"
  tls_roots :: "bytes option"

text \<open>What a dial asks of the host it runs on: files, and the user with id and home directory.\<close>

record hostEnv =
  he_readFile :: "string \<Rightarrow> bytes option"
  he_currentUser :: "(string \<times> string) option"

text \<open>\<^verbatim>\<open>filepath.Join\<close>.\<close>

definition joinPath :: "string list \<Rightarrow> string" where
  "joinPath es = (case dropWhile (\<lambda>e. e = []) es of [] \<Rightarrow> [] | fs \<Rightarrow> cleanPath (joinStrings ''/'' fs))"

definition newTLSDialer :: "hostEnv \<Rightarrow> string \<Rightarrow> string \<Rightarrow> string \<Rightarrow> int \<Rightarrow> tlsDialer" where
  "newTLSDialer h host port pkiPath timeout =
     (let d = \<lparr>tls_host = host, tls_port = (if port = [] then defaultTLSPort else port),
                tls_timeout = (if timeout \<le> 0 then defaultConnectTimeout else timeout),
                tls_certDirs = [(''/etc/pki/libvirt/'', ''/etc/pki/libvirt/private/'')],
                tls_caDirs = [''/etc/pki/CA/''], tls_cert = None, tls_roots = None\<rparr>
      in if pkiPath \<noteq> [] then d\<lparr>tls_certDirs := [(pkiPath, pkiPath)], tls_caDirs := [pkiPath]\<rparr>
         else case he_currentUser h of
           None \<Rightarrow> d
         | Some (uid, homeDir) \<Rightarrow>
             if uid \<noteq> ''0'' \<and> homeDir \<noteq> [] then
               let home = joinPath [homeDir, ''.pki'', ''libvirt'']
               in d\<lparr>tls_certDirs := (home, home) # tls_certDirs d, tls_caDirs := home # tls_caDirs d\<rparr>
             else d)"

definition newTLSDialerWithCredentials ::
  "lib \<Rightarrow> hostEnv \<Rightarrow> string \<Rightarrow> string \<Rightarrow> TLSCredentials \<Rightarrow> int \<Rightarrow> goerr + tlsDialer" where
  "newTLSDialerWithCredentials L h host port creds timeout =
     (if \<not> x509KeyPairOK L (clientCert creds) (clientKey creds)
      then Inl (NewErr ''libvirt: invalid TLS client certificate or key'' [])
      else if \<not> appendCertsFromPEM L (caCert creds)
      then Inl (NewErr ''libvirt: the TLS CA certificate contains no PEM certificate'' [])
      else Inr ((newTLSDialer h host port [] timeout)
             \<lparr>tls_certDirs := [], tls_caDirs := [], tls_cert := Some (clientCert creds, clientKey creds), tls_roots := Some (caCert creds)\<rparr>))"

text \<open>The loops over the directories keep the files that could not be read.\<close>

fun clientCertFrom :: "lib \<Rightarrow> hostEnv \<Rightarrow> string list \<Rightarrow> (string \<times> string) list \<Rightarrow> goerr + (bytes \<times> bytes)" where
  "clientCertFrom L h errs [] = Inl (NewErr ''libvirt: no TLS client certificate found'' errs)"
| "clientCertFrom L h errs ((certPath, keyPath) # dirs) =
     (case he_readFile h (joinPath [certPath, ''clientcert.pem'']) of
        None \<Rightarrow> clientCertFrom L h (errs @ [''reading TLS client certificate'']) dirs
      | Some certPEM \<Rightarrow>
          (case he_readFile h (joinPath [keyPath, ''clientkey.pem'']) of
             None \<Rightarrow> clientCertFrom L h (errs @ [''reading TLS client key'']) dirs
           | Some keyPEM \<Rightarrow>
               if x509KeyPairOK L certPEM keyPEM then Inr (certPEM, keyPEM)
               else Inl (NewErr ''libvirt: invalid TLS client certificate'' [certPath])))"

definition clientCertOf :: "lib \<Rightarrow> hostEnv \<Rightarrow> tlsDialer \<Rightarrow> goerr + (bytes \<times> bytes)" where
  "clientCertOf L h d = clientCertFrom L h [] (tls_certDirs d)"

fun caPoolFrom :: "lib \<Rightarrow> hostEnv \<Rightarrow> string list \<Rightarrow> string list \<Rightarrow> goerr + bytes" where
  "caPoolFrom L h errs [] = Inl (NewErr ''libvirt: no TLS CA certificate found'' errs)"
| "caPoolFrom L h errs (dir # dirs) =
     (let path = joinPath [dir, ''cacert.pem''] in
      case he_readFile h path of
        None \<Rightarrow> caPoolFrom L h (errs @ [''reading TLS CA certificate'']) dirs
      | Some caPEM \<Rightarrow>
          if appendCertsFromPEM L caPEM then Inr caPEM else Inl (NewErr ''libvirt: contains no PEM certificate'' [path]))"

definition caPool :: "lib \<Rightarrow> hostEnv \<Rightarrow> tlsDialer \<Rightarrow> goerr + bytes" where
  "caPool L h d = caPoolFrom L h [] (tls_caDirs d)"

datatype tlsVersion = VersionTLS12

record tlsConfig =
  tc_certificate :: "bytes \<times> bytes"
  tc_rootCAs :: "bytes option"
  tc_serverName :: string
  tc_minVersion :: tlsVersion

text \<open>\<^verbatim>\<open>config\<close>. A nil pool would be the roots of the system; the dialers made here have one or search for one.\<close>

definition tlsConfigOf :: "lib \<Rightarrow> hostEnv \<Rightarrow> tlsDialer \<Rightarrow> goerr + tlsConfig" where
  "tlsConfigOf L h d =
     (let conf = (\<lambda>cert roots. \<lparr>tc_certificate = cert, tc_rootCAs = roots, tc_serverName = tls_host d, tc_minVersion = VersionTLS12\<rparr>)
      in case tls_cert d of
        Some cert \<Rightarrow> Inr (conf cert (tls_roots d))
      | None \<Rightarrow>
          (case clientCertOf L h d of
             Inl e \<Rightarrow> Inl e
           | Inr c \<Rightarrow> (case caPool L h d of Inl e \<Rightarrow> Inl e | Inr pool \<Rightarrow> Inr (conf c (Some pool)))))"

text \<open>
  One dial: the answers of the network to its steps, and the trace of what was done. The connect and
  \<^verbatim>\<open>SetDeadline\<close> are given a point in time; \<open>None\<close> clears the deadline.
\<close>

record wire =
  wr_connect :: "goerr option"
  wr_setDeadline :: "goerr option"
  wr_handshake :: "tlsConfig \<Rightarrow> goerr option"
  wr_verdict :: "goerr + 8 word"
  wr_clearDeadline :: "goerr option"

datatype tlsEvent = Connect string int | SetDeadline "int option" | Handshake tlsConfig | ReadVerdict | CloseSocket

definition failClosed :: "string \<Rightarrow> string list \<Rightarrow> goerr \<Rightarrow> tlsEvent list \<Rightarrow> (goerr + unit) \<times> tlsEvent list" where
  "failClosed text as e tr = (Inl (WrapErr text as e), tr @ [CloseSocket])"

definition tlsDial :: "lib \<Rightarrow> hostEnv \<Rightarrow> wire \<Rightarrow> int \<Rightarrow> tlsDialer \<Rightarrow> (goerr + unit) \<times> tlsEvent list" where
  "tlsDial L h w now d =
     (case tlsConfigOf L h d of
        Inl e \<Rightarrow> (Inl e, [])
      | Inr conf \<Rightarrow>
          let deadline = now + tls_timeout d;
              addr = JoinHostPort (tls_host d) (tls_port d);
              t1 = [Connect addr deadline];
              t2 = t1 @ [SetDeadline (Some deadline)];
              t3 = t2 @ [Handshake conf];
              t4 = t3 @ [ReadVerdict];
              t5 = t4 @ [SetDeadline None]
          in case wr_connect w of
               Some e \<Rightarrow> (Inl (WrapErr ''libvirt: connecting'' [addr] e), t1)
             | None \<Rightarrow>
           (case wr_setDeadline w of
               Some e \<Rightarrow> failClosed ''libvirt: setting deadline'' [addr] e t2
             | None \<Rightarrow>
           (case wr_handshake w conf of
               Some e \<Rightarrow> failClosed ''libvirt: TLS handshake'' [addr] e t3
             | None \<Rightarrow>
           (case wr_verdict w of
               Inl e \<Rightarrow> failClosed ''libvirt: waiting to verify our client certificate'' [addr] e t4
             | Inr v \<Rightarrow>
               if v \<noteq> tlsVerificationOK
               then (Inl (NewErr ''libvirt: rejected our client certificate or address'' [addr]), t4 @ [CloseSocket])
               else (case wr_clearDeadline w of
                       Some e \<Rightarrow> failClosed ''libvirt: clearing deadline'' [addr] e t5
                     | None \<Rightarrow> (Inr (), t5))))))"

section \<open>Transports\<close>

datatype dialer = LocalDialer int | RemoteDialer string "string option" int | TLSDialer tlsDialer

definition newDialer :: "lib \<Rightarrow> hostEnv \<Rightarrow> Config \<Rightarrow> goerr + dialer" where
  "newDialer L h cfg =
     (if cfg_credentials cfg \<noteq> None \<and> (cfg_remoteAddr cfg = [] \<or> cfg_insecure cfg)
      then Inl (NewErr ''libvirt: TLS credentials were given for a connection that does not use TLS'' [])
      else if cfg_credentials cfg \<noteq> None \<and> cfg_pkiPath cfg \<noteq> []
      then Inl (NewErr ''libvirt: both TLS credentials and a PKI path were given; a connection takes one or the other'' [])
      else if cfg_remoteAddr cfg = [] then Inr (LocalDialer (cfg_dialTimeout cfg))
      else case splitRemoteAddr (cfg_remoteAddr cfg) of
        Inl e \<Rightarrow> Inl e
      | Inr (host, port) \<Rightarrow>
          if cfg_insecure cfg then Inr (RemoteDialer host (if port \<noteq> [] then Some port else None) (cfg_dialTimeout cfg))
          else case cfg_credentials cfg of
            Some creds \<Rightarrow> map_sum id TLSDialer (newTLSDialerWithCredentials L h host port creds (cfg_dialTimeout cfg))
          | None \<Rightarrow> Inr (TLSDialer (newTLSDialer h host port (cfg_pkiPath cfg) (cfg_dialTimeout cfg))))"

text \<open>
  \<^verbatim>\<open>New\<close>: what is connected to, and for how long. \<open>connect\<close> is go-libvirt's handshake over the tracking
  dialer with the bound of the context: its error, be it the context's or its own, or none.
\<close>

record dialledProvider =
  pr_cfg :: Config
  pr_uri :: string
  pr_dialer :: dialer
  pr_dialBound :: int

definition newProvider :: "lib \<Rightarrow> hostEnv \<Rightarrow> (dialer \<Rightarrow> int \<Rightarrow> string \<Rightarrow> goerr option) \<Rightarrow> Config \<Rightarrow> goerr + dialledProvider" where
  "newProvider L h connect cfg0 =
     (let cfg1 = (if cfg_dialTimeout cfg0 = 0 then cfg0\<lparr>cfg_dialTimeout := defaultConnectTimeout\<rparr> else cfg0);
          cfg = (if cfg_rpcTimeout cfg1 = 0 then cfg1\<lparr>cfg_rpcTimeout := defaultRPCTimeout\<rparr> else cfg1);
          bound = cfg_dialTimeout cfg + cfg_rpcTimeout cfg;
          uri = (if cfg_uri cfg \<noteq> [] then cfg_uri cfg else ''qemu:///system'')
      in case newDialer L h cfg of
           Inl e \<Rightarrow> Inl e
         | Inr d \<Rightarrow> (case connect d bound uri of
               Some e \<Rightarrow> Inl (WrapErr ''libvirt: connecting'' [uri] e)
             | None \<Rightarrow> Inr \<lparr>pr_cfg = cfg, pr_uri = uri, pr_dialer = d, pr_dialBound = bound\<rparr>))"

definition attemptLimit :: "dialledProvider \<Rightarrow> int" where
  "attemptLimit p =
     (let dial = cfg_dialTimeout (pr_cfg p); rpc = cfg_rpcTimeout (pr_cfg p)
      in (if dial = 0 then defaultConnectTimeout else dial) + (if rpc = 0 then defaultRPCTimeout else rpc))"

end
