(* ===== verification/Backend_Config.thy ===== *)
theory Backend_Config
  imports Libvirt_Dial
begin

text \<open>
  \<^verbatim>\<open>cmd/backendconfig.go\<close> and what \<^verbatim>\<open>cmd/main.go\<close> does with it: the settings of the backend from flags
  and the environment, the configuration of a hypervisor a cluster names, and which connection of the
  pool a reconciler is given. The environment is a function, empty where a variable is unset.
\<close>

definition defaultLocalSocket :: string where "defaultLocalSocket = ''/var/run/libvirt/libvirt-sock''"
definition unsetPlaceholder :: string where "unsetPlaceholder = ''<unset>''"
definition backendConfigMapName :: string where "backendConfigMapName = ''libvirt-config''"
definition legacyBackendConfigMapName :: string where
  "legacyBackendConfigMapName = ''cluster-api-provider-hydra-libvirt-config''"

definition envOr :: "(string \<Rightarrow> string) \<Rightarrow> string \<Rightarrow> string \<Rightarrow> string" where
  "envOr getenv name def = (if getenv name \<noteq> [] then getenv name else def)"

text \<open>\<^verbatim>\<open>strconv.ParseBool\<close>.\<close>

definition ParseBool :: "string \<Rightarrow> bool option" where
  "ParseBool s =
     (if s \<in> {''1'', ''t'', ''T'', ''true'', ''TRUE'', ''True''} then Some True
      else if s \<in> {''0'', ''f'', ''F'', ''false'', ''FALSE'', ''False''} then Some False
      else None)"

definition envBoolOr :: "(string \<Rightarrow> string) \<Rightarrow> string \<Rightarrow> bool \<Rightarrow> bool \<times> goerr option" where
  "envBoolOr getenv name def =
     (let v = getenv name in
      if v = [] then (def, None)
      else case ParseBool v of
        None \<Rightarrow> (def, Some (NewErr ''is not a boolean'' [name, v]))
      | Some b \<Rightarrow> (b, None))"

definition orUnset :: "string \<Rightarrow> string" where
  "orUnset s = (if s = [] then unsetPlaceholder else s)"

definition describeBackend :: "Config \<Rightarrow> (string \<times> string) list" where
  "describeBackend cfg =
     (let transport = (if cfg_remoteAddr cfg \<noteq> []
            then ''remote '' @ cfg_remoteAddr cfg @ (if cfg_insecure cfg then '' (plaintext TCP)'' else '' (TLS)'')
            else ''local socket '' @ defaultLocalSocket)
      in [(''transport'', transport), (''uri'', cfg_uri cfg), (''storagePool'', orUnset (cfg_storagePool cfg)),
          (''baseImage'', orUnset (cfg_baseImage cfg))])"

definition backendWarning :: "Config \<Rightarrow> bool \<Rightarrow> (string \<Rightarrow> bool) \<Rightarrow> goerr option" where
  "backendWarning cfg inCluster socketExists =
     (if cfg_remoteAddr cfg \<noteq> [] then None
      else if socketExists defaultLocalSocket then None
      else if inCluster
      then Some (NewErr ''no libvirt remote address is configured and the socket does not exist in this container''
             [defaultLocalSocket, backendConfigMapName, legacyBackendConfigMapName, backendConfigMapName])
      else Some (NewErr ''no libvirt remote address is configured and the socket does not exist'' [defaultLocalSocket]))"

definition runningInCluster :: "(string \<Rightarrow> string) \<Rightarrow> bool" where
  "runningInCluster getenv = (getenv ''KUBERNETES_SERVICE_HOST'' \<noteq> [])"

definition hypervisorConfig :: "Config \<Rightarrow> Hypervisor \<Rightarrow> Config \<times> string" where
  "hypervisorConfig base hypervisor =
     (base\<lparr>cfg_uri := [], cfg_insecure := False, cfg_pkiPath := [], cfg_remoteAddr := hv_address hypervisor,
        cfg_credentials := Some (hv_credentials hypervisor)\<rparr>,
      ''tls|'' @ hv_address hypervisor @ ''|'' @ hv_credentialsVersion hypervisor)"

section \<open>main\<close>

text \<open>The flags of the backend as given on the command line; one not given has its default.\<close>

record flags =
  fl_uri :: "string option"
  fl_remoteAddr :: "string option"
  fl_insecure :: "bool option"
  fl_pkiPath :: "string option"
  fl_pool :: "string option"
  fl_baseImage :: "string option"

definition given :: "'a option \<Rightarrow> 'a \<Rightarrow> 'a" where
  "given f def = (case f of None \<Rightarrow> def | Some v \<Rightarrow> v)"

definition libvirtCfg :: "(string \<Rightarrow> string) \<Rightarrow> flags \<Rightarrow> Config" where
  "libvirtCfg getenv f =
     \<lparr>cfg_uri = given (fl_uri f) (envOr getenv ''LIBVIRT_URI'' ''qemu:///system''),
      cfg_remoteAddr = given (fl_remoteAddr f) (envOr getenv ''LIBVIRT_REMOTE_ADDR'' []),
      cfg_insecure = given (fl_insecure f) (fst (envBoolOr getenv ''LIBVIRT_INSECURE'' False)),
      cfg_pkiPath = given (fl_pkiPath f) (envOr getenv ''LIBVIRT_PKI_PATH'' []),
      cfg_credentials = None,
      cfg_storagePool = given (fl_pool f) (envOr getenv ''LIBVIRT_STORAGE_POOL'' []),
      cfg_baseImage = given (fl_baseImage f) (envOr getenv ''LIBVIRT_BASE_IMAGE'' []),
      cfg_dialTimeout = 0, cfg_rpcTimeout = 0\<rparr>"

text \<open>
  \<^verbatim>\<open>providerFor\<close>: the call of the pool, with the key, the label and the configuration its opener
  connects with.
\<close>

datatype poolCall = CallGetPinned string string Config | CallGet Owner string string Config

definition mainProviderFor :: "Config \<Rightarrow> Owner \<Rightarrow> Hypervisor option \<Rightarrow> poolCall" where
  "mainProviderFor base owner hypervisor = (case hypervisor of
     None \<Rightarrow> CallGetPinned ''flags'' (configHypervisor base) base
   | Some h \<Rightarrow> (case hypervisorConfig base h of (cfg, key) \<Rightarrow> CallGet owner key (configHypervisor cfg) cfg))"

text \<open>The key of the connection, and what its opener connects with.\<close>

fun callKey :: "poolCall \<Rightarrow> string" where
  "callKey (CallGetPinned key label cfg) = key"
| "callKey (CallGet owner key label cfg) = key"

fun callConfig :: "poolCall \<Rightarrow> Config" where
  "callConfig (CallGetPinned key label cfg) = cfg"
| "callConfig (CallGet owner key label cfg) = cfg"

fun callLabel :: "poolCall \<Rightarrow> string" where
  "callLabel (CallGetPinned key label cfg) = label"
| "callLabel (CallGet owner key label cfg) = label"

end
