(* ===== verification/Dial_Props.thy ===== *)
theory Dial_Props
  imports Backend_Config Ref_World Endpoint_Props
begin

text \<open>
  Which transport a connection gets. The connection of a hypervisor a cluster names is always TLS, with
  that cluster's credentials and nothing of the manager's; plaintext is dialled only when asked for; a TLS
  dial is bounded from end to end and leaves no socket behind.
\<close>

section \<open>Addresses\<close>

text \<open>
  The pattern the API server checks \<^verbatim>\<open>spec.hypervisor.address\<close> against: a host or an address in brackets,
  then a port of one to five digits or none.
\<close>

definition between :: "nat \<Rightarrow> char \<Rightarrow> nat \<Rightarrow> bool" where
  "between m c n \<longleftrightarrow> m \<le> of_char c \<and> of_char c \<le> n"

definition digitC :: "char \<Rightarrow> bool" where "digitC c \<longleftrightarrow> between 48 c 57"
definition alnum :: "char \<Rightarrow> bool" where "alnum c \<longleftrightarrow> digitC c \<or> between 65 c 90 \<or> between 97 c 122"
definition addressC :: "char \<Rightarrow> bool" where
  "addressC c \<longleftrightarrow> digitC c \<or> between 65 c 70 \<or> between 97 c 102 \<or> c = CHR '':'' \<or> c = CHR ''.''"
definition nameC :: "char \<Rightarrow> bool" where "nameC c \<longleftrightarrow> alnum c \<or> c = CHR ''-'' \<or> c = CHR ''.''"

definition bracketedOK :: "string \<Rightarrow> bool" where
  "bracketedOK s \<longleftrightarrow> length s \<ge> 3 \<and> hd s = CHR ''['' \<and> last s = CHR '']'' \<and> list_all addressC (butlast (tl s))"

definition hostNameOK :: "string \<Rightarrow> bool" where
  "hostNameOK s \<longleftrightarrow> s \<noteq> [] \<and> alnum (hd s) \<and> alnum (last s) \<and> list_all nameC s"

definition portOK :: "string \<Rightarrow> bool" where
  "portOK p \<longleftrightarrow> 1 \<le> length p \<and> length p \<le> 5 \<and> list_all digitC p"

definition hypervisorAddressOK :: "string \<Rightarrow> bool" where
  "hypervisorAddressOK s \<longleftrightarrow> bracketedOK s \<or> hostNameOK s
     \<or> (\<exists>i<length s. s ! i = CHR '':'' \<and> (bracketedOK (take i s) \<or> hostNameOK (take i s)) \<and> portOK (drop (i + 1) s))"

lemma addressC_not [simp]: "\<not> addressC (CHR ''['')" "\<not> addressC (CHR '']'')" "\<not> addressC (CHR ''|'')"
  by (simp_all add: addressC_def digitC_def between_def)

lemma nameC_not [simp]: "\<not> nameC (CHR ''['')" "\<not> nameC (CHR '']'')" "\<not> nameC (CHR ''|'')" "\<not> nameC (CHR '':'')"
  by (simp_all add: nameC_def alnum_def digitC_def between_def)

lemma digitC_not [simp]: "\<not> digitC (CHR ''['')" "\<not> digitC (CHR '']'')" "\<not> digitC (CHR ''|'')" "\<not> digitC (CHR '':'')"
  by (simp_all add: digitC_def between_def)

lemma bracketedOK_shape:
  assumes "bracketedOK s"
  obtains h where "s = ''['' @ h @ '']''" "h \<noteq> []" "list_all addressC h"
proof -
  have len: "length s \<ge> 3" "hd s = CHR ''[''" "last s = CHR '']''" "list_all addressC (butlast (tl s))"
    using assms by (simp_all add: bracketedOK_def)
  obtain c t where t: "s = c # t" using len(1) by (cases s) auto
  have t2: "t \<noteq> []" "butlast t \<noteq> []" using len(1) t by (auto simp flip: length_0_conv)
  then have "s = ''['' @ butlast (tl s) @ '']''" using len(2,3) t append_butlast_last_id [OF t2(1)] by simp
  moreover have "butlast (tl s) \<noteq> []" using t t2 by simp
  ultimately show thesis using len(4) by (rule that)
qed

lemma hostNameOK_chars:
  assumes "hostNameOK s"
  shows "s \<noteq> []" "CHR '':'' \<notin> set s" "CHR ''['' \<notin> set s" "CHR '']'' \<notin> set s" "CHR ''|'' \<notin> set s"
  using assms unfolding hostNameOK_def list_all_iff by (blast dest: nameC_not [THEN notE])+

lemma portOK_chars:
  assumes "portOK p"
  shows "CHR '':'' \<notin> set p" "CHR ''['' \<notin> set p" "CHR '']'' \<notin> set p" "CHR ''|'' \<notin> set p"
  using assms unfolding portOK_def list_all_iff by (blast dest: digitC_not [THEN notE])+

lemma address_bracketFree: "list_all addressC h \<Longrightarrow> bracketFree h"
  unfolding bracketFree_def list_all_iff by (blast dest: addressC_not [THEN notE])

lemma SplitHostPort_bracketed:
  assumes "bracketFree h" "CHR '':'' \<notin> set p" "CHR ''['' \<notin> set p" "CHR '']'' \<notin> set p"
  shows "SplitHostPort (''['' @ h @ '']'' @ '':'' @ p) = Some (h, p)"
proof -
  have "takeWhile (\<lambda>c. c \<noteq> CHR '']'') (h @ CHR '']'' # CHR '':'' # p) = h"
    by (rule takeWhile_append_stop) (use assms(1) in \<open>auto simp: bracketFree_def\<close>)
  then show ?thesis using assms by (simp add: SplitHostPort_def Let_def bracketFree_def)
qed

lemma SplitHostPort_bracketFree:
  assumes "SplitHostPort s = Some (h, p)"
  shows "bracketFree h"
proof (cases "hd s = CHR ''[''")
  case True
  with assms have h: "h = takeWhile (\<lambda>c. c \<noteq> CHR '']'') (tl s)" "CHR ''['' \<notin> set (tl s)"
    by (auto simp: SplitHostPort_def Let_def split: if_splits list.splits)
  then show ?thesis by (auto simp: bracketFree_def dest!: set_takeWhileD)
next
  case False
  with assms have "CHR ''['' \<notin> set s" "CHR '']'' \<notin> set s" "\<exists>n. h = take n s"
    by (auto simp: SplitHostPort_def Let_def split: if_splits)
  then show ?thesis by (auto simp: bracketFree_def dest: in_set_takeD)
qed

lemma with_port_splits:
  assumes "i < length s" "s ! i = CHR '':''" "bracketedOK (take i s) \<or> hostNameOK (take i s)" "portOK (drop (i + 1) s)"
  shows "SplitHostPort s \<noteq> None"
proof -
  have s: "s = take i s @ '':'' @ drop (i + 1) s" using id_take_nth_drop [OF assms(1)] assms(2) by simp
  note p = portOK_chars [OF assms(4)]
  show ?thesis
  proof (cases "bracketedOK (take i s)")
    case True
    then obtain h where h: "take i s = ''['' @ h @ '']''" "list_all addressC h" by (elim bracketedOK_shape)
    from address_bracketFree [OF h(2)] have "SplitHostPort (''['' @ h @ '']'' @ '':'' @ drop (i + 1) s) = Some (h, drop (i + 1) s)"
      using p by (intro SplitHostPort_bracketed)
    with s h(1) show ?thesis by (metis append.assoc option.distinct(1))
  next
    case False
    with assms(3) have "hostNameOK (take i s)" by simp
    note n = hostNameOK_chars [OF this]
    then have "SplitHostPort (JoinHostPort (take i s) (drop (i + 1) s)) = Some (take i s, drop (i + 1) s)"
      using p by (intro SplitHostPort_Join) (auto simp: bracketFree_def)
    moreover have "JoinHostPort (take i s) (drop (i + 1) s) = s" using n(2) s by (simp add: JoinHostPort_def)
    ultimately show ?thesis by simp
  qed
qed

lemma portless_bracketFree:
  assumes "bracketedOK s \<or> hostNameOK s"
  shows "bracketFree (trimSuffix (trimPrefix s ''['') '']'')"
proof (cases "bracketedOK s")
  case True
  then obtain h where h: "s = ''['' @ h @ '']''" "list_all addressC h" by (elim bracketedOK_shape)
  have "trimPrefix s ''['' = h @ '']''" using h(1) by (simp add: trimPrefix_def hasPrefix_def)
  with address_bracketFree [OF h(2)] show ?thesis by (simp add: trimSuffix_bracket)
next
  case False
  with assms have "hostNameOK s" by simp
  from hostNameOK_chars(3,4) [OF this] show ?thesis by (simp add: trimPrefix_no_bracket trimSuffix_no_bracket bracketFree_def)
qed

text \<open>An address the API server lets through is, once canonical, a host and a port that split again.\<close>

lemma canonical_shape:
  assumes "canonicalHypervisor s = Inr a" "hypervisorAddressOK s"
  obtains h p where "a = JoinHostPort h p" "h \<noteq> []" "bracketFree h" "validPort p"
proof (cases "SplitHostPort s")
  case (Some hp)
  then obtain h p where hp: "SplitHostPort s = Some (h, p)" by (cases hp) auto
  show thesis by (rule that [of h p]) (use assms(1) hp SplitHostPort_bracketFree [OF hp] in
      \<open>auto simp: canonicalHypervisor_def validPort_def split: option.splits if_splits\<close>)
next
  case None
  with assms(2) with_port_splits have "bracketedOK s \<or> hostNameOK s" unfolding hypervisorAddressOK_def by blast
  note free = portless_bracketFree [OF this]
  show thesis by (rule that [OF _ _ free validPort_default]) (use assms(1) None in
      \<open>auto simp: canonicalHypervisor_def split: option.splits if_splits\<close>)
qed

lemma validPort_nonempty: "validPort p \<Longrightarrow> p \<noteq> []"
  by (auto simp: validPort_def atoi_def)

lemma split_joined:
  assumes "h \<noteq> []" "bracketFree h" "validPort p"
  shows "splitRemoteAddr (JoinHostPort h p) = Inr (h, p)"
proof -
  obtain n where "atoi p = Some n" using assms(3) by (auto simp: validPort_def)
  with SplitHostPort_Join [OF assms(1,2) atoi_plain] have "SplitHostPort (JoinHostPort h p) = Some (h, p)" by blast
  moreover have "JoinHostPort h p \<noteq> []" by (simp add: JoinHostPort_def)
  ultimately show ?thesis by (simp add: splitRemoteAddr_def)
qed

text \<open>The credentials a reconciler hands over have been checked.\<close>

lemma hypervisorOf_checked:
  assumes "hypervisorOf L reader (Some hc) k = Inr (Some hv)" "hc_hypervisor hc = Some hh"
  shows "canonicalHypervisor (hh_address hh) = Inr (hv_address hv)"
    and "x509KeyPairOK L (clientCert (hv_credentials hv)) (clientKey (hv_credentials hv))"
    and "appendCertsFromPEM L (caCert (hv_credentials hv))"
  using assms by (auto simp: hypervisorOf_def checkCredentials_def Let_def split: sum.splits option.splits if_splits)

text \<open>An address of a flag may lack its host: only the addresses of clusters are checked for one.\<close>

lemma splitRemoteAddr_empty_host: "splitRemoteAddr '':16514'' = Inr ([], ''16514'')"
  by code_simp

section \<open>The label\<close>

fun dialAddress :: "dialer \<Rightarrow> string" where
  "dialAddress (LocalDialer t) = ''local''"
| "dialAddress (RemoteDialer host port t) = JoinHostPort host (given port defaultTCPPort)"
| "dialAddress (TLSDialer d) = JoinHostPort (tls_host d) (tls_port d)"

lemma newTLSDialer_fields [simp]:
  "tls_host (newTLSDialer h host port pki t) = host"
  "tls_port (newTLSDialer h host port pki t) = (if port = [] then defaultTLSPort else port)"
  "tls_timeout (newTLSDialer h host port pki t) = (if t \<le> 0 then defaultConnectTimeout else t)"
  "tls_cert (newTLSDialer h host port pki t) = None"
  by (auto simp: newTLSDialer_def Let_def split: option.splits)

lemma label_names_what_is_dialled:
  "newDialer L h cfg = Inr d \<Longrightarrow> configHypervisor cfg = dialAddress d"
  by (auto simp: newDialer_def configHypervisor_def newTLSDialerWithCredentials_def given_def
      split: if_splits sum.splits option.splits)

lemma attemptLimit_is_first_bound: "newProvider L h connect cfg = Inr p \<Longrightarrow> attemptLimit p = pr_dialBound p"
  by (cases "cfg_dialTimeout cfg = 0"; cases "cfg_rpcTimeout cfg = 0")
    (auto simp: newProvider_def attemptLimit_def Let_def defaultConnectTimeout_def defaultRPCTimeout_def split: sum.splits option.splits)

lemma tls_timeout_positive: "newDialer L h cfg = Inr (TLSDialer d) \<Longrightarrow> 0 < tls_timeout d"
  by (auto simp: newDialer_def newTLSDialerWithCredentials_def defaultConnectTimeout_def split: if_splits sum.splits option.splits)

section \<open>A TLS dial\<close>

text \<open>Every step that can block is under the deadline: the connect is given it, the others find it armed.\<close>

fun underDeadline :: "int \<Rightarrow> bool \<Rightarrow> tlsEvent list \<Rightarrow> bool" where
  "underDeadline dl armed [] \<longleftrightarrow> True"
| "underDeadline dl armed (Connect a t # es) \<longleftrightarrow> t = dl \<and> underDeadline dl armed es"
| "underDeadline dl armed (SetDeadline t # es) \<longleftrightarrow> underDeadline dl (t = Some dl) es"
| "underDeadline dl armed (Handshake c # es) \<longleftrightarrow> armed \<and> underDeadline dl armed es"
| "underDeadline dl armed (ReadVerdict # es) \<longleftrightarrow> armed \<and> underDeadline dl armed es"
| "underDeadline dl armed (CloseSocket # es) \<longleftrightarrow> underDeadline dl armed es"

text \<open>The answers that make a dial succeed.\<close>

definition accepted :: "lib \<Rightarrow> hostEnv \<Rightarrow> wire \<Rightarrow> tlsDialer \<Rightarrow> bool" where
  "accepted L h w d \<longleftrightarrow> (case tlsConfigOf L h d of Inl e \<Rightarrow> False
     | Inr conf \<Rightarrow> wr_connect w = None \<and> wr_setDeadline w = None \<and> wr_handshake w conf = None \<and> wr_verdict w = Inr 1 \<and> wr_clearDeadline w = None)"

lemmas tlsDial_defs = tlsDial_def failClosed_def accepted_def tlsVerificationOK_def Let_def

lemma tlsDial_bounded: "tlsDial L h w now d = (r, tr) \<Longrightarrow> underDeadline (now + tls_timeout d) False tr"
  by (auto simp: tlsDial_defs split: sum.splits option.splits if_splits)

lemma tlsDial_accepts: "tlsDial L h w now d = (r, tr) \<Longrightarrow> r = Inr () \<longleftrightarrow> accepted L h w d"
  by (auto simp: tlsDial_defs split: sum.splits option.splits if_splits)

lemma tlsDial_success_open: "tlsDial L h w now d = (Inr (), tr) \<Longrightarrow> CloseSocket \<notin> set tr \<and> last tr = SetDeadline None"
  by (auto simp: tlsDial_defs split: sum.splits option.splits if_splits)

lemma tlsDial_failure_closed:
  "tlsDial L h w now d = (Inl e, tr) \<Longrightarrow> tr = [] \<or> wr_connect w \<noteq> None \<or> last tr = CloseSocket"
  by (auto simp: tlsDial_defs split: sum.splits option.splits if_splits)

section \<open>Keys\<close>

lemma SplitHostPort_chars:
  assumes "SplitHostPort s = Some (h, p)"
  shows "set h \<subseteq> set s" "set p \<subseteq> set s"
proof -
  show "set h \<subseteq> set s"
  proof (cases "hd s = CHR ''[''")
    case True
    with assms have "h = takeWhile (\<lambda>c. c \<noteq> CHR '']'') (tl s)" "s \<noteq> []"
      by (auto simp: SplitHostPort_def Let_def split: if_splits list.splits)
    then show ?thesis by (auto dest!: set_takeWhileD list.set_sel(2))
  next
    case False
    with assms show ?thesis by (auto simp: SplitHostPort_def Let_def split: if_splits dest: in_set_takeD)
  qed
  show "set p \<subseteq> set s"
  proof (cases "hd s = CHR ''[''")
    case True
    from True assms have "s \<noteq> []" "\<exists>n c d. drop n (tl s) = c # d # p"
      by (auto simp: SplitHostPort_def Let_def split: if_splits list.splits)
    then obtain n c d where "drop n (tl s) = c # d # p" "s \<noteq> []" by blast
    then have "set p \<subseteq> set (drop n (tl s))" by auto
    also have "\<dots> \<subseteq> set s" using \<open>s \<noteq> []\<close> by (meson in_set_dropD list.set_sel(2) subsetI)
    finally show ?thesis .
  next
    case False
    with assms have "p = rev (takeWhile (\<lambda>c. c \<noteq> CHR '':'') (rev s))" by (auto simp: SplitHostPort_def Let_def split: if_splits)
    then show ?thesis by (auto dest: set_takeWhileD)
  qed
qed

lemma trimPrefix_chars: "set (trimPrefix s p) \<subseteq> set s"
  by (auto simp: trimPrefix_def split: if_splits dest: in_set_dropD)

lemma trim_chars: "set (trimSuffix (trimPrefix s ''['') '']'') \<subseteq> set s"
proof -
  have "set (trimSuffix t x) \<subseteq> set t" for t x
    using trimPrefix_chars [of "rev t" "rev x"] by (simp add: trimSuffix_def)
  then show ?thesis using trimPrefix_chars by blast
qed

lemma JoinHostPort_chars: "set (JoinHostPort h p) \<subseteq> set h \<union> set p \<union> {CHR '':'', CHR ''['', CHR '']''}"
  by (auto simp: JoinHostPort_def)

lemma canonical_chars:
  assumes "canonicalHypervisor s = Inr a"
  shows "set a \<subseteq> set s \<union> {CHR '':'', CHR ''['', CHR '']''} \<union> set defaultHypervisorPort"
proof (cases "SplitHostPort s")
  case None
  with assms have "a = JoinHostPort (trimSuffix (trimPrefix s ''['') '']'') defaultHypervisorPort"
    by (auto simp: canonicalHypervisor_def split: option.splits if_splits)
  then show ?thesis using JoinHostPort_chars trim_chars by blast
next
  case (Some hp)
  then obtain h p where hp: "SplitHostPort s = Some (h, p)" by (cases hp) auto
  with assms have "a = JoinHostPort h p" by (auto simp: canonicalHypervisor_def split: option.splits if_splits)
  then show ?thesis using JoinHostPort_chars SplitHostPort_chars [OF hp] by blast
qed

lemma canonical_no_bar:
  assumes "canonicalHypervisor s = Inr a" "hypervisorAddressOK s"
  shows "CHR ''|'' \<notin> set a"
proof -
  have "CHR ''|'' \<notin> set s"
  proof -
    have host: "CHR ''|'' \<notin> set t" if "bracketedOK t \<or> hostNameOK t" for t
    proof (cases "bracketedOK t")
      case True
      then obtain h where h: "t = ''['' @ h @ '']''" "list_all addressC h" by (elim bracketedOK_shape)
      then have "CHR ''|'' \<notin> set h" unfolding list_all_iff by (blast dest: addressC_not(3) [THEN notE])
      with h(1) show ?thesis by simp
    next
      case False
      with that hostNameOK_chars(5) show ?thesis by blast
    qed
    from assms(2) consider "bracketedOK s \<or> hostNameOK s"
      | i where "i < length s" "s ! i = CHR '':''" "bracketedOK (take i s) \<or> hostNameOK (take i s)" "portOK (drop (i + 1) s)"
      unfolding hypervisorAddressOK_def by blast
    then show ?thesis
    proof cases
      case 2
      have "s = take i s @ CHR '':'' # drop (i + 1) s" using id_take_nth_drop [OF 2(1)] 2(2) by simp
      moreover have "CHR ''|'' \<notin> set (take i s @ CHR '':'' # drop (i + 1) s)"
        using host [OF 2(3)] portOK_chars(4) [OF 2(4)] by simp
      ultimately show ?thesis by simp
    qed (rule host)
  qed
  moreover have "set a \<subseteq> set s \<union> {CHR '':'', CHR ''['', CHR '']''} \<union> set defaultHypervisorPort"
    using assms(1) by (rule canonical_chars)
  ultimately show ?thesis by (auto simp: defaultHypervisorPort_def)
qed

lemma key_parts: "a @ CHR ''|'' # v = b @ CHR ''|'' # w \<Longrightarrow> CHR ''|'' \<notin> set a \<Longrightarrow> CHR ''|'' \<notin> set b \<Longrightarrow> a = b \<and> v = w"
  by (induction a arbitrary: b) (auto simp: Cons_eq_append_conv append_eq_Cons_conv)

section \<open>Flags\<close>

lemma ParseBool_True: "ParseBool s = Some True \<longleftrightarrow> s \<in> {''1'', ''t'', ''T'', ''true'', ''TRUE'', ''True''}"
proof -
  have "(if P then Some True else if Q then Some False else None) = Some True \<longleftrightarrow> P" for P Q by simp
  then show ?thesis unfolding ParseBool_def .
qed

lemma envBoolOr_False: "fst (envBoolOr getenv name False) \<Longrightarrow> ParseBool (getenv name) = Some True"
  by (simp add: envBoolOr_def Let_def split: option.splits if_splits)

section \<open>A cluster with a hypervisor of its own\<close>

definition namedCluster :: HydraCluster where
  "namedCluster = exampleHydraCluster\<lparr>hc_hypervisor := Some \<lparr>hh_address = ''hv1'', hh_credentialsSecret = ''creds''\<rparr>\<rparr>"

definition namedSecret :: Secret where
  "namedSecret = \<lparr>sec_uid = ''u7'', sec_resourceVersion = ''3'',
     sec_data = [hypervisorCACertKey \<mapsto> [1], hypervisorClientCertKey \<mapsto> [2], hypervisorClientKeyKey \<mapsto> [2]]\<rparr>"

definition namedHypervisor :: Hypervisor where
  "namedHypervisor = \<lparr>hv_address = ''hv1:16514'', hv_credentials = \<lparr>caCert = [1], clientCert = [2], clientKey = [2]\<rparr>, hv_credentialsVersion = ''u7/3''\<rparr>"

definition rotatedHypervisor :: Hypervisor where
  "rotatedHypervisor = namedHypervisor\<lparr>hv_credentialsVersion := ''u7/4''\<rparr>"

definition secretReader :: "Secret \<Rightarrow> refApi kube" where
  "secretReader sec = refKube\<lparr>getSecret := \<lambda>_ _. Inr sec\<rparr>"

definition bareHost :: hostEnv where
  "bareHost = \<lparr>he_readFile = (\<lambda>_. None), he_currentUser = None\<rparr>"

definition plainFlags :: flags where
  "plainFlags = \<lparr>fl_uri = None, fl_remoteAddr = Some ''lab'', fl_insecure = None, fl_pkiPath = Some ''/pki'', fl_pool = None, fl_baseImage = None\<rparr>"

definition refusingWire :: wire where
  "refusingWire = \<lparr>wr_connect = None, wr_setDeadline = None, wr_handshake = (\<lambda>_. None), wr_verdict = Inr 0, wr_clearDeadline = None\<rparr>"

definition anyOwner :: Owner where
  "anyOwner = \<lparr>own_kind = ''HydraCluster'', own_namespace = ''ns'', own_name = ''hc''\<rparr>"

definition plainEnv :: "string \<Rightarrow> string" where
  "plainEnv name = (if name = ''LIBVIRT_INSECURE'' then ''true'' else [])"

lemma named_canonical: "canonicalHypervisor ''hv1'' = Inr ''hv1:16514''"
  by code_simp

lemma named_address_ok: "hypervisorAddressOK ''hv1''"
  by code_simp

lemma named_hypervisorOf:
  "hypervisorOf refLib (Some (secretReader namedSecret)) (Some namedCluster) k = Inr (Some namedHypervisor)"
  "hypervisorOf refLib (Some (secretReader (namedSecret\<lparr>sec_resourceVersion := ''4''\<rparr>))) (Some namedCluster) k = Inr (Some rotatedHypervisor)"
  by (simp_all add: hypervisorOf_def named_canonical namedCluster_def secretReader_def namedSecret_def namedHypervisor_def rotatedHypervisor_def
      bytesAt_def checkCredentials_def hypervisorCACertKey_def hypervisorClientCertKey_def hypervisorClientKeyKey_def refLib_def Let_def)

lemma named_spec: "hc_hypervisor namedCluster = Some \<lparr>hh_address = ''hv1'', hh_credentialsSecret = ''creds''\<rparr>"
  by (simp add: namedCluster_def)

section \<open>Properties\<close>

text \<open>
  C36: The connection of a hypervisor a cluster names. Whatever the flags of the manager and the files of its
  host, the backend dials the canonical address over TLS, checks the certificate of the server against that
  host and the CA of the cluster's Secret, shows the client certificate of that Secret, and reports the
  address it dials as its label.
\<close>

theorem named_hypervisor_own_tls:
  assumes "hypervisorOf L reader (Some hc) k = Inr (Some hv)" and "hc_hypervisor hc = Some hh"
    and "hypervisorAddressOK (hh_address hh)"
  shows "\<exists>host port d. canonicalHypervisor (hh_address hh) = Inr (JoinHostPort host port)
    \<and> newDialer L h (callConfig (mainProviderFor base owner (Some hv))) = Inr (TLSDialer d)
    \<and> callLabel (mainProviderFor base owner (Some hv)) = JoinHostPort host port
    \<and> tls_host d = host \<and> tls_port d = port
    \<and> tlsConfigOf L h' d = Inr \<lparr>tc_certificate = (clientCert (hv_credentials hv), clientKey (hv_credentials hv)),
         tc_rootCAs = Some (caCert (hv_credentials hv)), tc_serverName = host, tc_minVersion = VersionTLS12\<rparr>"
proof -
  note c = hypervisorOf_checked [OF assms(1,2)]
  obtain host port where hp: "hv_address hv = JoinHostPort host port" "host \<noteq> []" "bracketFree host" "validPort port"
    by (rule canonical_shape [OF c(1) assms(3)])
  note split = split_joined [OF hp(2-4)]
  have addr: "hv_address hv \<noteq> []" using hp(1) by (simp add: JoinHostPort_def)
  let ?cfg = "callConfig (mainProviderFor base owner (Some hv))"
  let ?d = "(newTLSDialer h host port [] (cfg_dialTimeout base))\<lparr>tls_certDirs := [], tls_caDirs := [],
    tls_cert := Some (clientCert (hv_credentials hv), clientKey (hv_credentials hv)), tls_roots := Some (caCert (hv_credentials hv))\<rparr>"
  have d: "newDialer L h ?cfg = Inr (TLSDialer ?d)" using c(2,3) split addr hp(1)
    by (simp add: newDialer_def mainProviderFor_def hypervisorConfig_def newTLSDialerWithCredentials_def)
  have "callLabel (mainProviderFor base owner (Some hv)) = configHypervisor ?cfg" by (simp add: mainProviderFor_def hypervisorConfig_def)
  then have "callLabel (mainProviderFor base owner (Some hv)) = JoinHostPort host port"
    using label_names_what_is_dialled [OF d] validPort_nonempty [OF hp(4)] by simp
  then show ?thesis using d c(1) hp(1) validPort_nonempty [OF hp(4)]
    by (intro exI [of _ host] exI [of _ port] exI [of _ ?d]) (simp add: tlsConfigOf_def Let_def)
qed

theorem named_hypervisor_own_tls_witness:
  "\<exists>host port d. canonicalHypervisor ''hv1'' = Inr (JoinHostPort host port)
    \<and> newDialer refLib bareHost (callConfig (mainProviderFor (libvirtCfg plainEnv plainFlags) anyOwner (Some namedHypervisor))) = Inr (TLSDialer d)
    \<and> tlsConfigOf refLib bareHost d = Inr \<lparr>tc_certificate = ([2], [2]), tc_rootCAs = Some [1], tc_serverName = host, tc_minVersion = VersionTLS12\<rparr>"
  using named_hypervisor_own_tls [OF named_hypervisorOf(1) [of Map.empty] named_spec, where h = bareHost and h' = bareHost
      and base = "libvirtCfg plainEnv plainFlags" and owner = anyOwner] named_address_ok
  by (auto simp: namedHypervisor_def)

text \<open>
  C37: The keys of the pool tell connections apart. Two hypervisors that clusters name share a connection
  exactly when the canonical address and the version of the credentials are the same, so rotated credentials
  open a new one; when a version stands for one set of credentials, whoever opens it connects alike; and none
  shares the connection of the flags.
\<close>

theorem pool_keys_tell_apart:
  assumes "hypervisorOf L reader (Some hc) k = Inr (Some hv)" and "hc_hypervisor hc = Some hh" and "hypervisorAddressOK (hh_address hh)"
    and "hypervisorOf L' reader' (Some hc') k' = Inr (Some hv')" and "hc_hypervisor hc' = Some hh'" and "hypervisorAddressOK (hh_address hh')"
  shows "(callKey (mainProviderFor base owner (Some hv)) = callKey (mainProviderFor base owner' (Some hv')) \<longleftrightarrow>
      hv_address hv = hv_address hv' \<and> hv_credentialsVersion hv = hv_credentialsVersion hv')
    \<and> (callKey (mainProviderFor base owner (Some hv)) = callKey (mainProviderFor base owner' (Some hv')) \<and> hv_credentials hv = hv_credentials hv' \<longrightarrow>
      callConfig (mainProviderFor base owner (Some hv)) = callConfig (mainProviderFor base owner' (Some hv')))
    \<and> callKey (mainProviderFor base owner (Some hv)) \<noteq> callKey (mainProviderFor base owner' None)"
proof -
  note bars = canonical_no_bar [OF hypervisorOf_checked(1) [OF assms(1,2)] assms(3)] canonical_no_bar [OF hypervisorOf_checked(1) [OF assms(4,5)] assms(6)]
  show ?thesis using key_parts [OF _ bars, of "hv_credentialsVersion hv" "hv_credentialsVersion hv'"]
    by (auto simp: mainProviderFor_def hypervisorConfig_def)
qed

theorem pool_keys_tell_apart_witness:
  "callKey (mainProviderFor (libvirtCfg plainEnv plainFlags) anyOwner (Some namedHypervisor))
     \<noteq> callKey (mainProviderFor (libvirtCfg plainEnv plainFlags) anyOwner (Some rotatedHypervisor))"
  using pool_keys_tell_apart [OF named_hypervisorOf(1) [of Map.empty] named_spec _ named_hypervisorOf(2) [of Map.empty] named_spec,
      where base = "libvirtCfg plainEnv plainFlags" and owner = anyOwner and owner' = anyOwner] named_address_ok
  by (auto simp: rotatedHypervisor_def namedHypervisor_def)

text \<open>
  C38: Plaintext is dialled only when asked for: by the flag, or with no flag by an environment variable that
  reads as true; one that does not parse means TLS. A hypervisor a cluster names is never dialled in the clear.
\<close>

theorem plaintext_only_when_asked:
  assumes "newDialer L h (callConfig (mainProviderFor (libvirtCfg getenv f) owner hyp)) = Inr (RemoteDialer host port t)"
  shows "hyp = None \<and> (fl_insecure f = Some True
    \<or> fl_insecure f = None \<and> getenv ''LIBVIRT_INSECURE'' \<in> {''1'', ''t'', ''T'', ''true'', ''TRUE'', ''True''})"
proof (cases hyp)
  case (Some hv)
  have False using assms unfolding Some
    by (auto simp: mainProviderFor_def hypervisorConfig_def newDialer_def newTLSDialerWithCredentials_def split: if_splits sum.splits)
  then show ?thesis ..
next
  case None
  have "cfg_insecure (libvirtCfg getenv f)" using assms unfolding None
    by (auto simp: mainProviderFor_def newDialer_def newTLSDialerWithCredentials_def split: if_splits sum.splits option.splits)
  then have "fl_insecure f = Some True \<or> fl_insecure f = None \<and> ParseBool (getenv ''LIBVIRT_INSECURE'') = Some True"
    using envBoolOr_False [of getenv] by (simp add: libvirtCfg_def given_def split: option.splits)
  then show ?thesis using None unfolding ParseBool_True by simp
qed

theorem plaintext_only_when_asked_witness:
  "plainEnv ''LIBVIRT_INSECURE'' \<in> {''1'', ''t'', ''T'', ''true'', ''TRUE'', ''True''}"
proof -
  have "newDialer refLib bareHost (callConfig (mainProviderFor (libvirtCfg plainEnv plainFlags) \<lparr>own_kind = [], own_namespace = [], own_name = []\<rparr> None))
    = Inr (RemoteDialer ''lab'' None 0)"
    by (simp add: newDialer_def mainProviderFor_def libvirtCfg_def given_def envOr_def envBoolOr_def plainEnv_def plainFlags_def
        ParseBool_def splitRemoteAddr_def SplitHostPort_def)
  from plaintext_only_when_asked [OF this] show ?thesis by (simp add: plainFlags_def)
qed

text \<open>
  C39: A TLS dial. Everything that can block in it is under one deadline, the start plus the timeout. It succeeds
  exactly when every step does and the daemon answers that it accepts the client, and then the socket is open
  with no deadline left; when it fails after the connect, the last thing it does is close the socket.
\<close>

theorem tlsDial_bounded_and_closed:
  assumes "tlsDial L h w now d = (r, tr)"
  shows "underDeadline (now + tls_timeout d) False tr \<and> (r = Inr () \<longleftrightarrow> accepted L h w d)
    \<and> (r = Inr () \<longrightarrow> CloseSocket \<notin> set tr \<and> last tr = SetDeadline None)
    \<and> (r \<noteq> Inr () \<longrightarrow> tr = [] \<or> wr_connect w \<noteq> None \<or> last tr = CloseSocket)"
proof (cases r)
  case (Inl e)
  then show ?thesis using tlsDial_bounded [OF assms] tlsDial_accepts [OF assms] tlsDial_failure_closed [of L h w now d e tr] assms by simp
next
  case (Inr u)
  then show ?thesis using tlsDial_bounded [OF assms] tlsDial_accepts [OF assms] tlsDial_success_open [of L h w now d tr] assms by simp
qed

theorem tlsDial_bounded_and_closed_witness:
  "last (snd (tlsDial refLib bareHost refusingWire 5 ((newTLSDialer bareHost ''hv1'' [] [] 0)\<lparr>tls_cert := Some ([2], [2]), tls_roots := Some [1]\<rparr>))) = CloseSocket"
proof -
  let ?d = "(newTLSDialer bareHost ''hv1'' [] [] 0)\<lparr>tls_cert := Some ([2], [2]), tls_roots := Some [1]\<rparr>"
  obtain r tr where t: "tlsDial refLib bareHost refusingWire 5 ?d = (r, tr)" by fastforce
  have "\<not> accepted refLib bareHost refusingWire ?d" "tr \<noteq> []" "wr_connect refusingWire = None"
    using t by (auto simp: accepted_def refusingWire_def tlsConfigOf_def tlsDial_def tlsVerificationOK_def Let_def)
  with tlsDial_bounded_and_closed [OF t] t show ?thesis by auto
qed

end
