(* ===== verification/Backend_Metrics.thy ===== *)
theory Backend_Metrics
  imports Fake_Provider Backend_Config
begin

text \<open>
  \<^verbatim>\<open>internal/providers/instrumented.go\<close>: the wrapper that puts every backend call on record, and the
  opener of \<^verbatim>\<open>cmd/main.go\<close> that wraps what it connects. A sample is the labels of one observation, the
  operation, the outcome and the hypervisor; the durations are left out. The samples are part of the state
  the wrapped backend works on.
\<close>

section \<open>The wrapper\<close>

type_synonym sample = "string \<times> outcome \<times> string"

definition observe :: "string \<Rightarrow> string \<Rightarrow> goerr option \<Rightarrow> sample list \<Rightarrow> sample list" where
  "observe hypervisor operation err samples = samples @ [(operation, ClassifyOutcome err, hypervisor)]"

definition ObserveDial :: "string \<Rightarrow> goerr option \<Rightarrow> sample list \<Rightarrow> sample list" where
  "ObserveDial hypervisor err = observe hypervisor ''Dial'' err"

fun errOf :: "goerr + 'a \<Rightarrow> goerr option" where
  "errOf (Inl e) = Some e"
| "errOf (Inr x) = None"

text \<open>The six methods the wrapper overrides; \<^verbatim>\<open>Name\<close> and \<^verbatim>\<open>StoragePoolFor\<close> are those of the backend.\<close>

definition instrumentedCreate :: "'b MachineProvider \<Rightarrow> string \<Rightarrow> MachineSpec \<Rightarrow> 'b \<times> sample list \<Rightarrow> (goerr + MachineState) \<times> 'b \<times> sample list" where
  "instrumentedCreate p hypervisor spec s =
     (case prov_create p spec (fst s) of (state, b) \<Rightarrow> (state, b, observe hypervisor ''Create'' (errOf state) (snd s)))"

definition instrumentedDelete :: "'b MachineProvider \<Rightarrow> string \<Rightarrow> string \<Rightarrow> 'b \<times> sample list \<Rightarrow> goerr option \<times> 'b \<times> sample list" where
  "instrumentedDelete p hypervisor i s =
     (case prov_delete p i (fst s) of (err, b) \<Rightarrow> (err, b, observe hypervisor ''Delete'' err (snd s)))"

definition instrumentedGet :: "'b MachineProvider \<Rightarrow> string \<Rightarrow> string \<Rightarrow> 'b \<times> sample list \<Rightarrow> (goerr + MachineState) \<times> 'b \<times> sample list" where
  "instrumentedGet p hypervisor i s =
     (case prov_get p i (fst s) of (state, b) \<Rightarrow> (state, b, observe hypervisor ''Get'' (errOf state) (snd s)))"

definition instrumentedFindByName :: "'b MachineProvider \<Rightarrow> string \<Rightarrow> string \<Rightarrow> 'b \<times> sample list \<Rightarrow> (goerr + MachineState) \<times> 'b \<times> sample list" where
  "instrumentedFindByName p hypervisor n s =
     (case prov_findByName p n (fst s) of (state, b) \<Rightarrow> (state, b, observe hypervisor ''FindByName'' (errOf state) (snd s)))"

definition instrumentedDeleteByName :: "'b MachineProvider \<Rightarrow> string \<Rightarrow> string \<Rightarrow> string \<Rightarrow> 'b \<times> sample list \<Rightarrow> goerr option \<times> 'b \<times> sample list" where
  "instrumentedDeleteByName p hypervisor n storagePool s =
     (case prov_deleteByName p n storagePool (fst s) of (err, b) \<Rightarrow> (err, b, observe hypervisor ''DeleteByName'' err (snd s)))"

definition instrumentedEnsure :: "'b MachineProvider \<Rightarrow> string \<Rightarrow> InfrastructureSpec \<Rightarrow> 'b \<times> sample list \<Rightarrow> goerr option \<times> 'b \<times> sample list" where
  "instrumentedEnsure p hypervisor spec s =
     (case prov_ensureInfrastructure p spec (fst s) of (err, b) \<Rightarrow> (err, b, observe hypervisor ''EnsureInfrastructure'' err (snd s)))"

definition Instrumented :: "'b MachineProvider \<Rightarrow> string \<Rightarrow> ('b \<times> sample list) MachineProvider" where
  "Instrumented p hypervisor = \<lparr>prov_name = prov_name p, prov_storagePoolFor = prov_storagePoolFor p,
     prov_create = instrumentedCreate p hypervisor, prov_get = instrumentedGet p hypervisor,
     prov_findByName = instrumentedFindByName p hypervisor, prov_delete = instrumentedDelete p hypervisor,
     prov_ensureInfrastructure = instrumentedEnsure p hypervisor, prov_deleteByName = instrumentedDeleteByName p hypervisor\<rparr>"

definition NewInstrumented :: "'b MachineProvider option \<Rightarrow> string \<Rightarrow> ('b \<times> sample list) MachineProvider option" where
  "NewInstrumented p hypervisor = map_option (\<lambda>q. Instrumented q hypervisor) p"

text \<open>
  The opener of \<^verbatim>\<open>main\<close>: connect, put the dial on record whatever came of it, wrap. \<open>backend\<close> is the
  backend over a connection, \<open>label\<close> the label the pool chose.
\<close>

definition openBackend :: "lib \<Rightarrow> hostEnv \<Rightarrow> (dialer \<Rightarrow> int \<Rightarrow> string \<Rightarrow> goerr option) \<Rightarrow> (dialledProvider \<Rightarrow> 'b MachineProvider)
    \<Rightarrow> Config \<Rightarrow> string \<Rightarrow> sample list \<Rightarrow> (goerr + ('b \<times> sample list) MachineProvider) \<times> sample list" where
  "openBackend L h connect backend cfg label samples =
     (let p = newProvider L h connect cfg
      in (map_sum id (\<lambda>q. Instrumented (backend q) label) p, ObserveDial label (errOf p) samples))"

section \<open>Calls\<close>

datatype backendCall = CCreate MachineSpec | CDelete string | CGet string | CFindByName string
  | CDeleteByName string string | CEnsureInfrastructure InfrastructureSpec

datatype answer = Machine_answer "goerr + MachineState" | Error_answer "goerr option"

fun answerErr :: "answer \<Rightarrow> goerr option" where
  "answerErr (Machine_answer r) = errOf r"
| "answerErr (Error_answer e) = e"

fun operation :: "backendCall \<Rightarrow> string" where
  "operation (CCreate spec) = ''Create''"
| "operation (CDelete i) = ''Delete''"
| "operation (CGet i) = ''Get''"
| "operation (CFindByName n) = ''FindByName''"
| "operation (CDeleteByName n pool) = ''DeleteByName''"
| "operation (CEnsureInfrastructure spec) = ''EnsureInfrastructure''"

fun doCall :: "'b MachineProvider \<Rightarrow> backendCall \<Rightarrow> 'b \<Rightarrow> answer \<times> 'b" where
  "doCall p (CCreate spec) b = map_prod Machine_answer id (prov_create p spec b)"
| "doCall p (CDelete i) b = map_prod Error_answer id (prov_delete p i b)"
| "doCall p (CGet i) b = map_prod Machine_answer id (prov_get p i b)"
| "doCall p (CFindByName n) b = map_prod Machine_answer id (prov_findByName p n b)"
| "doCall p (CDeleteByName n pool) b = map_prod Error_answer id (prov_deleteByName p n pool b)"
| "doCall p (CEnsureInfrastructure spec) b = map_prod Error_answer id (prov_ensureInfrastructure p spec b)"

fun doCalls :: "'b MachineProvider \<Rightarrow> backendCall list \<Rightarrow> 'b \<Rightarrow> answer list \<times> 'b" where
  "doCalls p [] b = ([], b)"
| "doCalls p (c # cs) b = (case doCall p c b of (r, b1) \<Rightarrow> (case doCalls p cs b1 of (rs, b2) \<Rightarrow> (r # rs, b2)))"

lemmas instrumented_defs = Instrumented_def instrumentedCreate_def instrumentedDelete_def instrumentedGet_def
  instrumentedFindByName_def instrumentedDeleteByName_def instrumentedEnsure_def observe_def

lemma instrumented_doCall:
  "doCall (Instrumented p hypervisor) c (b, samples) = (case doCall p c b of (r, b') \<Rightarrow>
     (r, b', samples @ [(operation c, ClassifyOutcome (answerErr r), hypervisor)]))"
  by (cases c) (simp_all add: instrumented_defs split: prod.splits)

lemma instrumented_doCalls:
  "doCalls (Instrumented p hypervisor) cs (b, samples) = (case doCalls p cs b of (rs, b') \<Rightarrow>
     (rs, b', samples @ map2 (\<lambda>c r. (operation c, ClassifyOutcome (answerErr r), hypervisor)) cs rs))"
proof (induction cs arbitrary: b samples)
  case (Cons c cs)
  obtain r b1 where r: "doCall p c b = (r, b1)" by fastforce
  obtain rs b2 where rs: "doCalls p cs b1 = (rs, b2)" by fastforce
  show ?case using Cons.IH [of b1] by (simp add: instrumented_doCall r rs)
qed simp

text \<open>The contract of a backend is the contract of its wrapper, whose samples no law speaks of.\<close>

lemma instrumented_provider:
  assumes "machine_provider p ok vm rest"
  shows "machine_provider (Instrumented p hypervisor) (\<lambda>s. ok (fst s)) (\<lambda>s. vm (fst s)) (\<lambda>s. rest (fst s))"
proof (unfold_locales, goal_cases)
  case (1 b spec st b')
  then show ?case using machine_provider.create_ok [OF assms, of "fst b" spec] by (auto simp: instrumented_defs split: prod.splits)
next
  case (2 b spec e b')
  then show ?case using machine_provider.create_err [OF assms, of "fst b" spec] by (auto simp: instrumented_defs split: prod.splits)
next
  case (3 b i st b')
  then show ?case using machine_provider.get_ok [OF assms, of "fst b" i] by (auto simp: instrumented_defs split: prod.splits)
next
  case (4 b i e b')
  then show ?case using machine_provider.get_err [OF assms, of "fst b" i] by (auto simp: instrumented_defs split: prod.splits)
next
  case (5 b n st b')
  then show ?case using machine_provider.find_ok [OF assms, of "fst b" n] by (auto simp: instrumented_defs split: prod.splits)
next
  case (6 b n e b')
  then show ?case using machine_provider.find_err [OF assms, of "fst b" n] by (auto simp: instrumented_defs split: prod.splits)
next
  case (7 b i res b')
  then show ?case using machine_provider.delete_frame [OF assms, of "fst b" i] by (auto simp: instrumented_defs split: prod.splits)
next
  case (8 b i b')
  then show ?case using machine_provider.delete_ok [OF assms, of "fst b" i] by (auto simp: instrumented_defs split: prod.splits)
next
  case (9 b n pool res b')
  then show ?case using machine_provider.deleteByName_frame [OF assms, of "fst b" n pool] by (auto simp: instrumented_defs split: prod.splits)
next
  case (10 b n pool b')
  then show ?case using machine_provider.deleteByName_ok [OF assms, of "fst b" n pool] by (auto simp: instrumented_defs split: prod.splits)
next
  case (11 b ispec res b')
  then show ?case using machine_provider.ensure_frame [OF assms, of "fst b" ispec] by (auto simp: instrumented_defs split: prod.splits)
next
  case (12 b)
  then show ?case by (rule machine_provider.ids_distinct [OF assms])
next
  case (13 b)
  then show ?case by (rule machine_provider.ids_nonempty [OF assms])
next
  case (14 b i)
  then show ?case by (rule machine_provider.ids_canonical [OF assms])
next
  case 15
  show ?case using machine_provider.name_plain [OF assms] by (simp add: Instrumented_def)
qed

interpretation ifk: machine_provider "Instrumented (fakeProvider dflt) hypervisor" "\<lambda>s. fake_inv (fst s)" "\<lambda>s. fake_vm (fst s)" "\<lambda>_. ()"
  for dflt hypervisor
  by (rule instrumented_provider [OF fk.machine_provider_axioms])

section \<open>Property\<close>

text \<open>
  C40: The wrapper is transparent. It keeps the contract of the backend it wraps; over any sequence of calls
  it answers as the backend does and leaves it in the same state, and records exactly one sample a call, with
  the operation, the outcome of the answer and the one label it was made with.
\<close>

theorem instrumented_transparent:
  assumes "machine_provider p ok vm rest"
  shows "machine_provider (Instrumented p hypervisor) (\<lambda>s. ok (fst s)) (\<lambda>s. vm (fst s)) (\<lambda>s. rest (fst s))
    \<and> doCalls (Instrumented p hypervisor) cs (b, samples) = (case doCalls p cs b of (rs, b') \<Rightarrow>
        (rs, b', samples @ map2 (\<lambda>c r. (operation c, ClassifyOutcome (answerErr r), hypervisor)) cs rs))"
  by (intro conjI instrumented_provider [OF assms] instrumented_doCalls)

theorem instrumented_transparent_witness:
  "snd (snd (doCalls (Instrumented (fakeProvider ''default'') ''hv1:16514'') [CFindByName ''m'', CDelete ''x''] (newFake, [])))
     = [(''FindByName'', OutcomeNotFound, ''hv1:16514''), (''Delete'', OutcomeSuccess, ''hv1:16514'')]"
  unfolding conjunct2 [OF instrumented_transparent [OF fk.machine_provider_axioms]]
  by (simp add: fakeProvider_def newFake_def fakeFindByName_def fakeDelete_def ClassifyOutcome_def)

end
