(* ===== verification/Spec2Isabelle.thy ===== *)
theory Spec2Isabelle
  imports Machine_Props Cluster_Props Template_Props Pool_Props Libvirt_Props Conn_Props Dial_Props Backend_Metrics
begin

text \<open>
  A verification of \<^verbatim>\<open>cluster-api-provider-hydra\<close>, a Cluster API infrastructure provider: a
  Kubernetes controller that keeps virtual machines on hypervisors in step with
  \<^verbatim>\<open>HydraMachine\<close>, \<^verbatim>\<open>HydraCluster\<close> and \<^verbatim>\<open>HydraMachineTemplate\<close> objects.

  \<^bold>\<open>The program.\<close> Three reconcilers (\<^verbatim>\<open>internal/controller\<close>) read objects from the API server,
  call a backend through the interface \<^verbatim>\<open>MachineProvider\<close> (\<^verbatim>\<open>internal/providers/provider.go\<close>)
  and write annotations, finalizers and status back. A connection to a hypervisor comes from a pool
  shared by all reconcilers (\<^verbatim>\<open>internal/providers/pool.go\<close>). The backends are an in-memory one
  (\<^verbatim>\<open>fake/fake.go\<close>) and libvirt (\<^verbatim>\<open>libvirt/\<close>), which describes machines in XML
  (\<^verbatim>\<open>xml.go\<close>) and talks to a daemon.

  \<^bold>\<open>How it is modelled.\<close> Go structs are records, errors are values of \<open>goerr\<close> with the exact
  classification of \<^verbatim>\<open>errors.Is\<close> and an abridged text, and every function of the sources is one
  definition of the same name, with the stretches of a long function named apart. What a function
  changes is passed explicitly: the API server (\<open>'k\<close>) and the backends (\<open>'b\<close>) in an \<open>env\<close>. The API
  server's client, controller-runtime and the helpers of apimachinery are not part of the
  repository: they are records of functions (\<open>kube\<close>, \<open>lib\<close>), and what the code relies on is stated
  in locales (\<open>api_server\<close>, \<open>apimachinery\<close>, \<open>fleet\<close>, \<open>template_store\<close>), each interpreted on a
  reference world in which the witnesses run. Standard library code (\<^verbatim>\<open>net\<close>, \<^verbatim>\<open>strconv\<close>,
  \<^verbatim>\<open>crypto/sha256\<close>) is written out.

  \<^bold>\<open>The theories.\<close>
  \<^item> \<open>Hydra_Prelude\<close>, \<open>Go_Errors\<close>, \<open>Go_Net\<close>, \<open>Sha256\<close>: shared lemmas, errors, addresses, hashing. The
    tables of SHA-256 are checked to be the bits of the square and cube roots of primes.
  \<^item> \<open>Provider_Api\<close>: the data of \<^verbatim>\<open>provider.go\<close>, provider ids and their parser, outcomes.
    \<open>Provider_Contract\<close>: the promises of \<^verbatim>\<open>MachineProvider\<close> as the locale \<open>machine_provider\<close>, and
    \<open>Fake_Provider\<close>: \<^verbatim>\<open>fake.go\<close>, which keeps them.
  \<^item> \<open>Api_Types\<close>, \<open>Cluster_Api\<close>, \<open>Hypervisor_Ref\<close>: the objects, \<^verbatim>\<open>clusterapi.go\<close> (owners, pausing, the
    gate before a create, bootstrap data) and \<^verbatim>\<open>hypervisor.go\<close> (canonical addresses, credentials).
  \<^item> \<open>Machine_Controller\<close>: \<^verbatim>\<open>hydramachine_controller.go\<close>. \<open>Machine_World\<close> proves over the interfaces
    that no run of reconciles orphans a machine or touches another's; \<open>Machine_Props\<close> has the
    behaviour of each stretch; \<open>Ref_World\<close> is a world to run it in.
  \<^item> \<open>Cluster_Controller\<close>: \<^verbatim>\<open>hydracluster_controller.go\<close>. \<open>Ipv4_Facts\<close> and \<open>Endpoint_Props\<close> show the
    endpoint check exact and the derived endpoint the least usable address; \<open>Cluster_Props\<close> shows
    what its verdicts mean, and that it records a hypervisor only where the machine was found.
  \<^item> \<open>Template_Controller\<close>, \<open>Template_Props\<close>: \<^verbatim>\<open>hydramachinetemplate_controller.go\<close>, which does not feed
    itself although it watches what it writes.
  \<^item> \<open>Conn_Pool\<close>: \<^verbatim>\<open>pool.go\<close>, each stretch under its lock one definition, interleaved by the step
    relations \<open>call_step\<close> and \<open>pool_step\<close>. \<open>Pool_Inv\<close>, \<open>Pool_Steps\<close>, \<open>Pool_Runs\<close> have the invariant and
    its preservation, \<open>Pool_Live\<close> progress and what a call gets, \<open>Pool_Props\<close> the properties.
  \<^item> \<open>Libvirt_Uuid\<close>, \<open>Libvirt_Xml\<close>: \<^verbatim>\<open>libvirt/xml.go\<close>, machine ids and the documents, as trees of elements
    with the struct tags of the sources as render and decode functions; \<open>Xml_Props\<close> shows that decoding
    undoes rendering.
  \<^item> \<open>Cloud_Init\<close>: \<^verbatim>\<open>internal/cloudinit/nocloud.go\<close>, and the vocabulary of actions it and the next
    theory are written in. \<open>Libvirt_Provider\<close>: \<^verbatim>\<open>libvirt/libvirt.go\<close>, every operation with every call of
    the daemon in order. The client is a record of actions (\<open>client\<close>); \<open>call\<close> gives its answer or the
    error of a context that ended first.
  \<^item> \<open>Libvirt_Calls\<close>: which relations on the host an operation keeps, as the locale \<open>calls_kept\<close>, and the
    volumes of others (\<open>volume_store\<close>). \<open>Libvirt_Contract\<close>: what libvirt documents of its calls
    (\<open>libvirt_daemon\<close>; a domain undefined while it runs stays on as a transient one until it is stopped)
    makes the backend a \<open>machine_provider\<close>. \<open>Libvirt_Host\<close> is a host that discharges both;
    \<open>Libvirt_Props\<close> has the properties and the reconciler over libvirt hosts.
  \<^item> \<open>Libvirt_Conn\<close>: reconnecting (\<^verbatim>\<open>ensureConnected\<close>, the abandonment of attempts, \<^verbatim>\<open>Close\<close>) and the tracking
    dialer of \<^verbatim>\<open>transport.go\<close>, every stretch under a lock one definition; callers, timers, the daemon and the
    closes of sockets are the step relation \<open>conn_step\<close>. \<open>Conn_Inv\<close> has the invariant in parts, \<open>Conn_Props\<close>
    shows that no socket is lost, a socket that is gone lets no new call through, and no attempt stays
    claimed when nobody waits for it.
  \<^item> \<open>Libvirt_Dial\<close>: \<^verbatim>\<open>dial.go\<close>, \<^verbatim>\<open>tlsdial.go\<close>, \<^verbatim>\<open>Config\<close> and \<^verbatim>\<open>New\<close>. \<open>Backend_Config\<close>: \<^verbatim>\<open>cmd/backendconfig.go\<close> and
    the part of \<^verbatim>\<open>cmd/main.go\<close> that decides which connection a reconciler is given. \<open>Dial_Props\<close> follows a
    hypervisor from the object that names it to the TLS configuration it is dialled with.
  \<^item> \<open>Backend_Metrics\<close>: \<^verbatim>\<open>instrumented.go\<close> and the opener of \<^verbatim>\<open>main.go\<close>; the wrapper keeps the contract.
  \<^item> This theory composes the machine and the cluster reconciler over one fleet.

  \<^bold>\<open>Assumptions.\<close> A run is a sequence of whole reconciles: they do not overlap. Within one, reads are
  current and nobody else writes the object (the sources guard the writes that matter with an
  optimistic lock, and fail otherwise); between reconciles anything may be written that keeps what
  the finalizer protects. In the locale \<open>fleet\<close> the parameter \<open>site\<close> says which hypervisor an address
  reaches: several addresses may reach the same one, and a cluster may name the hypervisor of the
  flags, but an address stays with its hypervisor. Connecting may fail, for want of a connection,
  credentials or a place in the pool; a connection that is given acts on the hypervisor of its
  address. A backend makes no machine when it has no storage pool to make it in (shown of libvirt,
  whose flag is empty by default). Names of machines made by others are in the set \<open>foreign\<close>, and
  the names of stored objects are apart, as their digests make them. In \<open>template_store\<close> the API
  server returns a status as it was sent; that it may write a quantity in another notation, which
  \<^verbatim>\<open>capacityEqual\<close> allows for, is not represented. Machine integers are at their width where the
  sources can overflow them; the timeouts of a \<^verbatim>\<open>Config\<close> are unbounded, and no property rests on
  them. There is no fuel anywhere: every recursion is structural or has a measure.

  \<^bold>\<open>Not modelled.\<close> The rest of \<^verbatim>\<open>cmd/main.go\<close> (set-up of the manager and its endpoints), the declarations of
  \<^verbatim>\<open>internal/metrics\<close> and registration of watches: glue over libraries. Generated deep copies.
  Log lines, contexts other than the pool's, and the wording of messages.
  The first handshake of \<^verbatim>\<open>New\<close> step by step (its abandonment at the deadline is that of a reconnect) and the
  graceful half of \<^verbatim>\<open>Close\<close>. For the operations of the backend the connection is the one action \<open>lv_begin\<close>. A
  call of the daemon whose context ends takes effect before the next step or not at all: one that lands
  later, behind what the backend does next, is not modelled. The concrete syntax of XML, YAML and ISO 9660.
  How long anything takes: deadlines are values, and timers are steps that may come at any time.
\<close>

section \<open>The two reconcilers together\<close>

text \<open>
  A run of the whole controller: reconciles of machines and of clusters one after another, in any
  order, and what others do to the API server in between, which leaves an object that holds the
  finalizer in place with its name and records. The names the backend knows machines by are apart,
  as the digests in them make them.
\<close>

inductive fleet_run ::
  "('k, 'b) HydraMachineReconciler \<Rightarrow> ('k, 'b) HydraClusterReconciler \<Rightarrow> (string \<Rightarrow> string)
    \<Rightarrow> ('k \<Rightarrow> NamespacedName \<Rightarrow> HydraMachine option) \<Rightarrow> string set \<Rightarrow> ('k, 'b) env \<Rightarrow> ('k, 'b) env \<Rightarrow> bool"
  for r :: "('k, 'b) HydraMachineReconciler" and rc :: "('k, 'b) HydraClusterReconciler" and site and stored and foreign where
  fleet_refl: "fleet_run r rc site stored foreign s s"
| fleet_machine: "fleet_run r rc site stored foreign s s1 \<Longrightarrow> namesApart stored foreign (env_kube s1) \<Longrightarrow>
    Reconcile r req s1 = (res, s2) \<Longrightarrow> fleet_run r rc site stored foreign s s2"
| fleet_cluster: "fleet_run r rc site stored foreign s s1 \<Longrightarrow> namesApart stored foreign (env_kube s1) \<Longrightarrow>
    ReconcileCluster rc req s1 = (res', s2) \<Longrightarrow> fleet_run r rc site stored foreign s s2"
| fleet_others: "fleet_run r rc site stored foreign s s1 \<Longrightarrow> env_backend s2 = env_backend s1 \<Longrightarrow>
    (\<And>key m h. stored (env_kube s1) key = Some m \<Longrightarrow> anchored (mr_lib r) site m h \<Longrightarrow>
       \<exists>m'. stored (env_kube s2) key = Some m' \<and> backendName m' = backendName m \<and> anchored (mr_lib r) site m' h) \<Longrightarrow>
    fleet_run r rc site stored foreign s s2"

text \<open>
  Recording the address of the hypervisor a machine is on keeps it anchored there: it was anchored
  by being made on the flags, and the address reaches that same hypervisor.
\<close>

lemma placeOn_anchored:
  assumes "unplaced m" "anchored L site m h" "address \<noteq> []" "site address = h"
  shows "anchored L site (placeOn address m) h"
  using assms by (auto simp: anchored_def recordsHost_def placeOn_def lookupStr_def)

lemma ReconcileCluster_keeps_anchored:
  assumes w: "cluster_world rc stored providerFor releaseOwner ok vms site"
    and i: "ok (env_backend s)" and no: "noOrphans L site stored vms foreign s"
    and ap: "namesApart stored foreign (env_kube s)" and run: "ReconcileCluster rc req s = (res, s')"
  shows "ok (env_backend s') \<and> noOrphans L site stored vms foreign s'"
proof -
  from cluster_world.ReconcileCluster_places [OF w i run] obtain prov a where
    "cluster_world.placedFound stored ok vms site prov a s s'" by blast
  then obtain ms where ok: "ok (env_backend s')" and v: "vms (env_backend s') = vms (env_backend s)"
    and p: "placedSome stored a ms (env_kube s) (env_kube s')"
    and f: "\<And>m. m \<in> set ms \<Longrightarrow> a \<noteq> [] \<and> unplaced m \<and> foundThere (vms (env_backend s) (site a)) prov m"
    unfolding cluster_world.placedFound_def [OF w] by blast
  have "noOrphans L site stored vms foreign s'"
    unfolding noOrphans_def
  proof (intro allI impI)
    fix h n assume "vms (env_backend s') h n \<noteq> None" and nf: "n \<notin> foreign"
    then have "vms (env_backend s) h n \<noteq> None" using v by simp
    then obtain key m where m: "stored (env_kube s) key = Some m" "backendName m = n" "anchored L site m h"
      using nf by (rule noOrphansD [OF no])
    show "\<exists>key m. stored (env_kube s') key = Some m \<and> backendName m = n \<and> anchored L site m h"
    proof (cases "stored (env_kube s') key = stored (env_kube s) key")
      case True
      with m show ?thesis by metis
    next
      case False
      with p [unfolded placedSome_def, THEN spec, of key] m(1) obtain m' where
        ms: "m \<in> set ms" and m': "stored (env_kube s') key = Some m'" "core m' = core (placeOn a m)" by auto
      have "vms (env_backend s) (site a) n \<noteq> None"
        using f [OF ms] m(2) by (auto simp: foundThere_def split: sum.splits)
      then obtain key2 m2 where m2: "stored (env_kube s) key2 = Some m2" "backendName m2 = n" "anchored L site m2 (site a)"
        using nf by (rule noOrphansD [OF no])
      with ap m(1,2) have "m2 = m" unfolding namesApart_def by (metis option.inject)
      with m2(3) m(3) have "site a = h" by (auto simp: anchored_def recordsHost_def)
      with placeOn_anchored [of m L site h a] f [OF ms] m(3) have "anchored L site m' h"
        using core_eqD(8) [OF m'(2)] by blast
      moreover have "backendName (placeOn a m) = n"
        using m(2) by (simp add: placeOn_def backendName_def identityDigest_def)
      with core_eqD(1) [OF m'(2)] have "backendName m' = n" by simp
      ultimately show ?thesis using m'(1) by blast
    qed
  qed
  with ok show ?thesis by blast
qed

lemma fleet_run_noOrphans:
  assumes "machine_world r stored providerFor releaseOwner ok vms site"
    and "cluster_world rc stored providerFor releaseOwner ok vms site"
  shows "fleet_run r rc site stored foreign s s' \<Longrightarrow> ok (env_backend s) \<Longrightarrow> noOrphans (mr_lib r) site stored vms foreign s
    \<Longrightarrow> ok (env_backend s') \<and> noOrphans (mr_lib r) site stored vms foreign s'"
proof (induction rule: fleet_run.induct)
  case (fleet_machine s s1 req res s2)
  then show ?case using machine_world.Reconcile_noOrphans [OF assms(1)] by blast
next
  case (fleet_cluster s s1 req res' s2)
  then show ?case using ReconcileCluster_keeps_anchored [OF assms(2)] by blast
next
  case (fleet_others s s1 s2)
  have "world_run r site stored foreign s1 s2"
    by (rule world_run.run_others [OF world_run.run_refl fleet_others.hyps(2)]) (rule fleet_others.hyps(3))
  with machine_world.run_noOrphans [OF assms(1)] fleet_others.IH fleet_others.prems show ?case by blast
qed simp

text \<open>
  C1: over any sequence of whole reconciles of machines and clusters, with calls failing anywhere and
  others editing objects in between, no machine is orphaned: each machine on a hypervisor belongs to
  a stored HydraMachine that holds the finalizer and whose operations go to an address of that
  hypervisor, whatever its cluster says. Addresses may be aliases, and a cluster may name the
  hypervisor of the flags: recording its address on a machine that was made there keeps the machine
  reachable, and no address of another hypervisor is ever recorded on it.
\<close>

theorem fleet_never_orphans:
  assumes "machine_world r stored providerFor releaseOwner ok vms site"
    and "cluster_world rc stored providerFor releaseOwner ok vms site"
    and "ok (env_backend s)" "noOrphans (mr_lib r) site stored vms foreign s"
    and "fleet_run r rc site stored foreign s s'"
    and "vms (env_backend s') h n = Some i" "n \<notin> foreign"
  shows "\<exists>key m. stored (env_kube s') key = Some m \<and> backendName m = n
     \<and> containsFinalizer (mr_lib r) (om_finalizers (hm_meta m)) MachineFinalizer
     \<and> (\<exists>a. site a = h \<and> (\<forall>link. placementFor m link = Inr a))"
proof -
  from fleet_run_noOrphans [OF assms(1,2,5,3,4)]
  have no: "noOrphans (mr_lib r) site stored vms foreign s'" by blast
  have "vms (env_backend s') h n \<noteq> None" using assms(6) by simp
  then obtain key m where "stored (env_kube s') key = Some m" "backendName m = n" "anchored (mr_lib r) site m h"
    using assms(7) by (rule noOrphansD [OF no])
  then show ?thesis using recordsHost_placement unfolding anchored_def by blast
qed

text \<open>A machine made on the flags, and a cluster that names the hypervisor of the flags after that.\<close>

definition refFleetReconciler :: "(refWorld, string \<Rightarrow> FakeProvider) HydraMachineReconciler" where
  "refFleetReconciler = \<lparr>mr_lib = refLib, mr_client = refClusterKube, mr_apiReader = Some refClusterKube,
     mr_provider = None, mr_providerFor = Some fakeFleet, mr_releaseProvider = Some (\<lambda>_ b. b)\<rparr>"

interpretation rfm: machine_world refFleetReconciler rf_machines fakeFleet "\<lambda>_ b. b"
  "\<lambda>b. \<forall>h. fake_inv (b h)" "\<lambda>b h. fake_vm (b h)" fakeSite
proof (intro_locales)
  show "apimachinery (mr_lib refFleetReconciler)"
    using refl.apimachinery_axioms by (simp add: refFleetReconciler_def)
  show "api_server (mr_client refFleetReconciler) rf_machines"
    using rca.api_server_axioms by (simp add: refFleetReconciler_def)
  show "machine_world_axioms refFleetReconciler fakeFleet (\<lambda>_ b. b)"
    by unfold_locales (simp_all add: refFleetReconciler_def)
qed

theorem fleet_never_orphans_witness:
  "(\<exists>key m. rf_machines (env_kube namingAfter) key = Some m \<and> backendName m = backendName madeMachine
     \<and> containsFinalizer refLib (om_finalizers (hm_meta m)) MachineFinalizer
     \<and> (\<exists>a. fakeSite a = [] \<and> (\<forall>link. placementFor m link = Inr a)))
   \<and> rf_machines (env_kube namingAfter) = [(''ns'', ''w1'') \<mapsto> placeOn ''hv1:16514'' madeMachine]"
proof -
  let ?run = "ReconcileCluster refClusterReconciler (''ns'', ''hc'') namingWorld"
  have run: "?run = (fst ?run, namingAfter)" by simp
  have a: "anchored refLib fakeSite madeMachine []"
    by (auto simp: anchored_def recordsHost_def mayBeMadeOnFlags_def lookupStr_def refLib_def madeMachine_def
        examplePlaced_def exampleFinal_def intro!: exI [of _ "[]"])
  have st: "rf_machines (env_kube namingWorld) = [(''ns'', ''w1'') \<mapsto> madeMachine]"
    and bk: "env_backend namingWorld = madeOnFlags" by (simp_all add: namingWorld_def)
  have no: "noOrphans (mr_lib refFleetReconciler) fakeSite rf_machines (\<lambda>b h. fake_vm (b h)) {} namingWorld"
    using a by (auto simp: noOrphans_def bk madeOnFlags_vm st refFleetReconciler_def split: if_splits)
  have "namesApart rf_machines {} (env_kube namingWorld)" by (simp add: namesApart_def st)
  then have f: "fleet_run refFleetReconciler refClusterReconciler fakeSite rf_machines {} namingWorld namingAfter"
    by (rule fleet_cluster [OF fleet_refl _ run])
  have ok: "\<forall>h. fake_inv (env_backend namingWorld h)" using madeOnFlags_inv by (simp add: bk)
  from rc.ReconcileCluster_places [OF ok run]
  have "(\<lambda>h. fake_vm (env_backend namingAfter h)) = (\<lambda>h. fake_vm (env_backend namingWorld h))"
    unfolding rc.placedFound_def by blast
  then have vm: "fake_vm (env_backend namingAfter []) (backendName madeMachine) = Some (fakeID 1)"
    using madeOnFlags_vm bk by metis
  from fleet_never_orphans [OF rfm.machine_world_axioms rc.cluster_world_axioms ok no f, of "[]", OF vm] naming_run
  show ?thesis by (simp add: refFleetReconciler_def del: split_paired_Ex)
qed

end
